(* ===== verification/Prelude.thy ===== *)
theory Prelude
  imports Main "HOL-Library.Word"
begin

text \<open>
  Shared vocabulary of the development.

  \<^item> Go's \<open>byte\<close> is an 8-bit word and \<open>[]byte\<close> a list of them; a Go \<open>string\<close> is a
    sequence of bytes, modelled by \<open>string\<close> (a list of 8-bit characters), with
    \<open>string_bytes\<close> and \<open>bytes_string\<close> for the conversions \<open>[]byte(s)\<close> and \<open>string(b)\<close>.
  \<^item> \<open>encoding/binary\<close>'s big-endian integers (\<open>PutUint16\<close>, \<open>Uint16\<close>, ... of the
    standard library), as shifts and disjunctions on words, with the two round trips.
  \<^item> The locale \<open>fixed_codec\<close>: what the frame formats rely on from a fixed-width
    integer encoding; interpreted on the 16, 32 and 64 bit encodings.
\<close>

unbundle bit_operations_syntax

named_theorems codec_simps \<open>lengths and inversions of encoders\<close>

type_synonym byte = "8 word"
type_synonym bytes = "8 word list"
type_synonym u16 = "16 word"
type_synonym u32 = "32 word"
type_synonym u64 = "64 word"

section \<open>Strings and bytes\<close>

definition byte_of :: "char \<Rightarrow> byte" where
  "byte_of c = word_of_nat (of_char c)"

definition char_of_byte :: "byte \<Rightarrow> char" where
  "char_of_byte b = char_of (unat b)"

definition string_bytes :: "string \<Rightarrow> bytes" where
  "string_bytes s = map byte_of s"

definition bytes_string :: "bytes \<Rightarrow> string" where
  "bytes_string bs = map char_of_byte bs"

lemma char_of_byte_of [simp]: "char_of_byte (byte_of c) = c"
proof -
  have "unat (word_of_nat (of_char c) :: byte) = of_char c"
    by (simp add: unat_of_nat)
  then show ?thesis by (simp add: char_of_byte_def byte_of_def)
qed

lemma byte_of_char_of [simp]: "byte_of (char_of_byte b) = b"
proof -
  have "unat b < 256" using unsigned_less [of b] by simp
  then show ?thesis by (simp add: char_of_byte_def byte_of_def)
qed

lemma bytes_string_bytes [simp]: "bytes_string (string_bytes s) = s"
  by (simp add: string_bytes_def bytes_string_def comp_def)

lemma string_bytes_string [simp]: "string_bytes (bytes_string bs) = bs"
  by (simp add: string_bytes_def bytes_string_def comp_def)

lemma length_string_bytes [simp, codec_simps]: "length (string_bytes s) = length s"
  by (simp add: string_bytes_def)

lemma length_bytes_string [simp, codec_simps]: "length (bytes_string bs) = length bs"
  by (simp add: bytes_string_def)

lemma string_bytes_append [simp]: "string_bytes (s @ t) = string_bytes s @ string_bytes t"
  by (simp add: string_bytes_def)

lemma bytes_string_append [simp]: "bytes_string (s @ t) = bytes_string s @ bytes_string t"
  by (simp add: bytes_string_def)

lemma string_bytes_eq_iff [simp]: "string_bytes s = string_bytes t \<longleftrightarrow> s = t"
  by (metis bytes_string_bytes)

lemma bytes_string_eq_iff [simp]: "bytes_string s = bytes_string t \<longleftrightarrow> s = t"
  by (metis string_bytes_string)

section \<open>Big-endian integers\<close>

definition be_put :: "nat \<Rightarrow> 'a::len word \<Rightarrow> bytes" where
  "be_put n w = map (\<lambda>i. ucast (drop_bit (8 * i) w)) (rev [0..<n])"

definition be_get :: "bytes \<Rightarrow> 'a::len word" where
  "be_get bs = foldl (\<lambda>acc b. push_bit 8 acc OR ucast b) 0 bs"

lemma length_be_put [simp, codec_simps]: "length (be_put n w) = n"
  by (simp add: be_put_def)

lemma be_get_snoc: "be_get (bs @ [b]) = push_bit 8 (be_get bs) OR ucast b"
  by (simp add: be_get_def)

lemma bit_be_get:
  "bit (be_get bs :: 'a::len word) i \<longleftrightarrow>
     i < LENGTH('a) \<and> i < 8 * length bs \<and> bit (rev bs ! (i div 8)) (i mod 8)"
proof (induction bs arbitrary: i rule: rev_induct)
  case Nil
  then show ?case by (simp add: be_get_def)
next
  case (snoc b bs)
  show ?case
  proof (cases "i < 8")
    case True
    then show ?thesis
      by (auto simp: be_get_snoc bit_or_iff bit_push_bit_iff bit_ucast_iff dest: bit_imp_le_length)
  next
    case False
    then obtain j where j: "i = 8 + j"
      using le_Suc_ex not_less by blast
    have "\<not> bit b i" using False bit_imp_le_length [of b i] by auto
    moreover have "(8 + j) div 8 = Suc (j div 8)" by simp
    ultimately show ?thesis
      by (auto simp: j be_get_snoc bit_or_iff bit_push_bit_iff bit_ucast_iff snoc.IH
               simp del: div_add_self1 dest: bit_imp_le_length)
  qed
qed

lemma be_put_nth: "i < n \<Longrightarrow> rev (be_put n w) ! i = ucast (drop_bit (8 * i) w)"
  by (simp add: be_put_def rev_map [symmetric])

lemma be_get_put:
  fixes w :: "'a::len word"
  assumes "LENGTH('a) = 8 * n"
  shows "be_get (be_put n w) = w"
proof (rule bit_word_eqI)
  fix i assume "i < LENGTH('a)"
  then have i: "i div 8 < n" using assms by auto
  then show "bit (be_get (be_put n w) :: 'a word) i = bit w i"
    using assms \<open>i < LENGTH('a)\<close>
    by (simp add: bit_be_get be_put_nth bit_ucast_iff bit_drop_bit_eq)
qed

lemma be_put_get:
  assumes n: "length bs = n" and "LENGTH('a) = 8 * n"
  shows "be_put n (be_get bs :: 'a::len word) = bs"
proof -
  note assms(2) [folded n]
  have "rev (be_put (length bs) (be_get bs :: 'a word)) = rev bs"
  proof (rule nth_equalityI)
    show "length (rev (be_put (length bs) (be_get bs :: 'a word))) = length (rev bs)"
      by simp
  next
    fix k assume "k < length (rev (be_put (length bs) (be_get bs :: 'a word)))"
    then have k: "k < length bs" by simp
    show "rev (be_put (length bs) (be_get bs :: 'a word)) ! k = rev bs ! k"
    proof (rule bit_word_eqI)
      fix i assume i: "i < LENGTH(8)"
      then have "8 * k + i < 8 * length bs" using k by simp
      with i k \<open>LENGTH('a) = 8 * length bs\<close>
      show "bit (rev (be_put (length bs) (be_get bs :: 'a word)) ! k) i = bit (rev bs ! k) i"
        by (simp add: be_put_nth bit_ucast_iff bit_drop_bit_eq bit_be_get)
    qed
  qed
  then show ?thesis by (simp add: n)
qed

definition put_uint16 :: "u16 \<Rightarrow> bytes" where "put_uint16 = be_put 2"
definition get_uint16 :: "bytes \<Rightarrow> u16" where "get_uint16 = be_get"
definition put_uint32 :: "u32 \<Rightarrow> bytes" where "put_uint32 = be_put 4"
definition get_uint32 :: "bytes \<Rightarrow> u32" where "get_uint32 = be_get"
definition put_uint64 :: "u64 \<Rightarrow> bytes" where "put_uint64 = be_put 8"
definition get_uint64 :: "bytes \<Rightarrow> u64" where "get_uint64 = be_get"

text \<open>The contract of a fixed-width encoding, as the frame formats use it.\<close>

locale fixed_codec =
  fixes enc :: "'a \<Rightarrow> bytes" and dec :: "bytes \<Rightarrow> 'a" and width :: nat
  assumes width_enc: "length (enc x) = width"
    and dec_enc: "dec (enc x) = x"
    and enc_dec: "length bs = width \<Longrightarrow> enc (dec bs) = bs"
begin

lemma enc_inj: "enc x = enc y \<longleftrightarrow> x = y"
  by (metis dec_enc)

lemma split_enc: "enc x @ a = enc y @ b \<longleftrightarrow> x = y \<and> a = b"
  by (simp add: append_eq_append_conv width_enc enc_inj)

lemma dec_take: "dec (take width (enc x @ a)) = x"
  by (simp add: width_enc dec_enc)

lemma drop_enc: "drop width (enc x @ a) = a"
  by (simp add: width_enc)

end

interpretation be16: fixed_codec put_uint16 get_uint16 2
  by unfold_locales
    (simp_all add: put_uint16_def get_uint16_def be_get_put be_put_get)

interpretation be32: fixed_codec put_uint32 get_uint32 4
  by unfold_locales
    (simp_all add: put_uint32_def get_uint32_def be_get_put be_put_get)

interpretation be64: fixed_codec put_uint64 get_uint64 8
  by unfold_locales
    (simp_all add: put_uint64_def get_uint64_def be_get_put be_put_get)

section \<open>Ports in wider words\<close>

lemma unat_u16_u64 [simp]: "unat (ucast (s :: u16) :: u64) = unat s"
proof -
  have "unat s < 2 ^ 64" using unsigned_less [of s, where ?'a = nat] by (simp add: order.strict_trans)
  then show ?thesis by (simp add: unsigned_ucast_eq take_bit_nat_eq_self)
qed

lemma u16_in_u64:
  fixes s :: u16
  shows "(ucast s :: u64) = 0 \<longleftrightarrow> s = 0" and "\<not> 65535 < (ucast s :: u64)" and "ucast (ucast s :: u64) = s"
proof -
  show "(ucast s :: u64) = 0 \<longleftrightarrow> s = 0" by (simp add: unat_eq_0 [symmetric])
  show "\<not> 65535 < (ucast s :: u64)" using unsigned_less [of s, where ?'a = nat] by (simp add: word_less_nat_alt)
  show "ucast (ucast s :: u64) = s" by (rule bit_word_eqI) (simp add: bit_ucast_iff)
qed

section \<open>Invariants of step relations\<close>

text \<open>
  The contract of a state machine with an invariant: it holds initially and every step keeps
  it, hence in every state that steps lead to.
\<close>

locale invariant_system =
  fixes step :: "'s \<Rightarrow> 's \<Rightarrow> bool" and initial :: "'s \<Rightarrow> bool" and inv :: "'s \<Rightarrow> bool"
  assumes initial_inv: "initial s \<Longrightarrow> inv s"
    and step_inv: "inv s \<Longrightarrow> step s s' \<Longrightarrow> inv s'"
begin

lemma steps_inv: "step\<^sup>*\<^sup>* s s' \<Longrightarrow> inv s \<Longrightarrow> inv s'"
  by (induction rule: rtranclp_induct) (auto intro: step_inv)

lemma reachable_inv: "initial s \<Longrightarrow> step\<^sup>*\<^sup>* s s' \<Longrightarrow> inv s'"
  using initial_inv steps_inv by blast

end

end
