(* ===== verification/Go_Text.thy ===== *)
theory Go_Text
  imports Prelude "HOL-Library.Sublist"
begin

text \<open>
  The parts of Go's \<open>strings\<close>, \<open>strconv\<close> and \<open>fmt\<close> packages the program uses.

  \<^item> \<open>show_nat\<close>: \<open>strconv.Itoa\<close> and the verb \<open>%d\<close> on a non-negative number, with its
    inverse \<open>dec_value\<close>, so that rendering is injective and produces digits only.
  \<^item> \<open>Atoi\<close> and \<open>ParseUint16\<close>: \<open>strconv.Atoi\<close> on 64-bit \<open>int\<close> and
    \<open>strconv.ParseUint(s, 10, 16)\<close>, errors as \<open>None\<close>.
  \<^item> \<open>HasPrefix\<close>, \<open>TrimPrefix\<close>, \<open>HasSuffix\<close>, \<open>Contains\<close>: as their namesakes.
  \<^item> \<open>TrimSpace\<close>: removes the runes of \<open>unicode.IsSpace\<close>, in their UTF-8 form, from both
    ends; shown idempotent.
\<close>

section \<open>Decimal numbers\<close>

definition digit_char :: "nat \<Rightarrow> char" where
  "digit_char d = char_of (48 + d)"

definition char_digit :: "char \<Rightarrow> nat" where
  "char_digit c = of_char c - 48"

definition is_digit :: "char \<Rightarrow> bool" where
  "is_digit c \<longleftrightarrow> 48 \<le> (of_char c :: nat) \<and> (of_char c :: nat) \<le> 57"

fun show_nat :: "nat \<Rightarrow> string" where
  "show_nat n = (if n < 10 then [digit_char n] else show_nat (n div 10) @ [digit_char (n mod 10)])"

declare show_nat.simps [simp del]

definition dec_value :: "string \<Rightarrow> nat" where
  "dec_value s = foldl (\<lambda>acc c. 10 * acc + char_digit c) 0 s"

lemma digit_char_inverse [simp]: "d < 10 \<Longrightarrow> char_digit (digit_char d) = d"
  by (simp add: char_digit_def digit_char_def)

lemma is_digit_digit_char [simp]: "d < 10 \<Longrightarrow> is_digit (digit_char d)"
  by (simp add: is_digit_def digit_char_def)

lemma dec_value_show_nat [simp]: "dec_value (show_nat n) = n"
proof (induction n rule: show_nat.induct)
  case (1 n)
  show ?case
  proof (cases "n < 10")
    case True
    then show ?thesis by (simp add: show_nat.simps [of n] dec_value_def)
  next
    case False
    then have "foldl (\<lambda>acc c. 10 * acc + char_digit c) 0 (show_nat (n div 10)) = n div 10"
      using "1.IH" by (simp add: dec_value_def)
    with False show ?thesis
      by (simp add: show_nat.simps [of n] dec_value_def)
  qed
qed

lemma show_nat_eq_iff [simp]: "show_nat m = show_nat n \<longleftrightarrow> m = n"
  by (metis dec_value_show_nat)

lemma show_nat_digits: "c \<in> set (show_nat n) \<Longrightarrow> is_digit c"
proof (induction n rule: show_nat.induct)
  case (1 n)
  then show ?case
    by (cases "n < 10") (auto simp: show_nat.simps [of n])
qed

lemma show_nat_not_Nil [simp]: "show_nat n \<noteq> []"
  by (subst show_nat.simps) simp

lemma show_nat_no_nul: "CHR 0x00 \<notin> set (show_nat n)"
  using show_nat_digits [of "CHR 0x00" n] by (auto simp: is_digit_def)

definition digits_value :: "string \<Rightarrow> nat option" where
  "digits_value s = (if s \<noteq> [] \<and> list_all is_digit s then Some (dec_value s) else None)"

lemma digits_value_show_nat [simp]: "digits_value (show_nat n) = Some n"
  by (auto simp: digits_value_def list_all_iff dest: show_nat_digits)

definition Atoi :: "string \<Rightarrow> int option" where
  "Atoi s =
     (let neg = (s \<noteq> [] \<and> hd s = CHR ''-'');
          body = (if s \<noteq> [] \<and> (hd s = CHR ''-'' \<or> hd s = CHR ''+'') then tl s else s)
      in case digits_value body of
           None \<Rightarrow> None
         | Some n \<Rightarrow>
             (let v = (if neg then - int n else int n)
              in if - (2 ^ 63) \<le> v \<and> v < 2 ^ 63 then Some v else None))"

definition ParseUint16 :: "string \<Rightarrow> nat option" where
  "ParseUint16 s =
     (case digits_value s of None \<Rightarrow> None | Some n \<Rightarrow> if n < 2 ^ 16 then Some n else None)"

lemma Atoi_show_nat: "n < 2 ^ 63 \<Longrightarrow> Atoi (show_nat n) = Some (int n)"
proof -
  assume n: "n < 2 ^ 63"
  have "is_digit (hd (show_nat n))"
    using show_nat_digits [of "hd (show_nat n)" n] by simp
  then have "hd (show_nat n) \<noteq> CHR ''-'' \<and> hd (show_nat n) \<noteq> CHR ''+''"
    by (auto simp: is_digit_def)
  moreover have "int n < 2 ^ 63"
    using n by simp
  ultimately show ?thesis by (simp add: Atoi_def)
qed

lemma ParseUint16_show_nat: "n < 2 ^ 16 \<Longrightarrow> ParseUint16 (show_nat n) = Some n"
  by (simp add: ParseUint16_def)

section \<open>Substrings\<close>

definition HasPrefix :: "string \<Rightarrow> string \<Rightarrow> bool" where
  "HasPrefix s p \<longleftrightarrow> take (length p) s = p"

definition TrimPrefix :: "string \<Rightarrow> string \<Rightarrow> string" where
  "TrimPrefix s p = (if HasPrefix s p then drop (length p) s else s)"

definition HasSuffix :: "string \<Rightarrow> string \<Rightarrow> bool" where
  "HasSuffix s p \<longleftrightarrow> HasPrefix (rev s) (rev p)"

definition TrimSuffix :: "string \<Rightarrow> string \<Rightarrow> string" where
  "TrimSuffix s p = (if HasSuffix s p then take (length s - length p) s else s)"

fun Contains :: "string \<Rightarrow> string \<Rightarrow> bool" where
  "Contains [] p = (p = [])"
| "Contains (c # s) p = (HasPrefix (c # s) p \<or> Contains s p)"

lemma HasPrefix_iff: "HasPrefix s p \<longleftrightarrow> (\<exists>r. s = p @ r)"
  by (metis HasPrefix_def append_eq_conv_conj)

lemma HasPrefix_append [simp]: "HasPrefix (p @ r) p"
  by (simp add: HasPrefix_def)

lemma TrimPrefix_append [simp]: "TrimPrefix (p @ r) p = r"
  by (simp add: TrimPrefix_def)

lemma HasPrefix_TrimPrefix: "HasPrefix s p \<Longrightarrow> p @ TrimPrefix s p = s"
  by (auto simp: HasPrefix_iff)

lemma Contains_iff: "Contains s p \<longleftrightarrow> (\<exists>a b. s = a @ p @ b)"
proof (induction s)
  case Nil
  then show ?case by simp
next
  case (Cons c s)
  have "(\<exists>a b. c # s = a @ p @ b) \<longleftrightarrow> (\<exists>b. c # s = p @ b) \<or> (\<exists>a b. s = a @ p @ b)"
    by (metis append_Cons append_Nil list.exhaust_sel list.sel(3) tl_append2)
  with Cons show ?case by (auto simp: HasPrefix_iff)
qed

section \<open>TrimSpace\<close>

definition space_runes :: "string list" where
  "space_runes =
     [[CHR 0x09], [CHR 0x0A], [CHR 0x0B], [CHR 0x0C], [CHR 0x0D], [CHR 0x20],
      [CHR 0xC2, CHR 0x85], [CHR 0xC2, CHR 0xA0], [CHR 0xE1, CHR 0x9A, CHR 0x80],
      [CHR 0xE2, CHR 0x80, CHR 0x80], [CHR 0xE2, CHR 0x80, CHR 0x81],
      [CHR 0xE2, CHR 0x80, CHR 0x82], [CHR 0xE2, CHR 0x80, CHR 0x83],
      [CHR 0xE2, CHR 0x80, CHR 0x84], [CHR 0xE2, CHR 0x80, CHR 0x85],
      [CHR 0xE2, CHR 0x80, CHR 0x86], [CHR 0xE2, CHR 0x80, CHR 0x87],
      [CHR 0xE2, CHR 0x80, CHR 0x88], [CHR 0xE2, CHR 0x80, CHR 0x89],
      [CHR 0xE2, CHR 0x80, CHR 0x8A], [CHR 0xE2, CHR 0x80, CHR 0xA8],
      [CHR 0xE2, CHR 0x80, CHR 0xA9], [CHR 0xE2, CHR 0x80, CHR 0xAF],
      [CHR 0xE2, CHR 0x81, CHR 0x9F], [CHR 0xE3, CHR 0x80, CHR 0x80]]"

function strip :: "string list \<Rightarrow> string \<Rightarrow> string" where
  "strip ws s =
     (case find (\<lambda>w. w \<noteq> [] \<and> HasPrefix s w) ws of
        None \<Rightarrow> s
      | Some w \<Rightarrow> strip ws (drop (length w) s))"
  by pat_completeness auto
termination
proof (relation "measure (\<lambda>(ws, s). length s)")
  fix ws :: "string list" and s w :: string
  assume "find (\<lambda>w. w \<noteq> [] \<and> HasPrefix s w) ws = Some w"
  then have "w \<noteq> [] \<and> HasPrefix s w"
    by (auto simp: find_Some_iff)
  then show "((ws, drop (length w) s), ws, s) \<in> measure (\<lambda>(ws, s). length s)"
    by (auto simp: HasPrefix_iff)
qed simp

declare strip.simps [simp del]

definition TrimSpace :: "string \<Rightarrow> string" where
  "TrimSpace s = rev (strip (map rev space_runes) (rev (strip space_runes s)))"

definition stripped :: "string list \<Rightarrow> string \<Rightarrow> bool" where
  "stripped ws s \<longleftrightarrow> (\<forall>w\<in>set ws. w \<noteq> [] \<longrightarrow> \<not> HasPrefix s w)"

lemma stripped_strip: "stripped ws (strip ws s)"
proof (induction ws s rule: strip.induct)
  case (1 ws s)
  show ?case
  proof (cases "find (\<lambda>w. w \<noteq> [] \<and> HasPrefix s w) ws")
    case None
    then have "strip ws s = s" by (simp add: strip.simps [of ws s])
    with None show ?thesis by (auto simp: stripped_def find_None_iff)
  next
    case (Some w)
    with "1.IH" show ?thesis by (simp add: strip.simps [of ws s])
  qed
qed

lemma strip_id: "stripped ws s \<Longrightarrow> strip ws s = s"
proof -
  assume "stripped ws s"
  then have "find (\<lambda>w. w \<noteq> [] \<and> HasPrefix s w) ws = None"
    by (auto simp: stripped_def find_None_iff)
  then show ?thesis by (simp add: strip.simps [of ws s])
qed

lemma strip_suffix: "\<exists>a. s = a @ strip ws s"
proof (induction ws s rule: strip.induct)
  case (1 ws s)
  show ?case
  proof (cases "find (\<lambda>w. w \<noteq> [] \<and> HasPrefix s w) ws")
    case None
    then show ?thesis by (simp add: strip.simps [of ws s])
  next
    case (Some w)
    then have "HasPrefix s w" by (auto simp: find_Some_iff)
    then have "s = w @ drop (length w) s" by (auto simp: HasPrefix_iff)
    moreover obtain a where "drop (length w) s = a @ strip ws (drop (length w) s)"
      using "1.IH" [OF Some] by blast
    ultimately have "s = (w @ a) @ strip ws (drop (length w) s)" by (metis append_assoc)
    moreover have "strip ws s = strip ws (drop (length w) s)"
      using Some by (simp add: strip.simps [of ws s])
    ultimately show ?thesis by metis
  qed
qed

lemma stripped_prefix: "stripped ws (a @ b) \<Longrightarrow> stripped ws a"
  by (auto simp: stripped_def HasPrefix_iff)

text \<open>A trimmed string has no space rune at either end, so trimming again changes nothing.\<close>

lemma TrimSpace_ends:
  "stripped space_runes (TrimSpace s) \<and> stripped (map rev space_runes) (rev (TrimSpace s))"
proof -
  let ?l = "strip space_runes s"
  obtain a where "rev ?l = a @ strip (map rev space_runes) (rev ?l)"
    using strip_suffix by blast
  then have "?l = rev (strip (map rev space_runes) (rev ?l)) @ rev a"
    by (metis rev_append rev_rev_ident)
  then have "stripped space_runes (TrimSpace s)"
    using stripped_strip [of space_runes s] stripped_prefix
    unfolding TrimSpace_def by metis
  then show ?thesis by (simp add: TrimSpace_def stripped_strip)
qed

lemma TrimSpace_id:
  "stripped space_runes s \<Longrightarrow> stripped (map rev space_runes) (rev s) \<Longrightarrow> TrimSpace s = s"
  by (simp add: TrimSpace_def strip_id)

lemma TrimSpace_idem [simp]: "TrimSpace (TrimSpace s) = TrimSpace s"
  using TrimSpace_ends [of s] by (simp add: TrimSpace_id)

text \<open>A string whose characters all lie outside the first and last bytes of the space runes
  is left alone; tokens are such strings.\<close>

definition visible_char :: "char \<Rightarrow> bool" where
  "visible_char c \<longleftrightarrow> 0x21 \<le> (of_char c :: nat) \<and> (of_char c :: nat) \<le> 0x7E"

lemma stripped_visible:
  assumes "\<forall>w\<in>set ws. w \<noteq> [] \<longrightarrow> \<not> visible_char (hd w)" and "list_all visible_char s"
  shows "stripped ws s"
  unfolding stripped_def
proof (intro ballI impI notI)
  fix w assume w: "w \<in> set ws" "w \<noteq> []" and "HasPrefix s w"
  then obtain r where "s = w @ r" by (auto simp: HasPrefix_iff)
  then have "visible_char (hd w)"
    using assms(2) w(2) by (cases w) auto
  with assms(1) w show False by blast
qed

lemma TrimSpace_visible: "list_all visible_char s \<Longrightarrow> TrimSpace s = s"
  by (rule TrimSpace_id; rule stripped_visible)
    (auto simp: space_runes_def visible_char_def list_all_iff)

section \<open>Hexadecimal text\<close>

definition hex_alphabet :: string where
  "hex_alphabet = ''0123456789abcdef''"

definition hex_digit :: "nat \<Rightarrow> char" where
  "hex_digit n = hex_alphabet ! n"

definition hex_EncodeToString :: "bytes \<Rightarrow> string" where
  "hex_EncodeToString bs = concat (map (\<lambda>b. [hex_digit (unat b div 16), hex_digit (unat b mod 16)]) bs)"

lemma length_hex [simp]: "length (hex_EncodeToString bs) = 2 * length bs"
  by (induction bs) (simp_all add: hex_EncodeToString_def)

lemma hex_digit_mem:
  assumes "n < 16"
  shows "hex_digit n \<in> set hex_alphabet"
proof -
  have "n < length hex_alphabet" using assms by (simp add: hex_alphabet_def)
  then show ?thesis unfolding hex_digit_def by (rule nth_mem)
qed

lemma hex_digit_inject: "m < 16 \<Longrightarrow> n < 16 \<Longrightarrow> hex_digit m = hex_digit n \<longleftrightarrow> m = n"
proof -
  assume "m < 16" "n < 16"
  moreover have "distinct hex_alphabet" by code_simp
  ultimately show ?thesis unfolding hex_digit_def by (subst nth_eq_iff_index_eq) (simp_all add: hex_alphabet_def)
qed

lemma byte_nibbles: "unat (b :: byte) div 16 < 16" "unat b mod 16 < 16"
  using unsigned_less [of b, where ?'a = nat] by auto

lemma set_hex: "set (hex_EncodeToString bs) \<subseteq> set hex_alphabet"
  using hex_digit_mem byte_nibbles by (auto simp: hex_EncodeToString_def)

lemma hex_EncodeToString_inject [simp]: "hex_EncodeToString a = hex_EncodeToString b \<longleftrightarrow> a = b"
proof (induction a arbitrary: b)
  case Nil
  show ?case by (cases b) (simp_all add: hex_EncodeToString_def)
next
  case (Cons x a)
  show ?case
  proof (cases b)
    case Nil
    then show ?thesis by (simp add: hex_EncodeToString_def)
  next
    case b: (Cons y c)
    have "unat x div 16 = unat y div 16 \<and> unat x mod 16 = unat y mod 16 \<longleftrightarrow> x = y"
      by (metis div_mult_mod_eq word_unat_eq_iff)
    then show ?thesis
      using Cons.IH [of c] b byte_nibbles
      by (auto simp: hex_EncodeToString_def hex_digit_inject)
  qed
qed

section \<open>Fields separated by NUL\<close>

lemma nul_split:
  "a @ CHR 0x00 # b = c @ CHR 0x00 # d \<Longrightarrow> CHR 0x00 \<notin> set a \<Longrightarrow> CHR 0x00 \<notin> set c \<Longrightarrow>
   a = c \<and> b = d"
proof (induction a arbitrary: c)
  case Nil
  then show ?case by (cases c) auto
next
  case (Cons x a)
  then show ?case by (cases c) auto
qed

end
