(* ===== verification/Go_Time.thy ===== *)
theory Go_Time
  imports Prelude
begin

text \<open>
  Instants and durations of Go's \<open>time\<close> package, in nanoseconds. An instant counts from the
  package's own epoch (1 January of year 1), so that the zero \<open>time.Time\<close> is 0;
  \<open>unix_seconds\<close> is \<open>uint64(t.Unix())\<close> and \<open>time_of_unix\<close> is \<open>time.Unix(int64(s), 0)\<close>, whose
  addition of the epoch difference wraps at 64 bits.
\<close>

type_synonym go_time = int
type_synonym duration = int

definition Nanosecond :: duration where "Nanosecond = 1"
definition Millisecond :: duration where "Millisecond = 1000000"
definition Second :: duration where "Second = 1000000000"
definition Minute :: duration where "Minute = 60 * Second"

definition unix_to_internal :: u64 where
  "unix_to_internal = 62135596800"

definition IsZero :: "go_time \<Rightarrow> bool" where
  "IsZero t \<longleftrightarrow> t = 0"

definition unix_seconds :: "go_time \<Rightarrow> u64" where
  "unix_seconds t = word_of_int (t div Second) - unix_to_internal"

definition time_of_unix :: "u64 \<Rightarrow> go_time" where
  "time_of_unix s = sint (s + unix_to_internal) * Second"

definition unix_millis :: "go_time \<Rightarrow> int" where
  "unix_millis t = t div Millisecond - 62135596800000"

definition time_of_millis :: "int \<Rightarrow> go_time" where
  "time_of_millis ms = (ms + 62135596800000) * Millisecond"

text \<open>The instants whose seconds fit the representation: about 292 billion years around year 1.\<close>

definition representable :: "go_time \<Rightarrow> bool" where
  "representable t \<longleftrightarrow> - (2 ^ 63) \<le> t div Second \<and> t div Second < 2 ^ 63"

lemma time_of_unix_seconds:
  assumes "representable t"
  shows "time_of_unix (unix_seconds t) = t div Second * Second"
proof -
  have "sint (word_of_int (t div Second) :: u64) = signed_take_bit 63 (t div Second)"
    by (simp add: signed_of_int)
  moreover have "signed_take_bit 63 (t div Second) = t div Second"
    using assms by (simp add: representable_def signed_take_bit_int_eq_self)
  ultimately show ?thesis by (simp add: time_of_unix_def unix_seconds_def)
qed

lemma time_of_unix_bounds:
  assumes "representable t"
  shows "t - Second < time_of_unix (unix_seconds t)" and "time_of_unix (unix_seconds t) \<le> t"
proof -
  have "t mod Second < Second" "0 \<le> t mod Second" by (simp_all add: Second_def)
  moreover have "t div Second * Second = t - t mod Second" by (simp add: minus_mod_eq_div_mult)
  ultimately show "t - Second < time_of_unix (unix_seconds t)" "time_of_unix (unix_seconds t) \<le> t"
    by (simp_all add: time_of_unix_seconds [OF assms])
qed

end
