(* ===== verification/Libraries.thy ===== *)
theory Libraries
  imports Go_Text Go_Time
begin

text \<open>
  The packages the program calls and does not contain, as parameters: records of functions
  that the definitions take as arguments. What the program relies on is a predicate per
  record, a hypothesis of the theorems that need it.

  \<open>libp2p\<close> stands for go-libp2p's peer identifiers and go-multiaddr, \<open>cryptography\<close> for HKDF,
  HMAC and AES-GCM, \<open>cbor\<close> for fxamacker/cbor with its canonical encoder and strict decoder.
  A Go map with integer keys is the association list of its entries.
\<close>

section \<open>Peer identifiers and addresses\<close>

type_synonym peer_id = string
type_synonym multiaddr = string

record libp2p =
  peer_String :: "peer_id \<Rightarrow> string"
  peer_Decode :: "string \<Rightarrow> peer_id option"
  ma_String :: "multiaddr \<Rightarrow> string"
  NewMultiaddr :: "string \<Rightarrow> multiaddr option"
  AddrInfoFromP2pAddr :: "multiaddr \<Rightarrow> (peer_id \<times> multiaddr list) option"

definition ascii :: "string \<Rightarrow> bool" where
  "ascii s \<longleftrightarrow> list_all (\<lambda>c. (of_char c :: nat) < 128) s"

text \<open>Printing and parsing are inverse, and a printed identifier is base58: no NUL, plain ASCII.\<close>

definition libp2p_ok :: "libp2p \<Rightarrow> bool" where
  "libp2p_ok lp \<longleftrightarrow>
     (\<forall>p q. peer_Decode lp (peer_String lp p) = Some q \<longrightarrow> q = p) \<and>
     (\<forall>p. ascii (peer_String lp p) \<and> CHR 0x00 \<notin> set (peer_String lp p)) \<and>
     (\<forall>a. NewMultiaddr lp (ma_String lp a) = Some a)"

lemma libp2p_okD:
  assumes "libp2p_ok lp"
  shows "peer_Decode lp (peer_String lp p) = Some q \<Longrightarrow> q = p"
    and "ascii (peer_String lp p)" and "CHR 0x00 \<notin> set (peer_String lp p)"
    and "NewMultiaddr lp (ma_String lp a) = Some a"
  using assms by (auto simp: libp2p_ok_def)

lemma ma_String_inject:
  assumes "libp2p_ok lp"
  shows "ma_String lp a = ma_String lp b \<longleftrightarrow> a = b"
  using libp2p_okD(4) [OF assms] by (metis option.inject)

section \<open>Cryptography\<close>

record cryptography =
  hkdf_sha256 :: "bytes \<Rightarrow> bytes \<Rightarrow> bytes \<Rightarrow> nat \<Rightarrow> bytes option"
  hmac_sha256 :: "bytes \<Rightarrow> bytes \<Rightarrow> bytes"
  sum_sha256 :: "bytes \<Rightarrow> bytes"
  gcm_Seal :: "bytes \<Rightarrow> bytes \<Rightarrow> bytes \<Rightarrow> bytes \<Rightarrow> bytes"
  gcm_Open :: "bytes \<Rightarrow> bytes \<Rightarrow> bytes \<Rightarrow> bytes \<Rightarrow> bytes option"

text \<open>Sizes of the outputs; HKDF-SHA256 yields up to 255 blocks of 32 bytes.\<close>

definition hash_sizes :: "cryptography \<Rightarrow> bool" where
  "hash_sizes cr \<longleftrightarrow>
     (\<forall>key message. length (hmac_sha256 cr key message) = 32) \<and>
     (\<forall>message. length (sum_sha256 cr message) = 32) \<and>
     (\<forall>secret salt info n. n \<le> 255 * 32 \<longrightarrow>
        (\<exists>key. hkdf_sha256 cr secret salt info n = Some key \<and> length key = n))"

lemma hash_sizesD:
  assumes "hash_sizes cr"
  shows "length (hmac_sha256 cr key message) = 32" and "length (sum_sha256 cr message) = 32"
    and "\<exists>key. hkdf_sha256 cr secret salt info 32 = Some key \<and> length key = 32"
  using assms by (auto simp: hash_sizes_def)

text \<open>AES-GCM with a 16-byte tag opens what it sealed under the same key, nonce and data.\<close>

definition gcm_ok :: "cryptography \<Rightarrow> bool" where
  "gcm_ok cr \<longleftrightarrow>
     (\<forall>key nonce text data. length nonce = 12 \<longrightarrow>
        length (gcm_Seal cr key nonce text data) = length text + 16 \<and>
        gcm_Open cr key nonce (gcm_Seal cr key nonce text data) data = Some text)"

text \<open>\<open>copy(result[:], value)\<close> into a fresh array of \<open>n\<close> zero bytes.\<close>

definition array_of :: "nat \<Rightarrow> bytes \<Rightarrow> bytes" where
  "array_of n value = take n (value @ replicate n 0)"

lemma length_array_of [simp]: "length (array_of n value) = n"
  by (simp add: array_of_def)

lemma array_of_id [simp]: "length value = n \<Longrightarrow> array_of n value = value"
  by (simp add: array_of_def)

section \<open>CBOR\<close>

datatype cbor_value =
    CUint u64
  | CInt int
  | CText string
  | CBytes bytes
  | CTexts "string list"
  | CUints "u64 list"
  | COther bytes

type_synonym cbor_map = "(u64 \<times> cbor_value) list"

record cbor =
  Marshal :: "cbor_map \<Rightarrow> bytes option"
  UnmarshalMap :: "bytes \<Rightarrow> (u64 \<times> bytes) list option"
  UnmarshalAny :: "bytes \<Rightarrow> cbor_map option"
  UnmarshalUint :: "bytes \<Rightarrow> u64 option"
  UnmarshalText :: "bytes \<Rightarrow> string option"
  UnmarshalBytes :: "bytes \<Rightarrow> bytes option"
  UnmarshalTexts :: "bytes \<Rightarrow> string list option"
  UnmarshalUints :: "bytes \<Rightarrow> u64 list option"

fun decodes_to :: "cbor \<Rightarrow> bytes \<Rightarrow> cbor_value \<Rightarrow> bool" where
  "decodes_to cb raw (CUint n) \<longleftrightarrow> UnmarshalUint cb raw = Some n"
| "decodes_to cb raw (CText s) \<longleftrightarrow> (ascii s \<longrightarrow> UnmarshalText cb raw = Some s)"
| "decodes_to cb raw (CBytes bs) \<longleftrightarrow> UnmarshalBytes cb raw = Some bs"
| "decodes_to cb raw (CTexts ss) \<longleftrightarrow>
     (list_all ascii ss \<and> length ss \<le> 64 \<longrightarrow> UnmarshalTexts cb raw = Some ss)"
| "decodes_to cb raw (CUints ns) \<longleftrightarrow> (length ns \<le> 64 \<longrightarrow> UnmarshalUints cb raw = Some ns)"
| "decodes_to cb raw _ \<longleftrightarrow> True"

text \<open>
  The strict decoder reads what the canonical encoder wrote: the same keys, each with a raw
  item that decodes to its value, within the decoder's limits on map pairs and array elements
  and for ASCII text.
\<close>

definition cbor_ok :: "cbor \<Rightarrow> bool" where
  "cbor_ok cb \<longleftrightarrow>
     (\<forall>m bs. distinct (map fst m) \<longrightarrow> length m \<le> 16 \<longrightarrow> Marshal cb m = Some bs \<longrightarrow>
        bs \<noteq> [] \<and>
        (\<exists>raw. UnmarshalMap cb bs = Some raw \<and> map fst raw = map fst m \<and>
           list_all2 (decodes_to cb) (map snd raw) (map snd m)))"

lemma cbor_okE:
  assumes "cbor_ok cb" and "Marshal cb m = Some bs" and "distinct (map fst m)" and "length m \<le> 16"
  obtains raw where "bs \<noteq> []" and "UnmarshalMap cb bs = Some raw" and "map fst raw = map fst m"
    and "\<And>k v. map_of m k = Some v \<Longrightarrow> \<exists>r. map_of raw k = Some r \<and> decodes_to cb r v"
    and "\<And>k. map_of m k = None \<Longrightarrow> map_of raw k = None"
proof -
  obtain raw where bs: "bs \<noteq> []" and raw: "UnmarshalMap cb bs = Some raw" "map fst raw = map fst m"
    and dec: "list_all2 (decodes_to cb) (map snd raw) (map snd m)"
    using assms unfolding cbor_ok_def by blast
  have len: "length raw = length m" using raw(2) by (metis length_map)
  have 1: "\<exists>r. map_of raw k = Some r \<and> decodes_to cb r v" if m: "map_of m k = Some v" for k v
  proof -
    obtain i where i: "i < length m" "m ! i = (k, v)"
      using map_of_SomeD [OF m] by (auto simp: in_set_conv_nth)
    have "map fst raw ! i = map fst m ! i" using raw(2) by simp
    then have "raw ! i = (k, snd (raw ! i))" using i len by (simp add: prod_eq_iff)
    moreover have "raw ! i \<in> set raw" using i len by simp
    moreover have "distinct (map fst raw)" using assms(3) raw(2) by simp
    ultimately have "map_of raw k = Some (snd (raw ! i))" by (metis map_of_is_SomeI)
    moreover have "decodes_to cb (snd (raw ! i)) v"
      using list_all2_nthD2 [OF dec, of i] i len by simp
    ultimately show ?thesis by blast
  qed
  have 2: "map_of raw k = None" if "map_of m k = None" for k
  proof -
    have "k \<notin> set (map fst raw)" using that raw(2) by (simp add: map_of_eq_None_iff)
    then show ?thesis by (simp add: map_of_eq_None_iff)
  qed
  show ?thesis using that [OF bs raw] 1 2 by blast
qed

end
