(* ===== verification/Sample_Libraries.thy ===== *)
theory Sample_Libraries
  imports Libraries
begin

text \<open>
  Concrete functions for the parameters of \<open>Libraries\<close>. They stand for no real package: they
  show that the hypotheses on the packages can hold, and are what the witnesses of theorems
  with such hypotheses evaluate.
\<close>

section \<open>Peer identifiers and addresses\<close>

fun letters :: "string \<Rightarrow> string" where
  "letters [] = []"
| "letters (c # cs) =
     char_of ((of_char c :: nat) div 16 + 97) # char_of ((of_char c :: nat) mod 16 + 97) # letters cs"

fun unletters :: "string \<Rightarrow> string" where
  "unletters (a # b # cs) = char_of (((of_char a :: nat) - 97) * 16 + (of_char b - 97)) # unletters cs"
| "unletters cs = []"

lemma char_less_256: "(of_char c :: nat) < 256"
  using of_char_of [of "of_char c :: nat"] by (metis mod_less_divisor zero_less_numeral of_char_mod_256)

lemma unletters_letters: "unletters (letters s) = s"
proof (induction s)
  case (Cons c s)
  have "(of_char c :: nat) div 16 < 16" "(of_char c :: nat) mod 16 < 16"
    using char_less_256 [of c] by (simp_all add: less_mult_imp_div_less)
  then have "(of_char c :: nat) div 16 + 97 < 256" "(of_char c :: nat) mod 16 + 97 < 256" by linarith+
  then show ?case using Cons by (simp add: of_char_of)
qed simp

lemma set_letters: "c \<in> set (letters s) \<Longrightarrow> 97 \<le> (of_char c :: nat) \<and> (of_char c :: nat) < 113"
proof (induction s)
  case (Cons x s)
  have "(of_char x :: nat) div 16 < 16" "(of_char x :: nat) mod 16 < 16"
    using char_less_256 [of x] by (simp_all add: less_mult_imp_div_less)
  with Cons show ?case by (auto simp: of_char_of)
qed simp

definition sample_libp2p :: libp2p where
  "sample_libp2p =
     \<lparr>peer_String = letters, peer_Decode = \<lambda>s. Some (unletters s),
      ma_String = \<lambda>a. a, NewMultiaddr = \<lambda>s. Some s,
      AddrInfoFromP2pAddr = \<lambda>a. Some (a, [])\<rparr>"

lemma sample_libp2p_ok [simp]: "libp2p_ok sample_libp2p"
proof -
  have "ascii (letters p) \<and> CHR 0x00 \<notin> set (letters p)" for p
    using set_letters [of _ p] by (fastforce simp: ascii_def list_all_iff)
  then show ?thesis by (simp add: libp2p_ok_def sample_libp2p_def unletters_letters)
qed

section \<open>Cryptography\<close>

definition sample_tag :: "bytes \<Rightarrow> bytes \<Rightarrow> bytes \<Rightarrow> bytes" where
  "sample_tag key nonce data = array_of 16 (key @ nonce @ data)"

definition sample_cryptography :: cryptography where
  "sample_cryptography =
     \<lparr>hkdf_sha256 = \<lambda>secret salt info n. Some (array_of n (secret @ salt @ info)),
      hmac_sha256 = \<lambda>key message. array_of 32 (drop 24 key @ rev message),
      sum_sha256 = \<lambda>message. array_of 32 message,
      gcm_Seal = \<lambda>key nonce text data. text @ sample_tag key nonce data,
      gcm_Open = \<lambda>key nonce sealed data.
        if length sealed < 16 \<or> drop (length sealed - 16) sealed \<noteq> sample_tag key nonce data then None
        else Some (take (length sealed - 16) sealed)\<rparr>"

lemma sample_hash_sizes [simp]: "hash_sizes sample_cryptography"
  by (simp add: hash_sizes_def sample_cryptography_def)

lemma sample_gcm_ok [simp]: "gcm_ok sample_cryptography"
  by (simp add: gcm_ok_def sample_cryptography_def sample_tag_def)

section \<open>CBOR\<close>

definition blob :: "bytes \<Rightarrow> bytes" where
  "blob bs = put_uint64 (word_of_nat (length bs)) @ bs"

definition unblob :: "bytes \<Rightarrow> (bytes \<times> bytes) option" where
  "unblob bs =
     (let n = unat (get_uint64 (take 8 bs)); rest = drop 8 bs
      in if length bs < 8 \<or> length rest < n then None else Some (take n rest, drop n rest))"

lemma unblob_blob [simp]: "length bs < 2 ^ 64 \<Longrightarrow> unblob (blob bs @ rest) = Some (bs, rest)"
  by (simp add: unblob_def blob_def be64.width_enc be64.dec_enc unat_of_nat)

function unblobs :: "bytes \<Rightarrow> bytes list option" where
  "unblobs bs =
     (if bs = [] then Some []
      else case unblob bs of
             None \<Rightarrow> None
           | Some (b, rest) \<Rightarrow> map_option (Cons b) (unblobs rest))"
  by pat_completeness auto
termination
  by (relation "measure length") (auto simp: unblob_def Let_def split: if_splits)

declare unblobs.simps [simp del]

lemma unblobs_blobs: "list_all (\<lambda>b. length b < 2 ^ 64) bs \<Longrightarrow> unblobs (concat (map blob bs)) = Some bs"
proof (induction bs)
  case Nil
  show ?case by (simp add: unblobs.simps [of "[]"])
next
  case (Cons b bs)
  have "blob b @ concat (map blob bs) \<noteq> []" by (simp add: blob_def put_uint64_def be_put_def)
  with Cons show ?case by (subst unblobs.simps) simp
qed

fun sample_raw :: "cbor_value \<Rightarrow> bytes" where
  "sample_raw (CUint n) = 0 # put_uint64 n"
| "sample_raw (CInt i) = 0 # put_uint64 (word_of_int i)"
| "sample_raw (CText s) = 1 # string_bytes s"
| "sample_raw (CBytes bs) = 2 # bs"
| "sample_raw (CTexts ss) = 3 # concat (map (\<lambda>s. blob (string_bytes s)) ss)"
| "sample_raw (CUints ns) = 4 # concat (map (\<lambda>n. blob (put_uint64 n)) ns)"
| "sample_raw (COther bs) = 5 # bs"

fun sample_value :: "bytes \<Rightarrow> cbor_value option" where
  "sample_value [] = None"
| "sample_value (tag # bs) =
     (if tag = 0 then if length bs = 8 then Some (CUint (get_uint64 bs)) else None
      else if tag = 1 then Some (CText (bytes_string bs))
      else if tag = 2 then Some (CBytes bs)
      else if tag = 3 then map_option (\<lambda>ss. CTexts (map bytes_string ss)) (unblobs bs)
      else if tag = 4 then map_option (\<lambda>ns. CUints (map get_uint64 ns)) (unblobs bs)
      else if tag = 5 then Some (COther bs)
      else None)"

fun sample_size_ok :: "cbor_value \<Rightarrow> bool" where
  "sample_size_ok (CText s) \<longleftrightarrow> length s < 2 ^ 63"
| "sample_size_ok (CBytes bs) \<longleftrightarrow> length bs < 2 ^ 63"
| "sample_size_ok v \<longleftrightarrow>
     (case v of CTexts ss \<Rightarrow> list_all (\<lambda>s. length s < 2 ^ 63) ss | _ \<Rightarrow> True) \<and> length (sample_raw v) < 2 ^ 64"

lemma sample_value_raw:
  assumes "sample_size_ok v" and "\<And>i. v \<noteq> CInt i"
  shows "sample_value (sample_raw v) = Some v"
proof (cases v)
  case (CTexts ss)
  have "unblobs (concat (map blob (map string_bytes ss))) = Some (map string_bytes ss)"
    by (rule unblobs_blobs) (use assms(1) CTexts in \<open>auto simp: list_all_iff\<close>)
  with CTexts show ?thesis by (simp add: comp_def)
next
  case (CUints ns)
  have "unblobs (concat (map blob (map put_uint64 ns))) = Some (map put_uint64 ns)"
    by (rule unblobs_blobs) (simp add: list_all_iff be64.width_enc)
  with CUints show ?thesis by (simp add: comp_def be64.dec_enc)
qed (use assms in \<open>simp_all add: be64.dec_enc be64.width_enc\<close>)

lemma sample_raw_length: "sample_size_ok v \<Longrightarrow> length (sample_raw v) < 2 ^ 64"
  by (cases v) simp_all

definition sample_Marshal :: "cbor_map \<Rightarrow> bytes option" where
  "sample_Marshal m =
     (if list_all (\<lambda>(k, v). sample_size_ok v) m
      then Some (160 # concat (map (\<lambda>(k, v). blob (put_uint64 k) @ blob (sample_raw v)) m))
      else None)"

fun pairs :: "bytes list \<Rightarrow> (u64 \<times> bytes) list option" where
  "pairs [] = Some []"
| "pairs [b] = None"
| "pairs (k # v # bs) = map_option (Cons (get_uint64 k, v)) (pairs bs)"

definition sample_UnmarshalMap :: "bytes \<Rightarrow> (u64 \<times> bytes) list option" where
  "sample_UnmarshalMap bs =
     (case bs of
        [] \<Rightarrow> None
      | tag # rest \<Rightarrow> if tag \<noteq> 160 then None else (case unblobs rest of None \<Rightarrow> None | Some items \<Rightarrow> pairs items))"

lemma sample_UnmarshalMap_Marshal:
  assumes "sample_Marshal m = Some bs"
  shows "sample_UnmarshalMap bs = Some (map (\<lambda>(k, v). (k, sample_raw v)) m)"
proof -
  let ?items = "concat (map (\<lambda>(k, v). [put_uint64 k, sample_raw v]) m)"
  have ok: "list_all (\<lambda>(k, v). sample_size_ok v) m"
    and bs: "bs = 160 # concat (map (\<lambda>(k, v). blob (put_uint64 k) @ blob (sample_raw v)) m)"
    using assms by (auto simp: sample_Marshal_def split: if_splits)
  have "concat (map (\<lambda>(k, v). blob (put_uint64 k) @ blob (sample_raw v)) m) = concat (map blob ?items)"
    by (induction m) auto
  moreover have "unblobs (concat (map blob ?items)) = Some ?items"
    by (rule unblobs_blobs) (use ok sample_raw_length in \<open>fastforce simp: list_all_iff be64.width_enc\<close>)
  moreover have "pairs ?items = Some (map (\<lambda>(k, v). (k, sample_raw v)) m)"
    by (induction m) (auto simp: be64.dec_enc)
  ultimately show ?thesis by (simp add: sample_UnmarshalMap_def bs)
qed

text \<open>Integers decoded into an \<open>any\<close> come back signed.\<close>

fun signed_value :: "cbor_value \<Rightarrow> cbor_value" where
  "signed_value (CUint n) = CInt (uint n)"
| "signed_value v = v"

definition sample_cbor :: cbor where
  "sample_cbor =
     \<lparr>Marshal = sample_Marshal,
      UnmarshalMap = sample_UnmarshalMap,
      UnmarshalAny = \<lambda>bs. Option.bind (sample_UnmarshalMap bs)
        (\<lambda>raw. those (map (\<lambda>(k, r). map_option (\<lambda>v. (k, signed_value v)) (sample_value r)) raw)),
      UnmarshalUint = \<lambda>bs. case sample_value bs of Some (CUint n) \<Rightarrow> Some n | _ \<Rightarrow> None,
      UnmarshalText = \<lambda>bs. case sample_value bs of Some (CText s) \<Rightarrow> Some s | _ \<Rightarrow> None,
      UnmarshalBytes = \<lambda>bs. case sample_value bs of Some (CBytes b) \<Rightarrow> Some b | _ \<Rightarrow> None,
      UnmarshalTexts = \<lambda>bs. case sample_value bs of Some (CTexts ss) \<Rightarrow> Some ss | _ \<Rightarrow> None,
      UnmarshalUints = \<lambda>bs. case sample_value bs of Some (CUints ns) \<Rightarrow> Some ns | _ \<Rightarrow> None\<rparr>"

lemma sample_decodes_to:
  assumes "sample_size_ok v"
  shows "decodes_to sample_cbor (sample_raw v) v"
proof (cases "\<exists>i. v = CInt i")
  case False
  then have "sample_value (sample_raw v) = Some v" using sample_value_raw [OF assms] by blast
  then show ?thesis by (cases v) (simp_all add: sample_cbor_def del: sample_raw.simps sample_value.simps)
qed auto

lemma sample_cbor_ok [simp]: "cbor_ok sample_cbor"
proof -
  have "bs \<noteq> [] \<and> (\<exists>raw. UnmarshalMap sample_cbor bs = Some raw \<and> map fst raw = map fst m \<and>
      list_all2 (decodes_to sample_cbor) (map snd raw) (map snd m))"
    if "Marshal sample_cbor m = Some bs" for m bs
  proof -
    have M: "sample_Marshal m = Some bs" using that by (simp add: sample_cbor_def)
    have "UnmarshalMap sample_cbor bs = Some (map (\<lambda>(k, v). (k, sample_raw v)) m)"
      using sample_UnmarshalMap_Marshal [OF M] by (simp add: sample_cbor_def)
    moreover have "list_all2 (decodes_to sample_cbor) (map (\<lambda>(k, v). sample_raw v) m) (map snd m)"
      using M sample_decodes_to
      by (auto simp: sample_Marshal_def list_all2_conv_all_nth list_all_length case_prod_unfold split: if_splits)
    moreover have "bs \<noteq> []" using M by (auto simp: sample_Marshal_def split: if_splits)
    ultimately show ?thesis by (auto simp: comp_def case_prod_unfold)
  qed
  then show ?thesis unfolding cbor_ok_def by blast
qed

end
