(* ===== verification/Base64.thy ===== *)
theory Base64
  imports Prelude
begin

text \<open>
  \<open>base64.RawURLEncoding\<close> of the Go standard library, as the tokens, envelopes and signaling
  messages use it: \<open>EncodeToString\<close> and the \<open>Strict\<close> \<open>DecodeString\<close>. The decoder skips
  carriage returns and line feeds anywhere, rejects every other character outside the
  alphabet, a single left-over character, and non-zero padding bits.

  \<open>base64_canonical\<close> makes the consequence precise: a text is the encoding of what it decodes
  to, up to the skipped line breaks.
\<close>

definition alphabet :: string where
  "alphabet = ''ABCDEFGHIJKLMNOPQRSTUVWXYZabcdefghijklmnopqrstuvwxyz0123456789-_''"

definition b64_char :: "6 word \<Rightarrow> char" where
  "b64_char s = alphabet ! unat s"

definition b64_value :: "char \<Rightarrow> 6 word option" where
  "b64_value c = map_of (zip alphabet (map word_of_nat [0..<64])) c"

fun sextets :: "bytes \<Rightarrow> 6 word list" where
  "sextets [] = []"
| "sextets [a] = [ucast (drop_bit 2 a), ucast (push_bit 4 a)]"
| "sextets [a, b] = [ucast (drop_bit 2 a), ucast (push_bit 4 a OR drop_bit 4 b), ucast (push_bit 2 b)]"
| "sextets (a # b # c # rest) =
     ucast (drop_bit 2 a) # ucast (push_bit 4 a OR drop_bit 4 b) #
     ucast (push_bit 2 b OR drop_bit 6 c) # ucast c # sextets rest"

definition byte0 :: "6 word \<Rightarrow> 6 word \<Rightarrow> byte" where
  "byte0 s0 s1 = push_bit 2 (ucast s0) OR drop_bit 4 (ucast s1)"

definition byte1 :: "6 word \<Rightarrow> 6 word \<Rightarrow> byte" where
  "byte1 s1 s2 = push_bit 4 (ucast s1) OR drop_bit 2 (ucast s2)"

definition byte2 :: "6 word \<Rightarrow> 6 word \<Rightarrow> byte" where
  "byte2 s2 s3 = push_bit 6 (ucast s2) OR ucast s3"

fun unsextets :: "6 word list \<Rightarrow> bytes option" where
  "unsextets [] = Some []"
| "unsextets [s0] = None"
| "unsextets [s0, s1] = (if byte1 s1 0 \<noteq> 0 then None else Some [byte0 s0 s1])"
| "unsextets [s0, s1, s2] = (if byte2 s2 0 \<noteq> 0 then None else Some [byte0 s0 s1, byte1 s1 s2])"
| "unsextets (s0 # s1 # s2 # s3 # rest) =
     map_option (\<lambda>bs. byte0 s0 s1 # byte1 s1 s2 # byte2 s2 s3 # bs) (unsextets rest)"

definition not_line_break :: "char \<Rightarrow> bool" where
  "not_line_break c \<longleftrightarrow> c \<noteq> CHR 0x0D \<and> c \<noteq> CHR 0x0A"

definition EncodeToString :: "bytes \<Rightarrow> string" where
  "EncodeToString bs = map b64_char (sextets bs)"

definition DecodeString :: "string \<Rightarrow> bytes option" where
  "DecodeString text =
     (case those (map b64_value (filter not_line_break text)) of
        None \<Rightarrow> None
      | Some ss \<Rightarrow> unsextets ss)"

section \<open>The alphabet\<close>

lemma length_alphabet [simp]: "length alphabet = 64"
  by (simp add: alphabet_def)

lemma distinct_alphabet [simp]: "distinct alphabet"
  by code_simp

lemma alphabet_not_line_break: "c \<in> set alphabet \<Longrightarrow> not_line_break c"
proof -
  have "list_all not_line_break alphabet" by code_simp
  then show "c \<in> set alphabet \<Longrightarrow> not_line_break c" by (simp add: list_all_iff)
qed

lemma unat_sextet: "unat (s :: 6 word) < 64"
  using unsigned_less [of s] by simp

lemma b64_value_char [simp]: "b64_value (b64_char s) = Some s"
  using map_of_zip_nth [of alphabet "map word_of_nat [0..<64] :: 6 word list" "unat s"] unat_sextet [of s]
  by (simp add: b64_value_def b64_char_def ucast_id)

lemma b64_char_value: "b64_value c = Some s \<Longrightarrow> b64_char s = c"
proof -
  assume "b64_value c = Some s"
  then have "(c, s) \<in> set (zip alphabet (map word_of_nat [0..<64]))"
    unfolding b64_value_def by (rule map_of_SomeD)
  then obtain i where "i < 64" "c = alphabet ! i" "s = word_of_nat i"
    by (auto simp: in_set_zip)
  then show ?thesis by (simp add: b64_char_def unat_of_nat)
qed

lemma b64_char_alphabet: "b64_char s \<in> set alphabet"
  using unat_sextet [of s] by (simp add: b64_char_def)

lemma b64_char_not_line_break [simp]: "not_line_break (b64_char s)"
  using b64_char_alphabet alphabet_not_line_break by blast

lemma those_b64_char [simp]: "those (map (b64_value \<circ> b64_char) ss) = Some ss"
  by (induction ss) auto

lemma those_b64_value: "those (map b64_value cs) = Some ss \<Longrightarrow> cs = map b64_char ss"
  by (induction cs arbitrary: ss) (auto split: option.splits simp: b64_char_value)

section \<open>Sextets\<close>

lemmas sextet_bits = bit_or_iff bit_push_bit_iff bit_drop_bit_eq bit_ucast_iff bit_unsigned_iff

lemma byte_eqI:
  fixes a b :: byte
  assumes "bit a 0 = bit b 0" "bit a 1 = bit b 1" "bit a 2 = bit b 2" "bit a 3 = bit b 3"
    "bit a 4 = bit b 4" "bit a 5 = bit b 5" "bit a 6 = bit b 6" "bit a 7 = bit b 7"
  shows "a = b"
proof (rule bit_word_eqI)
  fix n assume "n < LENGTH(8)"
  then consider "n = 0" | "n = 1" | "n = 2" | "n = 3" | "n = 4" | "n = 5" | "n = 6" | "n = 7"
    by fastforce
  then show "bit a n = bit b n" using assms by cases simp_all
qed

lemma sextet_eqI:
  fixes a b :: "6 word"
  assumes "bit a 0 = bit b 0" "bit a 1 = bit b 1" "bit a 2 = bit b 2" "bit a 3 = bit b 3"
    "bit a 4 = bit b 4" "bit a 5 = bit b 5"
  shows "a = b"
proof (rule bit_word_eqI)
  fix n assume "n < LENGTH(6)"
  then consider "n = 0" | "n = 1" | "n = 2" | "n = 3" | "n = 4" | "n = 5" by fastforce
  then show "bit a n = bit b n" using assms by cases simp_all
qed

lemma byte_bit_8: "\<not> bit (b :: byte) n" if "8 \<le> n"
  using that bit_imp_le_length [of b n] by auto

lemma sextet_bit_6: "\<not> bit (s :: 6 word) n" if "6 \<le> n"
  using that bit_imp_le_length [of s n] by auto

lemma byte0_sextets [simp]: "byte0 (ucast (drop_bit 2 a)) (ucast (push_bit 4 a OR drop_bit 4 b)) = a"
  by (rule byte_eqI; simp add: byte0_def sextet_bits byte_bit_8; simp add: numeral_2_eq_2 numeral_3_eq_3)

lemma byte0_sextets_last [simp]: "byte0 (ucast (drop_bit 2 a)) (ucast (push_bit 4 a)) = a"
  by (rule byte_eqI; simp add: byte0_def sextet_bits byte_bit_8; simp add: numeral_2_eq_2 numeral_3_eq_3)

lemma byte1_sextets [simp]:
  "byte1 (ucast (push_bit 4 a OR drop_bit 4 b)) (ucast (push_bit 2 b OR drop_bit 6 c)) = b"
  by (rule byte_eqI; simp add: byte1_def sextet_bits byte_bit_8; simp add: numeral_2_eq_2 numeral_3_eq_3)

lemma byte1_sextets_last [simp]:
  "byte1 (ucast (push_bit 4 a OR drop_bit 4 b)) (ucast (push_bit 2 b)) = b"
  by (rule byte_eqI; simp add: byte1_def sextet_bits byte_bit_8; simp add: numeral_2_eq_2 numeral_3_eq_3)

lemma byte1_padding [simp]: "byte1 (ucast (push_bit 4 (a :: byte))) 0 = 0"
  by (rule byte_eqI; simp add: byte1_def sextet_bits; simp add: numeral_2_eq_2 numeral_3_eq_3)

lemma byte2_sextets [simp]: "byte2 (ucast (push_bit 2 b OR drop_bit 6 c)) (ucast c) = c"
  by (rule byte_eqI; simp add: byte2_def sextet_bits byte_bit_8; simp add: numeral_2_eq_2 numeral_3_eq_3)

lemma byte2_padding [simp]: "byte2 (ucast (push_bit 2 (b :: byte))) 0 = 0"
  by (rule byte_eqI; simp add: byte2_def sextet_bits; simp add: numeral_2_eq_2 numeral_3_eq_3)

lemma unsextets_sextets [simp]: "unsextets (sextets bs) = Some bs"
  by (induction bs rule: sextets.induct) simp_all

lemma sextets_bytes:
  "ucast (drop_bit 2 (byte0 s0 s1)) = s0"
  "ucast (push_bit 4 (byte0 s0 s1) OR drop_bit 4 (byte1 s1 s2)) = s1"
  "ucast (push_bit 2 (byte1 s1 s2) OR drop_bit 6 (byte2 s2 s3)) = s2"
  "ucast (byte2 s2 s3) = s3"
  by (rule sextet_eqI;
      simp add: byte0_def byte1_def byte2_def sextet_bits sextet_bit_6;
      simp add: numeral_2_eq_2 numeral_3_eq_3)+

lemma sextets_last:
  "byte1 s1 0 = 0 \<Longrightarrow> ucast (push_bit 4 (byte0 s0 s1)) = s1"
  "byte2 s2 0 = 0 \<Longrightarrow> ucast (push_bit 2 (byte1 s1 s2)) = s2"
  using sextets_bytes(2) [of s0 s1 0] sextets_bytes(3) [of s1 s2 0] by simp_all

lemma sextets_unsextets: "unsextets ss = Some bs \<Longrightarrow> sextets bs = ss"
  by (induction ss arbitrary: bs rule: unsextets.induct)
    (auto simp: sextets_bytes sextets_last split: if_splits)

section \<open>Encoding and decoding\<close>

lemma EncodeToString_no_break [simp]: "filter not_line_break (EncodeToString bs) = EncodeToString bs"
  by (simp add: EncodeToString_def filter_id_conv)

lemma DecodeString_EncodeToString [simp]: "DecodeString (EncodeToString bs) = Some bs"
  unfolding DecodeString_def EncodeToString_no_break by (simp add: EncodeToString_def)

lemma EncodeToString_inject [simp]: "EncodeToString a = EncodeToString b \<longleftrightarrow> a = b"
  by (metis DecodeString_EncodeToString option.inject)

lemma base64_canonical:
  "DecodeString text = Some bs \<longleftrightarrow> EncodeToString bs = filter not_line_break text"
proof
  assume "DecodeString text = Some bs"
  then obtain ss where "those (map b64_value (filter not_line_break text)) = Some ss" "unsextets ss = Some bs"
    by (auto simp: DecodeString_def split: option.splits)
  then show "EncodeToString bs = filter not_line_break text"
    using those_b64_value sextets_unsextets by (metis EncodeToString_def)
next
  assume "EncodeToString bs = filter not_line_break text"
  then have "DecodeString text = DecodeString (EncodeToString bs)"
    by (simp add: DecodeString_def)
  then show "DecodeString text = Some bs" by simp
qed

lemma EncodeToString_alphabet: "set (EncodeToString bs) \<subseteq> set alphabet"
  using b64_char_alphabet by (auto simp: EncodeToString_def)

lemma length_sextets: "length (sextets bs) = (4 * length bs + 2) div 3"
  by (induction bs rule: sextets.induct) auto

lemma length_EncodeToString: "length (EncodeToString bs) = (4 * length bs + 2) div 3"
  by (simp add: EncodeToString_def length_sextets)

end
