(* ===== verification/Pairing.thy ===== *)
theory Pairing
  imports Sample_Libraries Base64 "HOL-Library.List_Lexorder" "HOL-Library.Char_ord" "HOL-Library.Signed_Division"
    "HOL-Library.Multiset"
begin

text \<open>
  \<open>src/protocol/pairing/pairing.go\<close>: the bearer token that a listener and its clients share,
  its text form, the keys and rendezvous identifiers derived from its secret, and the sealed
  envelopes of the signaling payloads.

  A relay hint is an \<open>option\<close> because the slice may hold nil interfaces, and \<open>Validate\<close> takes
  an optional token because it is called on a nil pointer. Random bytes are an argument:
  \<open>rnd n\<close> is what \<open>rand.Read\<close> leaves in a buffer of \<open>n\<close> bytes, or an error.
\<close>

definition TokenPrefix :: string where "TokenPrefix = ''pnc1_''"
definition TokenVersion :: u64 where "TokenVersion = 1"
definition SecretSize :: nat where "SecretSize = 32"
definition MaxTokenSize :: nat where "MaxTokenSize = 16 * 1024"
definition MaxRelayHints :: nat where "MaxRelayHints = 16"
definition RendezvousInterval :: duration where "RendezvousInterval = 300 * Second"

record Token =
  tok_Version :: u64
  tok_PeerID :: peer_id
  tok_Service :: u16
  tok_Secret :: bytes
  tok_RelayHints :: "multiaddr option list"
  tok_ExpiresAt :: "u64 option"

datatype pairing_error =
    TokenRequired
  | UnsupportedVersion u64
  | InvalidPeerId
  | InvalidLogicalPort
  | TooManyRelayHints
  | InvalidRelayHint
  | RelayHintWithoutPeerId
  | DuplicateRelayHint
  | ZeroExpiration
  | TokenExpired u64
  | TokenEncoding
  | TokenWithoutPrefix
  | TokenBase64
  | TokenSize
  | TokenCBOR
  | UnknownField u64
  | MissingField u64
  | BadField u64
  | BadSecret
  | UnparsedRelayHint
  | TokenNotDeterministic
  | UnsupportedPurpose string
  | KeyDerivation
  | Randomness
  | BadRendezvousID
  | BadMultihash
  | BadNonce
  | EnvelopeEncoding
  | EnvelopeCBOR
  | EnvelopeFields
  | EnvelopeVersion
  | EnvelopeCiphertext
  | EnvelopeAuthentication
  | EnvelopeNotDeterministic

type_synonym random_source = "nat \<Rightarrow> bytes option"

section \<open>Validation\<close>

fun validate_hints :: "libp2p \<Rightarrow> string list \<Rightarrow> multiaddr option list \<Rightarrow> pairing_error option" where
  "validate_hints lp seen [] = None"
| "validate_hints lp seen (None # hints) = Some InvalidRelayHint"
| "validate_hints lp seen (Some hint # hints) =
     (if 2048 < length (ma_String lp hint) then Some InvalidRelayHint
      else case AddrInfoFromP2pAddr lp hint of
             None \<Rightarrow> Some RelayHintWithoutPeerId
           | Some (ident, addrs) \<Rightarrow>
               if ident = [] then Some RelayHintWithoutPeerId
               else if ma_String lp hint \<in> set seen then Some DuplicateRelayHint
               else validate_hints lp (ma_String lp hint # seen) hints)"

fun Validate :: "libp2p \<Rightarrow> Token option \<Rightarrow> go_time \<Rightarrow> pairing_error option" where
  "Validate lp None now = Some TokenRequired"
| "Validate lp (Some t) now =
     (if tok_Version t \<noteq> TokenVersion then Some (UnsupportedVersion (tok_Version t))
      else if peer_Decode lp (peer_String lp (tok_PeerID t)) = None then Some InvalidPeerId
      else if tok_Service t = 0 then Some InvalidLogicalPort
      else if MaxRelayHints < length (tok_RelayHints t) then Some TooManyRelayHints
      else case validate_hints lp [] (tok_RelayHints t) of
             Some e \<Rightarrow> Some e
           | None \<Rightarrow>
               (case tok_ExpiresAt t of
                  None \<Rightarrow> None
                | Some expires \<Rightarrow>
                    if expires = 0 then Some ZeroExpiration
                    else if \<not> IsZero now \<and> expires < unix_seconds now then Some (TokenExpired expires)
                    else None))"

definition New :: "libp2p \<Rightarrow> random_source \<Rightarrow> go_time \<Rightarrow> peer_id \<Rightarrow> u16 \<Rightarrow> multiaddr option list \<Rightarrow>
    u64 option \<Rightarrow> pairing_error + Token" where
  "New lp rnd now peerID service relayHints expiresAt =
     (if service = 0 then Inl InvalidLogicalPort
      else case rnd SecretSize of
             None \<Rightarrow> Inl Randomness
           | Some secret \<Rightarrow>
               (let token = \<lparr>tok_Version = TokenVersion, tok_PeerID = peerID, tok_Service = service,
                             tok_Secret = array_of SecretSize secret, tok_RelayHints = relayHints,
                             tok_ExpiresAt = expiresAt\<rparr>
                in case Validate lp (Some token) now of
                     Some e \<Rightarrow> Inl e
                   | None \<Rightarrow> Inr token))"

section \<open>The text form\<close>

definition hint_strings :: "libp2p \<Rightarrow> Token \<Rightarrow> string list" where
  "hint_strings lp t = map (\<lambda>hint. ma_String lp (the hint)) (tok_RelayHints t)"

definition token_fields :: "libp2p \<Rightarrow> Token \<Rightarrow> cbor_map" where
  "token_fields lp t =
     [(0, CUint (tok_Version t)),
      (1, CText (peer_String lp (tok_PeerID t))),
      (2, CUint (ucast (tok_Service t))),
      (3, CBytes (tok_Secret t)),
      (4, CTexts (sort (hint_strings lp t)))] @
     (case tok_ExpiresAt t of None \<Rightarrow> [] | Some expires \<Rightarrow> [(5, CUint expires)])"

definition Encode :: "libp2p \<Rightarrow> cbor \<Rightarrow> Token \<Rightarrow> pairing_error + string" where
  "Encode lp cb t =
     (case Validate lp (Some t) 0 of
        Some e \<Rightarrow> Inl e
      | None \<Rightarrow>
          (case Marshal cb (token_fields lp t) of
             None \<Rightarrow> Inl TokenEncoding
           | Some payload \<Rightarrow> Inr (TokenPrefix @ EncodeToString payload)))"

definition raw_field :: "(u64 \<times> bytes) list \<Rightarrow> u64 \<Rightarrow> bytes" where
  "raw_field raw k = (case map_of raw k of Some r \<Rightarrow> r | None \<Rightarrow> [])"

fun parse_hints :: "libp2p \<Rightarrow> string list \<Rightarrow> pairing_error + multiaddr option list" where
  "parse_hints lp [] = Inr []"
| "parse_hints lp (value # values) =
     (case NewMultiaddr lp value of
        None \<Rightarrow> Inl UnparsedRelayHint
      | Some hint \<Rightarrow>
          (case parse_hints lp values of
             Inl e \<Rightarrow> Inl e
           | Inr hints \<Rightarrow> Inr (Some hint # hints)))"

text \<open>\<open>Decode\<close> from the decoded map on: the typed fields, in the order the code reads them.\<close>

definition decode_fields :: "libp2p \<Rightarrow> cbor \<Rightarrow> (u64 \<times> bytes) list \<Rightarrow> pairing_error + Token" where
  "decode_fields lp cb raw =
     (case UnmarshalUint cb (raw_field raw 0) of None \<Rightarrow> Inl (BadField 0) | Some version \<Rightarrow>
     (case UnmarshalText cb (raw_field raw 1) of None \<Rightarrow> Inl (BadField 1) | Some peerText \<Rightarrow>
     (case UnmarshalUint cb (raw_field raw 2) of None \<Rightarrow> Inl InvalidLogicalPort | Some service \<Rightarrow>
      if service = 0 \<or> 65535 < service then Inl InvalidLogicalPort else
     (case UnmarshalBytes cb (raw_field raw 3) of None \<Rightarrow> Inl BadSecret | Some secret \<Rightarrow>
      if length secret \<noteq> SecretSize then Inl BadSecret else
     (case UnmarshalTexts cb (raw_field raw 4) of None \<Rightarrow> Inl (BadField 4) | Some hints \<Rightarrow>
      if MaxRelayHints < length hints then Inl TooManyRelayHints else
     (case peer_Decode lp peerText of None \<Rightarrow> Inl InvalidPeerId | Some peerID \<Rightarrow>
     (case parse_hints lp hints of Inl e \<Rightarrow> Inl e | Inr relayHints \<Rightarrow>
      (let token = \<lparr>tok_Version = version, tok_PeerID = peerID, tok_Service = ucast service,
                    tok_Secret = array_of SecretSize secret, tok_RelayHints = relayHints,
                    tok_ExpiresAt = None\<rparr>
       in case map_of raw 5 of
            None \<Rightarrow> Inr token
          | Some value \<Rightarrow>
              (case UnmarshalUint cb value of
                 None \<Rightarrow> Inl (BadField 5)
               | Some expires \<Rightarrow> Inr (token\<lparr>tok_ExpiresAt := Some expires\<rparr>))))))))))"

definition Decode :: "libp2p \<Rightarrow> cbor \<Rightarrow> string \<Rightarrow> pairing_error + Token" where
  "Decode lp cb text =
     (let text = TrimSpace text
      in if \<not> HasPrefix text TokenPrefix then Inl TokenWithoutPrefix
         else case DecodeString (TrimPrefix text TokenPrefix) of
                None \<Rightarrow> Inl TokenBase64
              | Some payload \<Rightarrow>
                  if payload = [] \<or> MaxTokenSize < length payload then Inl TokenSize
                  else case UnmarshalMap cb payload of
                         None \<Rightarrow> Inl TokenCBOR
                       | Some raw \<Rightarrow>
                           (case find (\<lambda>k. 5 < k) (map fst raw) of
                              Some k \<Rightarrow> Inl (UnknownField k)
                            | None \<Rightarrow>
                           (case find (\<lambda>k. map_of raw k = None) [0, 1, 2, 3, 4] of
                              Some k \<Rightarrow> Inl (MissingField k)
                            | None \<Rightarrow>
                           (case decode_fields lp cb raw of
                              Inl e \<Rightarrow> Inl e
                            | Inr token \<Rightarrow>
                           (case Validate lp (Some token) 0 of
                              Some e \<Rightarrow> Inl e
                            | None \<Rightarrow>
                           (case Encode lp cb token of
                              Inl e \<Rightarrow> Inl e
                            | Inr reencoded \<Rightarrow>
                                if reencoded \<noteq> TokenPrefix @ EncodeToString payload
                                then Inl TokenNotDeterministic else Inr token))))))"

section \<open>Derived keys and rendezvous identifiers\<close>

definition key_purposes :: "string list" where
  "key_purposes = [''rendezvous'', ''signaling'', ''admission'', ''route-record'']"

definition DeriveKey :: "cryptography \<Rightarrow> Token \<Rightarrow> string \<Rightarrow> pairing_error + bytes" where
  "DeriveKey cr t purpose =
     (if purpose \<notin> set key_purposes then Inl (UnsupportedPurpose purpose)
      else case hkdf_sha256 cr (tok_Secret t) (string_bytes ''p2p-netcat/pairing/v1'')
                  (string_bytes (''p2p-netcat/'' @ purpose @ ''/v1'')) 32 of
             None \<Rightarrow> Inl KeyDerivation
           | Some key \<Rightarrow> Inr key)"

definition nul :: string where
  "nul = [CHR 0x00]"

definition rendezvous_message :: "libp2p \<Rightarrow> Token \<Rightarrow> string \<Rightarrow> u64 \<Rightarrow> string" where
  "rendezvous_message lp t purpose epoch =
     ''p2p-netcat/rendezvous/v1'' @ nul @ purpose @ nul @ peer_String lp (tok_PeerID t) @ nul @
     show_nat (unat (tok_Service t)) @ nul @ show_nat (unat epoch)"

definition RendezvousID :: "libp2p \<Rightarrow> cryptography \<Rightarrow> Token \<Rightarrow> string \<Rightarrow> u64 \<Rightarrow> pairing_error + string" where
  "RendezvousID lp cr t purpose epoch =
     (if purpose \<notin> {''dht'', ''pubsub'', ''signaling''} then Inl (UnsupportedPurpose purpose)
      else case DeriveKey cr t ''rendezvous'' of
             Inl e \<Rightarrow> Inl e
           | Inr key \<Rightarrow>
               Inr (EncodeToString (hmac_sha256 cr key (string_bytes (rendezvous_message lp t purpose epoch)))))"

record ipfs =
  multihash_Sum :: "bytes \<Rightarrow> bytes option"
  NewCidV1 :: "bytes \<Rightarrow> bytes"

definition ProviderCID :: "ipfs \<Rightarrow> string \<Rightarrow> pairing_error + bytes" where
  "ProviderCID ip rendezvousID =
     (case DecodeString rendezvousID of
        None \<Rightarrow> Inl BadRendezvousID
      | Some decoded \<Rightarrow>
          if length decoded \<noteq> 32 \<or> EncodeToString decoded \<noteq> rendezvousID then Inl BadRendezvousID
          else case multihash_Sum ip (string_bytes (''p2p-netcat:rendezvous:v1:'' @ rendezvousID)) of
                 None \<Rightarrow> Inl BadMultihash
               | Some digest \<Rightarrow> Inr (NewCidV1 ip digest))"

text \<open>The signed seconds \<open>now.Unix()\<close>, divided with truncation as Go divides.\<close>

definition rendezvous_epoch :: "go_time \<Rightarrow> int" where
  "rendezvous_epoch now = sint (unix_seconds now) sdiv (RendezvousInterval sdiv Second)"

definition epoch_cid :: "libp2p \<Rightarrow> cryptography \<Rightarrow> ipfs \<Rightarrow> Token \<Rightarrow> int \<Rightarrow> pairing_error + bytes" where
  "epoch_cid lp cr ip t epoch =
     (case RendezvousID lp cr t ''dht'' (word_of_int epoch) of
        Inl e \<Rightarrow> Inl e
      | Inr rid \<Rightarrow> ProviderCID ip rid)"

fun cids_for :: "libp2p \<Rightarrow> cryptography \<Rightarrow> ipfs \<Rightarrow> Token \<Rightarrow> int \<Rightarrow> int list \<Rightarrow> pairing_error + bytes list" where
  "cids_for lp cr ip t epoch [] = Inr []"
| "cids_for lp cr ip t epoch (offset # offsets) =
     (if epoch + offset < 0 then cids_for lp cr ip t epoch offsets
      else case epoch_cid lp cr ip t (epoch + offset) of
             Inl e \<Rightarrow> Inl e
           | Inr value \<Rightarrow>
               (case cids_for lp cr ip t epoch offsets of
                  Inl e \<Rightarrow> Inl e
                | Inr result \<Rightarrow> Inr (value # result)))"

definition ProviderCIDs :: "libp2p \<Rightarrow> cryptography \<Rightarrow> ipfs \<Rightarrow> Token \<Rightarrow> go_time \<Rightarrow> pairing_error + bytes list" where
  "ProviderCIDs lp cr ip t now = cids_for lp cr ip t (rendezvous_epoch now) [-1, 0, 1]"

section \<open>Sealed envelopes\<close>

definition Seal :: "cryptography \<Rightarrow> cbor \<Rightarrow> random_source \<Rightarrow> Token \<Rightarrow> string \<Rightarrow> bytes \<Rightarrow> bytes \<Rightarrow> bytes option \<Rightarrow>
    pairing_error + bytes" where
  "Seal cr cb rnd t purpose plaintext additionalData nonce =
     (case DeriveKey cr t purpose of
        Inl e \<Rightarrow> Inl e
      | Inr key \<Rightarrow>
          (case (case nonce of None \<Rightarrow> map_option (array_of 12) (rnd 12) | Some given \<Rightarrow> Some given) of
             None \<Rightarrow> Inl Randomness
           | Some nonce \<Rightarrow>
               if length nonce \<noteq> 12 then Inl BadNonce
               else let ciphertext = gcm_Seal cr key nonce plaintext additionalData
                    in case Marshal cb [(0, CUint 1), (1, CBytes nonce), (2, CBytes ciphertext)] of
                         None \<Rightarrow> Inl EnvelopeEncoding
                       | Some envelope \<Rightarrow> Inr envelope))"

definition Open :: "cryptography \<Rightarrow> cbor \<Rightarrow> Token \<Rightarrow> string \<Rightarrow> bytes \<Rightarrow> bytes \<Rightarrow> pairing_error + bytes" where
  "Open cr cb t purpose envelope additionalData =
     (case UnmarshalMap cb envelope of
        None \<Rightarrow> Inl EnvelopeCBOR
      | Some raw \<Rightarrow>
          if length raw \<noteq> 3 \<or> map_of raw 0 = None \<or> map_of raw 1 = None \<or> map_of raw 2 = None
          then Inl EnvelopeFields
          else case UnmarshalUint cb (raw_field raw 0) of None \<Rightarrow> Inl EnvelopeVersion | Some version \<Rightarrow>
            if version \<noteq> 1 then Inl EnvelopeVersion
            else case UnmarshalBytes cb (raw_field raw 1) of None \<Rightarrow> Inl BadNonce | Some nonce \<Rightarrow>
            if length nonce \<noteq> 12 then Inl BadNonce
            else case UnmarshalBytes cb (raw_field raw 2) of None \<Rightarrow> Inl EnvelopeCiphertext | Some ciphertext \<Rightarrow>
            if length ciphertext < 16 then Inl EnvelopeCiphertext
            else case DeriveKey cr t purpose of
                   Inl e \<Rightarrow> Inl e
                 | Inr key \<Rightarrow>
                     (case gcm_Open cr key nonce ciphertext additionalData of
                        None \<Rightarrow> Inl EnvelopeAuthentication
                      | Some plaintext \<Rightarrow>
                          if Marshal cb [(0, CUint version), (1, CBytes nonce), (2, CBytes ciphertext)] \<noteq> Some envelope
                          then Inl EnvelopeNotDeterministic else Inr plaintext))"

section \<open>What validation accepts\<close>

definition good_hint :: "libp2p \<Rightarrow> multiaddr option \<Rightarrow> bool" where
  "good_hint lp hint =
     (case hint of
        None \<Rightarrow> False
      | Some a \<Rightarrow> length (ma_String lp a) \<le> 2048 \<and>
          (case AddrInfoFromP2pAddr lp a of None \<Rightarrow> False | Some (ident, addrs) \<Rightarrow> ident \<noteq> []))"

lemma validate_hints_None:
  "validate_hints lp seen hints = None \<longleftrightarrow>
     list_all (good_hint lp) hints \<and> distinct (map (\<lambda>h. ma_String lp (the h)) hints) \<and>
     set (map (\<lambda>h. ma_String lp (the h)) hints) \<inter> set seen = {}"
proof (induction hints arbitrary: seen)
  case (Cons h hints)
  show ?case
  proof (cases "good_hint lp h")
    case True
    then obtain a ident addrs where h: "h = Some a" "length (ma_String lp a) \<le> 2048"
      "AddrInfoFromP2pAddr lp a = Some (ident, addrs)" "ident \<noteq> []"
      by (auto simp: good_hint_def split: option.splits)
    with True show ?thesis by (auto simp: Cons.IH)
  next
    case False
    then have "validate_hints lp seen (h # hints) \<noteq> None"
      by (cases h) (auto simp: good_hint_def not_le split: option.splits)
    with False show ?thesis by simp
  qed
qed simp

lemma Validate_None:
  "Validate lp (Some t) now = None \<longleftrightarrow>
     tok_Version t = 1 \<and> peer_Decode lp (peer_String lp (tok_PeerID t)) \<noteq> None \<and> tok_Service t \<noteq> 0 \<and>
     length (tok_RelayHints t) \<le> 16 \<and> list_all (good_hint lp) (tok_RelayHints t) \<and>
     distinct (hint_strings lp t) \<and>
     (\<forall>e. tok_ExpiresAt t = Some e \<longrightarrow> e \<noteq> 0 \<and> (IsZero now \<or> unix_seconds now \<le> e))"
  using validate_hints_None [of lp "[]" "tok_RelayHints t"]
  by (cases "validate_hints lp [] (tok_RelayHints t)")
    (auto simp: TokenVersion_def MaxRelayHints_def hint_strings_def not_less split: option.splits if_splits)

declare Validate.simps(2) [simp del]

lemma good_hint_not_nil: "good_hint lp h \<Longrightarrow> \<exists>a. h = Some a"
  by (auto simp: good_hint_def split: option.splits)

section \<open>Canonical tokens\<close>

text \<open>The token with its hints in the order of the text form.\<close>

definition canonical_token :: "libp2p \<Rightarrow> Token \<Rightarrow> Token" where
  "canonical_token lp t =
     t\<lparr>tok_RelayHints := sort_key (\<lambda>h. ma_String lp (the h)) (tok_RelayHints t)\<rparr>"

lemma map_sort_key: "map f (sort_key f xs) = sort (map f xs)"
  by (rule properties_for_sort [symmetric]) simp_all

lemma hint_strings_canonical: "hint_strings lp (canonical_token lp t) = sort (hint_strings lp t)"
  by (simp add: hint_strings_def canonical_token_def map_sort_key)

lemma Validate_canonical:
  "Validate lp (Some t) now = None \<Longrightarrow> Validate lp (Some (canonical_token lp t)) now = None"
  unfolding Validate_None hint_strings_canonical
  by (simp add: canonical_token_def list_all_iff)

lemma token_fields_canonical: "token_fields lp (canonical_token lp t) = token_fields lp t"
  unfolding token_fields_def hint_strings_canonical by (simp add: canonical_token_def sorted_sort_id)

lemma Encode_canonical: "Encode lp cb t = Inr s \<Longrightarrow> Encode lp cb (canonical_token lp t) = Inr s"
  by (auto simp: Encode_def token_fields_canonical Validate_canonical split: option.splits)

lemma parse_hints_strings:
  "libp2p_ok lp \<Longrightarrow> list_all (\<lambda>h. h \<noteq> None) hs \<Longrightarrow>
   parse_hints lp (map (\<lambda>h. ma_String lp (the h)) hs) = Inr hs"
  by (induction hs) (auto simp: libp2p_okD(4))

section \<open>Decoding\<close>

lemma alphabet_visible: "set s \<subseteq> set alphabet \<Longrightarrow> list_all visible_char s"
proof -
  have "list_all visible_char alphabet" by code_simp
  then show "set s \<subseteq> set alphabet \<Longrightarrow> list_all visible_char s" by (auto simp: list_all_iff)
qed

lemma TokenPrefix_visible: "list_all visible_char TokenPrefix"
  by code_simp

lemma TokenPrefix_no_break: "filter not_line_break TokenPrefix = TokenPrefix"
  by code_simp

lemma TrimSpace_token: "TrimSpace (TokenPrefix @ EncodeToString payload) = TokenPrefix @ EncodeToString payload"
  using TokenPrefix_visible alphabet_visible [OF EncodeToString_alphabet]
  by (intro TrimSpace_visible) simp

lemma token_fields_keys:
  "map fst (token_fields lp t) = [0, 1, 2, 3, 4] @ (if tok_ExpiresAt t = None then [] else [5])"
  by (simp add: token_fields_def split: option.splits)

lemma decode_fields_token:
  assumes lp: "libp2p_ok lp" and cb: "cbor_ok cb" and M: "Marshal cb (token_fields lp t) = Some payload"
    and valid: "Validate lp (Some t) 0 = None" and secret: "length (tok_Secret t) = 32"
    and ascii: "list_all ascii (hint_strings lp t)" and raw: "UnmarshalMap cb payload = Some raw"
  shows "decode_fields lp cb raw = Inr (canonical_token lp t) \<and> map fst raw = map fst (token_fields lp t)"
proof -
  have "distinct (map fst (token_fields lp t))" and "length (token_fields lp t) \<le> 16"
    by (simp_all add: token_fields_def split: option.splits)
  then have keys: "map fst raw = map fst (token_fields lp t)"
    and dec: "\<And>k v. map_of (token_fields lp t) k = Some v \<Longrightarrow> \<exists>r. map_of raw k = Some r \<and> decodes_to cb r v"
    and absent: "\<And>k. map_of (token_fields lp t) k = None \<Longrightarrow> map_of raw k = None"
    using cbor_okE [OF cb M] raw by (metis option.inject)+
  note V = valid [unfolded Validate_None]
  have 0: "UnmarshalUint cb (raw_field raw 0) = Some (tok_Version t)"
    using dec [of 0] by (auto simp: token_fields_def raw_field_def)
  have 1: "UnmarshalText cb (raw_field raw 1) = Some (peer_String lp (tok_PeerID t))"
    using dec [of 1] libp2p_okD(2) [OF lp] by (auto simp: token_fields_def raw_field_def)
  have 2: "UnmarshalUint cb (raw_field raw 2) = Some (ucast (tok_Service t))"
    using dec [of 2] by (auto simp: token_fields_def raw_field_def)
  have 3: "UnmarshalBytes cb (raw_field raw 3) = Some (tok_Secret t)"
    using dec [of 3] by (auto simp: token_fields_def raw_field_def)
  have 4: "UnmarshalTexts cb (raw_field raw 4) = Some (sort (hint_strings lp t))"
    using dec [of 4] ascii V by (auto simp: token_fields_def raw_field_def list_all_iff hint_strings_def)
  have peer: "peer_Decode lp (peer_String lp (tok_PeerID t)) = Some (tok_PeerID t)"
    using V libp2p_okD(1) [OF lp] by auto
  have hints: "parse_hints lp (sort (hint_strings lp t)) = Inr (tok_RelayHints (canonical_token lp t))"
  proof -
    have "list_all (\<lambda>h. h \<noteq> None) (tok_RelayHints (canonical_token lp t))"
      using V good_hint_not_nil by (auto simp: canonical_token_def list_all_iff)
    from parse_hints_strings [OF lp this] show ?thesis
      by (simp add: hint_strings_def canonical_token_def map_sort_key)
  qed
  have service: "ucast (tok_Service t) \<noteq> (0 :: u64)" "\<not> 65535 < (ucast (tok_Service t) :: u64)"
    "ucast (ucast (tok_Service t) :: u64) = tok_Service t"
    using V by (simp_all add: u16_in_u64)
  have len: "length (hint_strings lp t) \<le> 16" using V by (simp add: hint_strings_def)
  show ?thesis
  proof (cases "tok_ExpiresAt t")
    case None
    then have "map_of raw 5 = None" by (intro absent) (simp add: token_fields_def)
    with None keys show ?thesis
      by (simp add: decode_fields_def 0 1 2 3 4 peer hints service len secret SecretSize_def MaxRelayHints_def not_less canonical_token_def)
  next
    case (Some e)
    then obtain r where "map_of raw 5 = Some r" "UnmarshalUint cb r = Some e"
      using dec [of 5] by (auto simp: token_fields_def)
    with Some keys show ?thesis
      by (simp add: decode_fields_def 0 1 2 3 4 peer hints service len secret SecretSize_def MaxRelayHints_def not_less canonical_token_def)
  qed
qed

lemma Decode_payload:
  "Decode lp cb (TokenPrefix @ EncodeToString payload) =
     (if payload = [] \<or> MaxTokenSize < length payload then Inl TokenSize
      else case UnmarshalMap cb payload of
             None \<Rightarrow> Inl TokenCBOR
           | Some raw \<Rightarrow>
               (case find (\<lambda>k. 5 < k) (map fst raw) of
                  Some k \<Rightarrow> Inl (UnknownField k)
                | None \<Rightarrow>
               (case find (\<lambda>k. map_of raw k = None) [0, 1, 2, 3, 4] of
                  Some k \<Rightarrow> Inl (MissingField k)
                | None \<Rightarrow>
               (case decode_fields lp cb raw of
                  Inl e \<Rightarrow> Inl e
                | Inr token \<Rightarrow>
               (case Validate lp (Some token) 0 of
                  Some e \<Rightarrow> Inl e
                | None \<Rightarrow>
               (case Encode lp cb token of
                  Inl e \<Rightarrow> Inl e
                | Inr reencoded \<Rightarrow>
                    if reencoded \<noteq> TokenPrefix @ EncodeToString payload
                    then Inl TokenNotDeterministic else Inr token))))))"
  unfolding Decode_def TrimSpace_token by (simp add: Let_def)

lemma Decode_Encode:
  assumes lp: "libp2p_ok lp" and cb: "cbor_ok cb" and E: "Encode lp cb t = Inr text"
    and secret: "length (tok_Secret t) = 32" and ascii: "list_all ascii (hint_strings lp t)"
    and size: "\<And>payload. Marshal cb (token_fields lp t) = Some payload \<Longrightarrow> length payload \<le> MaxTokenSize"
  shows "Decode lp cb text = Inr (canonical_token lp t)"
proof -
  obtain payload where valid: "Validate lp (Some t) 0 = None"
    and M: "Marshal cb (token_fields lp t) = Some payload" and txt_eq: "text = TokenPrefix @ EncodeToString payload"
    using E by (auto simp: Encode_def split: option.splits)
  have "distinct (map fst (token_fields lp t))" and "length (token_fields lp t) \<le> 16"
    by (simp_all add: token_fields_def split: option.splits)
  then obtain raw where raw: "payload \<noteq> []" "UnmarshalMap cb payload = Some raw"
    using cbor_okE [OF cb M] by metis
  have fields: "decode_fields lp cb raw = Inr (canonical_token lp t)"
    and keys: "map fst raw = map fst (token_fields lp t)"
    using decode_fields_token [OF lp cb M valid secret ascii raw(2)] by auto
  have "find (\<lambda>k. 5 < k) (map fst raw) = None"
    unfolding keys token_fields_keys by (simp add: find_None_iff)
  moreover have "map_of raw k \<noteq> None" if "k \<in> {0, 1, 2, 3, 4}" for k
  proof -
    have "k \<in> set (map fst raw)" unfolding keys token_fields_keys using that by auto
    then show ?thesis by (simp add: map_of_eq_None_iff)
  qed
  then have "find (\<lambda>k. map_of raw k = None) [0, 1, 2, 3, 4] = None" by (simp add: find_None_iff)
  ultimately show ?thesis
    using raw fields size [OF M] Encode_canonical [OF E] Validate_canonical [OF valid]
    by (simp add: txt_eq Decode_payload not_less)
qed

lemma decode_fields_secret: "decode_fields lp cb raw = Inr t \<Longrightarrow> length (tok_Secret t) = 32"
  by (auto simp: decode_fields_def SecretSize_def Let_def split: option.splits if_splits sum.splits)

lemma DecodeE:
  assumes "Decode lp cb text = Inr t"
  obtains payload raw where "TrimSpace text = TokenPrefix @ TrimPrefix (TrimSpace text) TokenPrefix"
    and "DecodeString (TrimPrefix (TrimSpace text) TokenPrefix) = Some payload"
    and "UnmarshalMap cb payload = Some raw" and "decode_fields lp cb raw = Inr t"
    and "Validate lp (Some t) 0 = None" and "Encode lp cb t = Inr (TokenPrefix @ EncodeToString payload)"
    and "payload \<noteq> []" and "length payload \<le> MaxTokenSize"
  using assms
  by (auto simp: Decode_def Let_def HasPrefix_TrimPrefix not_less
           split: option.splits if_splits sum.splits)

section \<open>Keys\<close>

lemma DeriveKey_total:
  assumes "hash_sizes cr" and "purpose \<in> set key_purposes"
  shows "\<exists>key. DeriveKey cr t purpose = Inr key \<and> length key = 32"
proof -
  obtain key where "hkdf_sha256 cr (tok_Secret t) (string_bytes ''p2p-netcat/pairing/v1'')
      (string_bytes (''p2p-netcat/'' @ purpose @ ''/v1'')) 32 = Some key" "length key = 32"
    using hash_sizesD(3) [OF assms(1)] by blast
  with assms(2) show ?thesis by (simp add: DeriveKey_def)
qed

section \<open>Envelopes\<close>

lemma SealE:
  assumes "Seal cr cb rnd t purpose plaintext additionalData nonce = Inr envelope"
  obtains key iv where "DeriveKey cr t purpose = Inr key" and "length iv = 12"
    and "Marshal cb [(0, CUint 1), (1, CBytes iv), (2, CBytes (gcm_Seal cr key iv plaintext additionalData))] =
           Some envelope"
    and "\<And>given. nonce = Some given \<Longrightarrow> iv = given"
proof (cases nonce)
  case None
  then obtain key r where "DeriveKey cr t purpose = Inr key"
    "Marshal cb [(0, CUint 1), (1, CBytes (array_of 12 r)),
       (2, CBytes (gcm_Seal cr key (array_of 12 r) plaintext additionalData))] = Some envelope"
    using assms by (auto simp: Seal_def Let_def split: option.splits if_splits sum.splits)
  with None show ?thesis by (intro that [of key "array_of 12 r"]) simp_all
next
  case (Some given)
  with assms show ?thesis
    by (intro that [of "projr (DeriveKey cr t purpose)" given])
      (auto simp: Seal_def Let_def split: option.splits if_splits sum.splits)
qed

lemma Open_Seal:
  assumes cb: "cbor_ok cb" and gcm: "gcm_ok cr"
    and S: "Seal cr cb rnd t purpose plaintext additionalData nonce = Inr envelope"
  shows "Open cr cb t purpose envelope additionalData = Inr plaintext"
proof -
  obtain key iv where key: "DeriveKey cr t purpose = Inr key" and iv: "length iv = 12"
    and M: "Marshal cb [(0, CUint 1), (1, CBytes iv), (2, CBytes (gcm_Seal cr key iv plaintext additionalData))] =
           Some envelope"
    using S by (rule SealE)
  let ?ct = "gcm_Seal cr key iv plaintext additionalData"
  let ?m = "[(0, CUint 1), (1, CBytes iv), (2, CBytes ?ct)]"
  obtain raw where raw: "UnmarshalMap cb envelope = Some raw" "map fst raw = map fst ?m"
    and dec: "\<And>k v. map_of ?m k = Some v \<Longrightarrow> \<exists>r. map_of raw k = Some r \<and> decodes_to cb r v"
    by (rule cbor_okE [OF cb M]) simp_all
  have 0: "\<exists>r. map_of raw 0 = Some r \<and> UnmarshalUint cb r = Some 1" using dec [of 0 "CUint 1"] by simp
  have 1: "\<exists>r. map_of raw 1 = Some r \<and> UnmarshalBytes cb r = Some iv" using dec [of 1 "CBytes iv"] by simp
  have 2: "\<exists>r. map_of raw 2 = Some r \<and> UnmarshalBytes cb r = Some ?ct" using dec [of 2 "CBytes ?ct"] by simp
  have len: "length raw = 3" using arg_cong [OF raw(2), of length] by simp
  have g: "length ?ct = length plaintext + 16" "gcm_Open cr key iv ?ct additionalData = Some plaintext"
    using gcm iv by (auto simp: gcm_ok_def)
  show ?thesis
    using 0 1 2 len raw(1) key iv g M by (auto simp: Open_def raw_field_def)
qed

section \<open>Rendezvous\<close>

lemma go_sdiv: "0 \<le> a \<Longrightarrow> 0 < b \<Longrightarrow> (a::int) sdiv b = a div b"
  by (simp add: signed_divide_int_def sgn_if)

lemma near_div_300:
  fixes a b :: int
  assumes "\<bar>a - b\<bar> \<le> 300"
  shows "b div 300 - a div 300 = -1 \<or> b div 300 - a div 300 = 0 \<or> b div 300 - a div 300 = 1"
proof -
  have "a = 300 * (a div 300) + a mod 300" "b = 300 * (b div 300) + b mod 300" by simp_all
  moreover have "0 \<le> a mod 300" "a mod 300 < 300" "0 \<le> b mod 300" "b mod 300 < 300" by simp_all
  ultimately have "-1 \<le> b div 300 - a div 300" "b div 300 - a div 300 \<le> 1"
    using assms by linarith+
  then show ?thesis by linarith
qed

lemma epoch_cid_total:
  assumes "hash_sizes cr" and "\<And>m. multihash_Sum ip m \<noteq> None"
  shows "\<exists>c. epoch_cid lp cr ip t e = Inr c"
proof -
  obtain key where key: "DeriveKey cr t ''rendezvous'' = Inr key"
    using DeriveKey_total [OF assms(1), of "''rendezvous''" t] by (auto simp: key_purposes_def)
  let ?mac = "hmac_sha256 cr key (string_bytes (rendezvous_message lp t ''dht'' (word_of_int e)))"
  have "length ?mac = 32" using assms(1) by (simp add: hash_sizes_def)
  with key assms(2) show ?thesis
    by (auto simp: epoch_cid_def RendezvousID_def ProviderCID_def split: option.splits)
qed

lemma cids_for_total:
  assumes "\<And>e. \<exists>c. epoch_cid lp cr ip t e = Inr c"
  shows "\<exists>cs. cids_for lp cr ip t epoch offsets = Inr cs \<and> length cs \<le> length offsets \<and>
    (\<forall>offset\<in>set offsets. 0 \<le> epoch + offset \<longrightarrow>
       (\<exists>c\<in>set cs. epoch_cid lp cr ip t (epoch + offset) = Inr c))"
proof (induction offsets)
  case (Cons offset offsets)
  then obtain cs where cs: "cids_for lp cr ip t epoch offsets = Inr cs" "length cs \<le> length offsets"
    "\<forall>offset\<in>set offsets. 0 \<le> epoch + offset \<longrightarrow>
       (\<exists>c\<in>set cs. epoch_cid lp cr ip t (epoch + offset) = Inr c)" by blast
  obtain c where c: "epoch_cid lp cr ip t (epoch + offset) = Inr c" using assms by blast
  show ?case
  proof (cases "epoch + offset < 0")
    case True
    with cs show ?thesis by auto
  next
    case False
    then have "cids_for lp cr ip t epoch (offset # offsets) = Inr (c # cs)" using c cs(1) by simp
    with cs c show ?thesis by auto
  qed
qed simp

section \<open>Properties\<close>

text \<open>A token on which the witnesses evaluate the theorems.\<close>

definition sample_token :: Token where
  "sample_token =
     \<lparr>tok_Version = 1, tok_PeerID = ''peer'', tok_Service = 22, tok_Secret = replicate 32 7,
      tok_RelayHints = [Some ''/b'', Some ''/a''], tok_ExpiresAt = Some 5000\<rparr>"

definition sample_payload :: bytes where
  "sample_payload = the (Marshal sample_cbor (token_fields sample_libp2p sample_token))"

lemma sample_token_valid: "Validate sample_libp2p (Some sample_token) 0 = None"
  by (simp add: Validate_None sample_token_def sample_libp2p_def good_hint_def hint_strings_def IsZero_def)

lemma sample_token_Marshal:
  "Marshal sample_cbor (token_fields sample_libp2p sample_token) = Some sample_payload"
  by (simp add: sample_payload_def sample_cbor_def sample_Marshal_def token_fields_def sample_token_def
      sample_libp2p_def hint_strings_def blob_def be64.width_enc)

lemma sample_payload_length: "length sample_payload \<le> MaxTokenSize"
  unfolding sample_payload_def
  by (simp add: sample_cbor_def sample_Marshal_def token_fields_def sample_token_def
      sample_libp2p_def hint_strings_def blob_def be64.width_enc MaxTokenSize_def)

lemma sample_token_ascii: "list_all ascii (hint_strings sample_libp2p sample_token)"
  by code_simp

lemma sample_token_Encode:
  "Encode sample_libp2p sample_cbor sample_token = Inr (TokenPrefix @ EncodeToString sample_payload)"
  by (simp add: Encode_def sample_token_valid sample_token_Marshal)

lemma sample_token_Decode:
  "Decode sample_libp2p sample_cbor (TokenPrefix @ EncodeToString sample_payload) =
     Inr (canonical_token sample_libp2p sample_token)"
  by (rule Decode_Encode [OF sample_libp2p_ok sample_cbor_ok sample_token_Encode])
    (simp_all add: sample_token_ascii sample_token_Marshal sample_payload_length, simp add: sample_token_def)

text \<open>
  C13: a pairing token has one text. Whatever \<open>Decode\<close> accepts is, up to surrounding white space
  and line breaks inside the base64 part, exactly the text \<open>Encode\<close> gives for the decoded token;
  that token is valid and its secret has 32 bytes. Nothing is assumed of the CBOR and libp2p
  packages.
\<close>

theorem pairing_decode_canonical:
  assumes "Decode lp cb text = Inr t"
  shows "Encode lp cb t = Inr (filter not_line_break (TrimSpace text)) \<and>
    Validate lp (Some t) 0 = None \<and> length (tok_Secret t) = 32"
proof -
  obtain payload raw where T: "TrimSpace text = TokenPrefix @ TrimPrefix (TrimSpace text) TokenPrefix"
    and D: "DecodeString (TrimPrefix (TrimSpace text) TokenPrefix) = Some payload"
    and E: "decode_fields lp cb raw = Inr t" "Validate lp (Some t) 0 = None"
      "Encode lp cb t = Inr (TokenPrefix @ EncodeToString payload)"
    using assms by (rule DecodeE)
  have "filter not_line_break (TrimSpace text) =
      TokenPrefix @ filter not_line_break (TrimPrefix (TrimSpace text) TokenPrefix)"
    using TokenPrefix_no_break by (subst T) simp
  also have "\<dots> = TokenPrefix @ EncodeToString payload"
    using D by (simp add: base64_canonical)
  finally show ?thesis using E decode_fields_secret by auto
qed

theorem pairing_decode_canonical_witness:
  "Encode sample_libp2p sample_cbor (canonical_token sample_libp2p sample_token) =
     Inr (filter not_line_break (TrimSpace (TokenPrefix @ EncodeToString sample_payload)))"
  using pairing_decode_canonical [OF sample_token_Decode] by blast

text \<open>
  C33: a token survives its text form. For every valid token with a 32-byte secret and ASCII
  relay hints whose encoding stays within 16 KiB, \<open>Decode\<close> of \<open>Encode\<close> gives the token back with
  its relay hints in the order of the text, under the documented behaviour of the CBOR and
  libp2p packages.
\<close>

theorem pairing_encode_decode:
  assumes "libp2p_ok lp" and "cbor_ok cb" and "Validate lp (Some t) 0 = None"
    and "length (tok_Secret t) = 32" and "list_all ascii (hint_strings lp t)"
    and "Marshal cb (token_fields lp t) = Some payload" and "length payload \<le> MaxTokenSize"
  shows "\<exists>text. Encode lp cb t = Inr text \<and> Decode lp cb text = Inr (canonical_token lp t) \<and>
    TrimSpace text = text"
proof -
  have E: "Encode lp cb t = Inr (TokenPrefix @ EncodeToString payload)"
    using assms by (simp add: Encode_def)
  have "Decode lp cb (TokenPrefix @ EncodeToString payload) = Inr (canonical_token lp t)"
    using assms(6,7) by (intro Decode_Encode [OF assms(1,2) E assms(4,5)]) simp
  with E TrimSpace_token show ?thesis by blast
qed

theorem pairing_encode_decode_witness:
  "\<exists>text. Encode sample_libp2p sample_cbor sample_token = Inr text \<and>
     Decode sample_libp2p sample_cbor text = Inr (canonical_token sample_libp2p sample_token) \<and>
     TrimSpace text = text"
  by (rule pairing_encode_decode [OF sample_libp2p_ok sample_cbor_ok sample_token_valid _
      sample_token_ascii sample_token_Marshal sample_payload_length]) (simp add: sample_token_def)

text \<open>
  a sealed signaling payload opens to its plaintext, with the same token, purpose and
  additional data, for a given or a random nonce.
\<close>

theorem envelope_roundtrip:
  assumes "cbor_ok cb" and "gcm_ok cr"
    and "Seal cr cb rnd t purpose plaintext additionalData nonce = Inr envelope"
  shows "Open cr cb t purpose envelope additionalData = Inr plaintext"
  using assms by (rule Open_Seal)

theorem envelope_roundtrip_witness:
  "\<exists>envelope. Seal sample_cryptography sample_cbor (\<lambda>n. Some (replicate n 3)) sample_token ''signaling'' [1, 2] [9] None =
      Inr envelope \<and>
    Open sample_cryptography sample_cbor sample_token ''signaling'' envelope [9] = Inr [1, 2]"
proof -
  obtain envelope where E: "Seal sample_cryptography sample_cbor (\<lambda>n. Some (replicate n 3)) sample_token ''signaling'' [1, 2] [9] None =
      Inr envelope"
    by (simp add: Seal_def DeriveKey_def key_purposes_def sample_cryptography_def sample_cbor_def
        sample_Marshal_def sample_tag_def Let_def be64.width_enc)
  then show ?thesis using envelope_roundtrip [OF sample_cbor_ok sample_gcm_ok E] by blast
qed

text \<open>
  peers whose clocks differ by at most five minutes meet. With instants after 1970, each
  side's list of provider identifiers exists, has at most three entries, and contains the
  identifier of the other side's current epoch.
\<close>

theorem rendezvous_overlap:
  assumes "hash_sizes cr" and "\<And>m. multihash_Sum ip m \<noteq> None"
    and "0 \<le> sint (unix_seconds a)" and "0 \<le> sint (unix_seconds b)"
    and "\<bar>sint (unix_seconds a) - sint (unix_seconds b)\<bar> \<le> 300"
  shows "\<exists>cs c. ProviderCIDs lp cr ip t a = Inr cs \<and> length cs \<le> 3 \<and> c \<in> set cs \<and>
    epoch_cid lp cr ip t (rendezvous_epoch b) = Inr c"
proof -
  have interval: "RendezvousInterval sdiv Second = 300"
    by (simp add: RendezvousInterval_def Second_def go_sdiv)
  have ab: "rendezvous_epoch a = sint (unix_seconds a) div 300" "rendezvous_epoch b = sint (unix_seconds b) div 300"
    using assms(3,4) by (simp_all add: rendezvous_epoch_def interval go_sdiv)
  then obtain offset where offset: "offset \<in> {-1, 0, 1}" "rendezvous_epoch b = rendezvous_epoch a + offset"
    using near_div_300 [OF assms(5)] by (intro that [of "rendezvous_epoch b - rendezvous_epoch a"]) auto
  have "0 \<le> rendezvous_epoch b" using ab assms(4) by simp
  with offset show ?thesis
    using cids_for_total [OF epoch_cid_total [OF assms(1,2)], of lp t "rendezvous_epoch a" "[-1, 0, 1]"]
    by (fastforce simp: ProviderCIDs_def)
qed

theorem rendezvous_overlap_witness:
  "\<exists>cs c. ProviderCIDs sample_libp2p sample_cryptography \<lparr>multihash_Sum = Some, NewCidV1 = \<lambda>d. 1 # d\<rparr> sample_token
       (time_of_unix 1000) = Inr cs \<and> length cs \<le> 3 \<and> c \<in> set cs \<and>
     epoch_cid sample_libp2p sample_cryptography \<lparr>multihash_Sum = Some, NewCidV1 = \<lambda>d. 1 # d\<rparr> sample_token
       (rendezvous_epoch (time_of_unix 1290)) = Inr c"
proof (rule rendezvous_overlap)
  have 1: "unix_seconds (time_of_unix 1000) = 1000" "unix_seconds (time_of_unix 1290) = 1290"
    by (simp_all add: unix_seconds_def time_of_unix_def unix_to_internal_def Second_def)
  show "0 \<le> sint (unix_seconds (time_of_unix 1000))" "0 \<le> sint (unix_seconds (time_of_unix 1290))"
    "\<bar>sint (unix_seconds (time_of_unix 1000)) - sint (unix_seconds (time_of_unix 1290))\<bar> \<le> 300"
    by (simp_all add: 1)
qed simp_all

text \<open>
  rendezvous identifiers are separated. Two of the messages that are authenticated to form
  them coincide only for the same purpose, listener, service and epoch.
\<close>

theorem rendezvous_message_separated:
  assumes "libp2p_ok lp" and "purpose \<in> {''dht'', ''pubsub'', ''signaling''}"
    and "purpose' \<in> {''dht'', ''pubsub'', ''signaling''}"
    and "rendezvous_message lp t purpose epoch = rendezvous_message lp t' purpose' epoch'"
  shows "purpose = purpose' \<and> peer_String lp (tok_PeerID t) = peer_String lp (tok_PeerID t') \<and>
    tok_Service t = tok_Service t' \<and> epoch = epoch'"
proof -
  note eq = assms(4) [unfolded rendezvous_message_def nul_def, simplified]
  have purposes: "CHR 0x00 \<notin> set purpose" "CHR 0x00 \<notin> set purpose'" using assms(2,3) by auto
  have 1: "purpose = purpose'"
    "peer_String lp (tok_PeerID t) @ CHR 0x00 # show_nat (unat (tok_Service t)) @ CHR 0x00 # show_nat (unat epoch) =
     peer_String lp (tok_PeerID t') @ CHR 0x00 # show_nat (unat (tok_Service t')) @ CHR 0x00 # show_nat (unat epoch')"
    using nul_split [OF eq purposes] by auto
  have 2: "peer_String lp (tok_PeerID t) = peer_String lp (tok_PeerID t')"
    "show_nat (unat (tok_Service t)) @ CHR 0x00 # show_nat (unat epoch) =
     show_nat (unat (tok_Service t')) @ CHR 0x00 # show_nat (unat epoch')"
    using nul_split [OF 1(2) libp2p_okD(3) [OF assms(1)] libp2p_okD(3) [OF assms(1)]] by auto
  have "show_nat (unat (tok_Service t)) = show_nat (unat (tok_Service t'))" "show_nat (unat epoch) = show_nat (unat epoch')"
    using nul_split [OF 2(2) show_nat_no_nul show_nat_no_nul] by auto
  with 1(1) 2(1) show ?thesis by (simp add: show_nat_eq_iff word_unat_eq_iff)
qed

theorem rendezvous_message_separated_witness:
  "rendezvous_message sample_libp2p sample_token ''dht'' 3 = rendezvous_message sample_libp2p sample_token ''dht'' 3 \<and>
   ''dht'' = ''dht'' \<and> peer_String sample_libp2p (tok_PeerID sample_token) = peer_String sample_libp2p (tok_PeerID sample_token)"
  using rendezvous_message_separated [OF sample_libp2p_ok, of "''dht''" "''dht''" sample_token 3 sample_token 3] by simp

end
