(* ===== verification/Go_IO.thy ===== *)
theory Go_IO
  imports Prelude
begin

text \<open>
  Go's \<open>io.Reader\<close> and \<open>io.Writer\<close>, as the wire formats of this program meet them.

  A reader hands out its bytes in chunks of its own choosing and then reports an error
  (\<open>io.EOF\<close> when the peer closed cleanly). A reader value fixes one such behaviour: the
  chunks that successive calls of \<open>Read\<close> return (an empty chunk is a call that returns no
  byte and no error) and the error after the last one. A theorem about every reader value is
  a theorem about every way the transport can cut the byte stream.

  A writer accepts a part of each buffer. Its plan fixes, call by call, how many bytes it
  accepts and which error it reports with them; past the plan it accepts everything.

  \<open>ReadFull\<close> is \<open>io.ReadFull\<close> of the standard library. The locale \<open>full_write\<close> is the
  contract of the loops that write a whole buffer. \<open>write_many\<close> and \<open>read_many\<close> send and
  receive a sequence of frames, and the locale \<open>frame_codec\<close> is the contract under which the
  receiver gets exactly the frames that were sent, whatever the chunking.
\<close>

datatype io_error =
    EOF
  | ErrUnexpectedEOF
  | ErrShortWrite
  | ErrClosedPipe
  | IOFailure string

record reader =
  rd_chunks :: "bytes list"
  rd_end :: io_error

record writer =
  wr_sink :: bytes
  wr_plan :: "(nat \<times> io_error option) list"

section \<open>Reading\<close>

definition Read :: "reader \<Rightarrow> nat \<Rightarrow> reader \<times> bytes \<times> io_error option" where
  "Read r n =
     (case rd_chunks r of
        [] \<Rightarrow> (r, [], Some (rd_end r))
      | c # cs \<Rightarrow>
          if length c \<le> n then (r\<lparr>rd_chunks := cs\<rparr>, c, None)
          else (r\<lparr>rd_chunks := drop n c # cs\<rparr>, take n c, None))"

function read_at_least :: "reader \<Rightarrow> nat \<Rightarrow> bytes \<Rightarrow> reader \<times> bytes \<times> io_error option" where
  "read_at_least r n got =
     (if n \<le> length got then (r, got, None)
      else case Read r (n - length got) of
             (r', bs, Some e) \<Rightarrow> (r', got @ bs, Some e)
           | (r', bs, None) \<Rightarrow> read_at_least r' n (got @ bs))"
  by pat_completeness auto
termination
  by (relation "measure (\<lambda>(r, n, got). (n - length got) + length (rd_chunks r))")
    (auto simp: Read_def split: list.splits if_splits)

declare read_at_least.simps [simp del]

definition ReadFull :: "reader \<Rightarrow> nat \<Rightarrow> reader \<times> (io_error + bytes)" where
  "ReadFull r n =
     (case read_at_least r n [] of
        (r', got, err) \<Rightarrow>
          (r', if n \<le> length got then Inr got
               else if got \<noteq> [] \<and> err = Some EOF then Inl ErrUnexpectedEOF
               else Inl (case err of Some e \<Rightarrow> e | None \<Rightarrow> ErrUnexpectedEOF)))"

definition ReadByte :: "reader \<Rightarrow> reader \<times> (io_error + byte)" where
  "ReadByte r = (case ReadFull r 1 of (r', Inl e) \<Rightarrow> (r', Inl e) | (r', Inr bs) \<Rightarrow> (r', Inr (hd bs)))"

text \<open>What matters of a reader is the concatenation of its chunks.\<close>

definition avail :: "reader \<Rightarrow> bytes" where
  "avail r = concat (rd_chunks r)"

definition short_error :: "reader \<Rightarrow> io_error" where
  "short_error r = (if rd_end r = EOF \<and> avail r \<noteq> [] then ErrUnexpectedEOF else rd_end r)"

lemma read_at_least_enough:
  "n \<le> length got + length (avail r) \<Longrightarrow> length got \<le> n \<Longrightarrow>
   \<exists>r'. read_at_least r n got = (r', got @ take (n - length got) (avail r), None) \<and>
        avail r' = drop (n - length got) (avail r) \<and> rd_end r' = rd_end r"
proof (induction r n got rule: read_at_least.induct)
  case (1 r n got)
  show ?case
  proof (cases "n \<le> length got")
    case True
    with "1.prems" show ?thesis by (simp add: read_at_least.simps [of r n got])
  next
    case False
    with "1.prems" obtain c cs where c: "rd_chunks r = c # cs"
      by (cases "rd_chunks r") (auto simp: avail_def)
    show ?thesis
    proof (cases "length c \<le> n - length got")
      case True
      let ?r = "r\<lparr>rd_chunks := cs\<rparr>"
      have step: "Read r (n - length got) = (?r, c, None)" using c True by (simp add: Read_def)
      have av: "avail r = c @ avail ?r" using c by (simp add: avail_def)
      have "n \<le> length (got @ c) + length (avail ?r)" and "length (got @ c) \<le> n"
        using "1.prems" False True av by auto
      from "1.IH" [OF False step [symmetric] refl refl this]
      show ?thesis
        using False True step av by (auto simp: read_at_least.simps [of r n got])
    next
      case short: False
      let ?k = "n - length got"
      let ?r = "r\<lparr>rd_chunks := drop ?k c # cs\<rparr>"
      have step: "Read r ?k = (?r, take ?k c, None)" using c short by (simp add: Read_def)
      have "read_at_least ?r n (got @ take ?k c) = (?r, got @ take ?k c, None)"
        using False short by (simp add: read_at_least.simps [of ?r])
      then show ?thesis
        using False short c step by (simp add: read_at_least.simps [of r n got] avail_def)
    qed
  qed
qed

lemma read_at_least_short:
  "length got + length (avail r) < n \<Longrightarrow>
   \<exists>r'. read_at_least r n got = (r', got @ avail r, Some (rd_end r)) \<and>
        avail r' = [] \<and> rd_end r' = rd_end r"
proof (induction r n got rule: read_at_least.induct)
  case (1 r n got)
  show ?case
  proof (cases "rd_chunks r")
    case Nil
    with "1.prems" show ?thesis
      by (subst read_at_least.simps) (simp add: Read_def avail_def)
  next
    case (Cons c cs)
    let ?r = "r\<lparr>rd_chunks := cs\<rparr>"
    have av: "avail r = c @ avail ?r" using Cons by (simp add: avail_def)
    have lt: "\<not> n \<le> length got" using "1.prems" by simp
    have "length c \<le> n - length got" using "1.prems" av by simp
    with Cons have step: "Read r (n - length got) = (?r, c, None)"
      by (simp add: Read_def)
    have "length (got @ c) + length (avail ?r) < n"
      using "1.prems" av by simp
    from "1.IH" [OF lt step [symmetric] refl refl this]
    show ?thesis
      using lt step av by (auto simp: read_at_least.simps [of r n got])
  qed
qed

lemma ReadFull_enough:
  assumes "n \<le> length (avail r)"
  obtains r' where "ReadFull r n = (r', Inr (take n (avail r)))"
    and "avail r' = drop n (avail r)" and "rd_end r' = rd_end r"
  using read_at_least_enough [of n "[]" r] assms by (auto simp: ReadFull_def)

lemma ReadFull_short:
  assumes "length (avail r) < n"
  obtains r' where "ReadFull r n = (r', Inl (short_error r))"
    and "avail r' = []" and "rd_end r' = rd_end r"
proof -
  obtain r' where "read_at_least r n [] = (r', avail r, Some (rd_end r))"
    and r': "avail r' = []" "rd_end r' = rd_end r"
    using read_at_least_short [of "[]" r n] assms by auto
  then have "ReadFull r n = (r', Inl (short_error r))"
    using assms by (auto simp: ReadFull_def short_error_def)
  with r' show ?thesis by (auto intro: that)
qed

lemma ReadFull_append:
  assumes "avail r = bs @ rest" and "n = length bs"
  obtains r' where "ReadFull r n = (r', Inr bs)" and "avail r' = rest" and "rd_end r' = rd_end r"
  using ReadFull_enough [of n r] assms by auto

lemma ReadFull_Inr:
  assumes "ReadFull r n = (r', Inr bs)"
  shows "n \<le> length (avail r)" and "avail r' = drop n (avail r)"
proof -
  show n: "n \<le> length (avail r)"
  proof (rule ccontr)
    assume "\<not> n \<le> length (avail r)"
    then obtain r1 where "ReadFull r n = (r1, Inl (short_error r))" using ReadFull_short [of r n] by auto
    with assms show False by simp
  qed
  show "avail r' = drop n (avail r)" using ReadFull_enough [OF n] assms by auto
qed

section \<open>Writing\<close>

definition Write :: "writer \<Rightarrow> bytes \<Rightarrow> writer \<times> nat \<times> io_error option" where
  "Write w value =
     (case wr_plan w of
        [] \<Rightarrow> (w\<lparr>wr_sink := wr_sink w @ value\<rparr>, length value, None)
      | (k, err) # ps \<Rightarrow>
          (let n = min k (length value)
           in (w\<lparr>wr_sink := wr_sink w @ take n value, wr_plan := ps\<rparr>, n, err)))"

text \<open>A plan that keeps the writer moving: no error, and at least one byte per call.\<close>

definition productive :: "writer \<Rightarrow> bool" where
  "productive w \<longleftrightarrow> list_all (\<lambda>(k, err). 0 < k \<and> err = None) (wr_plan w)"

lemma Write_cases:
  obtains n err ps where "Write w value = (w\<lparr>wr_sink := wr_sink w @ take n value, wr_plan := ps\<rparr>, n, err)"
    and "n \<le> length value" and "productive w \<Longrightarrow> value \<noteq> [] \<Longrightarrow> 0 < n \<and> err = None"
    and "productive w \<Longrightarrow> list_all (\<lambda>(k, err). 0 < k \<and> err = None) ps"
proof (cases "wr_plan w")
  case Nil
  then show ?thesis
    by (intro that [of "[]" "length value" None]) (auto simp: Write_def)
next
  case (Cons a ps)
  obtain k err where a: "a = (k, err)" by force
  show ?thesis
    using Cons a
    by (intro that [of ps "min k (length value)" err]) (auto simp: Write_def Let_def productive_def)
qed

text \<open>
  The contract of the loops that write a whole buffer (each package of the program has its
  own): on success the sink grew by exactly the buffer, on failure by a prefix of it, and a
  productive writer makes them succeed.
\<close>

locale full_write =
  fixes wf :: "writer \<Rightarrow> bytes \<Rightarrow> writer \<times> io_error option"
  assumes wf_done: "wf w v = (w', None) \<Longrightarrow> wr_sink w' = wr_sink w @ v"
    and wf_prefix: "wf w v = (w', err) \<Longrightarrow> \<exists>k. wr_sink w' = wr_sink w @ take k v"
    and wf_productive: "productive w \<Longrightarrow> \<exists>w'. wf w v = (w', None) \<and> productive w'"
begin

lemma header_then_payload:
  "wf w h = (w1, None) \<Longrightarrow> wf w1 p = (w2, None) \<Longrightarrow> wr_sink w2 = wr_sink w @ h @ p"
  by (simp add: wf_done)

lemma header_then_payload_productive:
  assumes "productive w"
  obtains w1 w2 where "wf w h = (w1, None)" and "wf w1 p = (w2, None)" and "productive w2"
    and "wr_sink w2 = wr_sink w @ h @ p"
proof -
  obtain w1 where w1: "wf w h = (w1, None)" "productive w1"
    using wf_productive [OF assms, of h] by blast
  obtain w2 where w2: "wf w1 p = (w2, None)" "productive w2"
    using wf_productive [OF w1(2), of p] by blast
  show ?thesis
    using that w1 w2 header_then_payload by blast
qed

lemma header_then_payload_prefix:
  assumes "wf w h = (w1, e1)" and "wf w1 p = (w2, e2)" and "e1 = None"
  shows "\<exists>k. wr_sink w2 = wr_sink w @ take k (h @ p)"
proof -
  obtain k where "wr_sink w2 = wr_sink w1 @ take k p" using wf_prefix [OF assms(2)] by blast
  moreover have "wr_sink w1 = wr_sink w @ h" using wf_done assms(1,3) by blast
  ultimately have "wr_sink w2 = wr_sink w @ take (length h + k) (h @ p)" by simp
  then show ?thesis by blast
qed

end

section \<open>Sending and receiving a sequence of frames\<close>

fun write_many :: "(writer \<Rightarrow> 'a \<Rightarrow> writer \<times> 'e option) \<Rightarrow> writer \<Rightarrow> 'a list \<Rightarrow> writer \<times> 'e option" where
  "write_many enc w [] = (w, None)"
| "write_many enc w (x # xs) =
     (case enc w x of (w', Some e) \<Rightarrow> (w', Some e) | (w', None) \<Rightarrow> write_many enc w' xs)"

fun read_many :: "(reader \<Rightarrow> reader \<times> ('e + 'a)) \<Rightarrow> nat \<Rightarrow> reader \<Rightarrow> reader \<times> ('e + 'a list)" where
  "read_many dec 0 r = (r, Inr [])"
| "read_many dec (Suc n) r =
     (case dec r of
        (r', Inl e) \<Rightarrow> (r', Inl e)
      | (r', Inr x) \<Rightarrow>
          (case read_many dec n r' of
             (r'', Inl e) \<Rightarrow> (r'', Inl e)
           | (r'', Inr xs) \<Rightarrow> (r'', Inr (x # xs))))"

locale frame_codec =
  fixes enc :: "'a \<Rightarrow> bytes" and valid :: "'a \<Rightarrow> bool"
    and put :: "writer \<Rightarrow> 'a \<Rightarrow> writer \<times> 'd option"
    and dec :: "reader \<Rightarrow> reader \<times> ('e + 'a)"
  assumes put_enc: "valid x \<Longrightarrow> productive w \<Longrightarrow>
    \<exists>w'. put w x = (w', None) \<and> wr_sink w' = wr_sink w @ enc x \<and> productive w'"
    and dec_enc: "valid x \<Longrightarrow> avail r = enc x @ rest \<Longrightarrow>
    \<exists>r'. dec r = (r', Inr x) \<and> avail r' = rest \<and> rd_end r' = rd_end r"
begin

lemma read_many_frames:
  "list_all valid xs \<Longrightarrow> avail r = concat (map enc xs) @ rest \<Longrightarrow>
   \<exists>r'. read_many dec (length xs) r = (r', Inr xs) \<and> avail r' = rest \<and> rd_end r' = rd_end r"
proof (induction xs arbitrary: r)
  case Nil
  then show ?case by simp
next
  case (Cons x xs)
  then obtain r1 where "dec r = (r1, Inr x)" "avail r1 = concat (map enc xs) @ rest"
    "rd_end r1 = rd_end r"
    using dec_enc [of x r] by auto
  moreover obtain r2 where "read_many dec (length xs) r1 = (r2, Inr xs)" "avail r2 = rest"
    "rd_end r2 = rd_end r1"
    using Cons.IH [of r1] Cons.prems calculation by auto
  ultimately show ?case by auto
qed

lemma write_many_frames:
  "list_all valid xs \<Longrightarrow> productive w \<Longrightarrow>
   \<exists>w'. write_many put w xs = (w', None) \<and> wr_sink w' = wr_sink w @ concat (map enc xs) \<and>
        productive w'"
proof (induction xs arbitrary: w)
  case Nil
  then show ?case by simp
next
  case (Cons x xs)
  then obtain w1 where w1: "put w x = (w1, None)" "wr_sink w1 = wr_sink w @ enc x" "productive w1"
    using put_enc [of x w] by auto
  then obtain w2 where "write_many put w1 xs = (w2, None)"
    "wr_sink w2 = wr_sink w1 @ concat (map enc xs)" "productive w2"
    using Cons.IH [of w1] Cons.prems by auto
  with w1 show ?case by auto
qed

text \<open>
  What a sender writes, a receiver reads back frame by frame, whatever the sizes in which
  the writer accepts and the reader delivers the bytes.
\<close>

lemma transfer:
  assumes "list_all valid xs" and "productive w" and "wr_sink w = []"
  obtains w' where "write_many put w xs = (w', None)"
    and "\<And>r. avail r = wr_sink w' @ rest \<Longrightarrow>
           \<exists>r'. read_many dec (length xs) r = (r', Inr xs) \<and> avail r' = rest"
proof -
  obtain w' where w': "write_many put w xs = (w', None)" "wr_sink w' = concat (map enc xs)"
    using write_many_frames [OF assms(1,2)] assms(3) by auto
  show ?thesis
    using that [OF w'(1)] read_many_frames [OF assms(1)] w'(2) by metis
qed

text \<open>A decodable frame format is prefix free: one byte stream has one reading.\<close>

lemma prefix_free:
  assumes "valid x" and "valid y" and "enc x @ a = enc y @ b"
  shows "x = y \<and> a = b"
proof -
  let ?r = "\<lparr>rd_chunks = [enc x @ a], rd_end = EOF\<rparr>"
  have "avail ?r = enc x @ a" and "avail ?r = enc y @ b"
    using assms(3) by (simp_all add: avail_def)
  then obtain r1 r2 where "dec ?r = (r1, Inr x)" "avail r1 = a" "dec ?r = (r2, Inr y)" "avail r2 = b"
    using dec_enc [OF assms(1), of ?r a] dec_enc [OF assms(2), of ?r b] by blast
  then show ?thesis by simp
qed

lemma frames_unambiguous:
  assumes "list_all valid xs" and "list_all valid ys" and "length xs = length ys"
    and "concat (map enc xs) @ a = concat (map enc ys) @ b"
  shows "xs = ys \<and> a = b"
  using assms(3,1,2,4)
proof (induction xs ys rule: list_induct2)
  case Nil
  then show ?case by simp
next
  case (Cons x xs y ys)
  then have "enc x @ (concat (map enc xs) @ a) = enc y @ (concat (map enc ys) @ b)" by simp
  from prefix_free [OF _ _ this] Cons show ?case by simp
qed

end

end
