(* ===== verification/Datagram.thy ===== *)
theory Datagram
  imports Go_IO
begin

text \<open>
  \<open>src/protocol/datagram/frames.go\<close>: UDP packets over a reliable byte stream, each as a
  big-endian 16-bit length followed by the payload.

  \<open>WriteDatagram\<close> and \<open>ReadDatagram\<close> are the package's \<open>Write\<close> and \<open>Read\<close>, \<open>writeAll\<close>
  its loop over short writes. Wrapped errors keep the wrapped one, so that
  \<open>errors.Is(err, io.EOF)\<close> is \<open>dg_is_EOF\<close>.
\<close>

definition HeaderLength :: nat where
  "HeaderLength = 2"

definition MaxPayloadLength :: nat where
  "MaxPayloadLength = unat (NOT (0 :: u16))"

lemma MaxPayloadLength_eq [simp]: "MaxPayloadLength = 65535"
  by (simp add: MaxPayloadLength_def unsigned_minus_1_eq_mask mask_eq_exp_minus_1)

datatype datagram_error =
    ErrPayloadTooLarge
  | WriteHeader io_error
  | WritePayload io_error
  | ReadHeader io_error
  | ReadPayload io_error

fun dg_is_EOF :: "datagram_error \<Rightarrow> bool" where
  "dg_is_EOF ErrPayloadTooLarge = False"
| "dg_is_EOF (WriteHeader e) = (e = EOF)"
| "dg_is_EOF (WritePayload e) = (e = EOF)"
| "dg_is_EOF (ReadHeader e) = (e = EOF)"
| "dg_is_EOF (ReadPayload e) = (e = EOF)"

function writeAll :: "writer \<Rightarrow> bytes \<Rightarrow> writer \<times> io_error option" where
  "writeAll w value =
     (if value = [] then (w, None)
      else case Write w value of
             (w', count, err) \<Rightarrow>
               (let value' = (if 0 < count then drop count value else value)
                in case err of
                     Some e \<Rightarrow> (w', Some e)
                   | None \<Rightarrow> if count = 0 then (w', Some ErrShortWrite) else writeAll w' value'))"
  by pat_completeness auto
termination
  by (relation "measure (\<lambda>(w, value). length value)") auto

declare writeAll.simps [simp del]

lemma writeAll_code [code]:
  "writeAll w [] = (w, None)"
  "writeAll w (b # bs) =
     (case Write w (b # bs) of
        (w', count, err) \<Rightarrow>
          (case err of
             Some e \<Rightarrow> (w', Some e)
           | None \<Rightarrow> if count = 0 then (w', Some ErrShortWrite) else writeAll w' (drop count (b # bs))))"
  by (subst writeAll.simps, simp) (subst writeAll.simps, auto split: prod.splits option.splits)

definition WriteDatagram :: "writer \<Rightarrow> bytes \<Rightarrow> writer \<times> datagram_error option" where
  "WriteDatagram w payload =
     (if MaxPayloadLength < length payload then (w, Some ErrPayloadTooLarge)
      else case writeAll w (put_uint16 (word_of_nat (length payload))) of
             (w1, Some e) \<Rightarrow> (w1, Some (WriteHeader e))
           | (w1, None) \<Rightarrow>
               (case writeAll w1 payload of
                  (w2, Some e) \<Rightarrow> (w2, Some (WritePayload e))
                | (w2, None) \<Rightarrow> (w2, None)))"

definition ReadDatagram :: "reader \<Rightarrow> reader \<times> (datagram_error + bytes)" where
  "ReadDatagram r =
     (case ReadFull r HeaderLength of
        (r1, Inl e) \<Rightarrow> (r1, Inl (ReadHeader e))
      | (r1, Inr header) \<Rightarrow>
          (case ReadFull r1 (unat (get_uint16 header)) of
             (r2, Inl e) \<Rightarrow> (r2, Inl (ReadPayload e))
           | (r2, Inr payload) \<Rightarrow> (r2, Inr payload)))"

section \<open>The write loop\<close>

lemma writeAll_prefix:
  "writeAll w v = (w', err) \<Longrightarrow>
   \<exists>k. wr_sink w' = wr_sink w @ take k v \<and> (err = None \<longrightarrow> take k v = v)"
proof (induction w v arbitrary: w' err rule: writeAll.induct)
  case (1 w v)
  show ?case
  proof (cases "v = []")
    case True
    with "1.prems" show ?thesis by (simp add: writeAll_code)
  next
    case False
    obtain n e ps where
      W: "Write w v = (w\<lparr>wr_sink := wr_sink w @ take n v, wr_plan := ps\<rparr>, n, e)" "n \<le> length v"
      using Write_cases [of w v] by metis
    let ?w = "w\<lparr>wr_sink := wr_sink w @ take n v, wr_plan := ps\<rparr>"
    show ?thesis
    proof (cases "e = None \<and> 0 < n")
      case True
      then have "writeAll ?w (drop n v) = (w', err)"
        using "1.prems" False W by (simp add: writeAll.simps [of w v] Let_def)
      then obtain k where k: "wr_sink w' = wr_sink ?w @ take k (drop n v)"
        "err = None \<longrightarrow> take k (drop n v) = drop n v"
        using "1.IH" [OF False W(1) [symmetric] refl refl, of w' err] True by auto
      then have "wr_sink w' = wr_sink w @ take (n + k) v"
        by (simp add: take_add)
      moreover have "err = None \<longrightarrow> take (n + k) v = v"
        using k(2) by (metis append_take_drop_id take_add)
      ultimately show ?thesis by blast
    next
      case stop: False
      then have "w' = ?w \<and> err \<noteq> None"
        using "1.prems" False W by (auto simp: writeAll.simps [of w v] split: option.splits)
      then show ?thesis by auto
    qed
  qed
qed

lemma writeAll_productive:
  "productive w \<Longrightarrow> \<exists>w'. writeAll w v = (w', None) \<and> productive w'"
proof (induction w v rule: writeAll.induct)
  case (1 w v)
  show ?case
  proof (cases "v = []")
    case True
    with "1.prems" show ?thesis by (simp add: writeAll_code)
  next
    case False
    obtain n e ps where
      W: "Write w v = (w\<lparr>wr_sink := wr_sink w @ take n v, wr_plan := ps\<rparr>, n, e)"
      "0 < n \<and> e = None" "list_all (\<lambda>(k, err). 0 < k \<and> err = None) ps"
      using Write_cases [of w v] "1.prems" False by metis
    let ?w = "w\<lparr>wr_sink := wr_sink w @ take n v, wr_plan := ps\<rparr>"
    have "productive ?w" using W(3) by (simp add: productive_def)
    then obtain w' where "writeAll ?w (drop n v) = (w', None)" "productive w'"
      using "1.IH" [OF False W(1) [symmetric] refl refl] W(2) by auto
    then show ?thesis
      using False W by (simp add: writeAll.simps [of w v])
  qed
qed

interpretation dg: full_write writeAll
proof
  show "wr_sink w' = wr_sink w @ v" if "writeAll w v = (w', None)" for w v w'
    using writeAll_prefix [OF that] by auto
  show "\<exists>k. wr_sink w' = wr_sink w @ take k v" if "writeAll w v = (w', err)" for w v w' err
    using writeAll_prefix [OF that] by blast
  show "\<exists>w'. writeAll w v = (w', None) \<and> productive w'" if "productive w" for w v
    using writeAll_productive [OF that] .
qed

section \<open>Frames\<close>

definition datagram_frame :: "bytes \<Rightarrow> bytes" where
  "datagram_frame p = put_uint16 (word_of_nat (length p)) @ p"

definition fits_datagram :: "bytes \<Rightarrow> bool" where
  "fits_datagram p \<longleftrightarrow> length p \<le> MaxPayloadLength"

lemma WriteDatagram_frame:
  assumes "fits_datagram p" and "productive w"
  shows "\<exists>w'. WriteDatagram w p = (w', None) \<and> wr_sink w' = wr_sink w @ datagram_frame p \<and>
              productive w'"
proof -
  let ?h = "put_uint16 (word_of_nat (length p))"
  obtain w1 w2 where "writeAll w ?h = (w1, None)" "writeAll w1 p = (w2, None)" "productive w2"
    "wr_sink w2 = wr_sink w @ ?h @ p"
    using dg.header_then_payload_productive [OF assms(2), of ?h p] by blast
  then show ?thesis
    using assms(1) by (auto simp: WriteDatagram_def fits_datagram_def datagram_frame_def)
qed

lemma ReadDatagram_frame:
  assumes "fits_datagram p" and "avail r = datagram_frame p @ rest"
  shows "\<exists>r'. ReadDatagram r = (r', Inr p) \<and> avail r' = rest \<and> rd_end r' = rd_end r"
proof -
  let ?h = "put_uint16 (word_of_nat (length p))"
  obtain r1 where r1: "ReadFull r HeaderLength = (r1, Inr ?h)" "avail r1 = p @ rest" "rd_end r1 = rd_end r"
    using ReadFull_append [of r ?h "p @ rest" HeaderLength] assms(2)
    by (auto simp: datagram_frame_def be16.width_enc HeaderLength_def)
  have "unat (get_uint16 ?h) = length p"
    using assms(1) by (simp add: be16.dec_enc fits_datagram_def unat_of_nat)
  then obtain r2 where "ReadFull r1 (unat (get_uint16 ?h)) = (r2, Inr p)" "avail r2 = rest"
    "rd_end r2 = rd_end r1"
    using ReadFull_append [OF r1(2), of "unat (get_uint16 ?h)"] by auto
  with r1 show ?thesis by (simp add: ReadDatagram_def)
qed

interpretation datagram: frame_codec datagram_frame fits_datagram WriteDatagram ReadDatagram
  by unfold_locales (simp_all add: WriteDatagram_frame ReadDatagram_frame)

section \<open>Properties\<close>

lemma WriteDatagram_prefix:
  assumes "WriteDatagram w p = (w', err)" and "fits_datagram p"
  shows "\<exists>k. wr_sink w' = wr_sink w @ take k (datagram_frame p) \<and>
             (err = None \<longrightarrow> take k (datagram_frame p) = datagram_frame p)"
proof -
  let ?h = "put_uint16 (word_of_nat (length p))"
  obtain w1 e1 where 1: "writeAll w ?h = (w1, e1)" by force
  obtain w2 e2 where 2: "writeAll w1 p = (w2, e2)" by force
  show ?thesis
  proof (cases e1)
    case None
    obtain k where k: "wr_sink w2 = wr_sink w1 @ take k p" "e2 = None \<longrightarrow> take k p = p"
      using writeAll_prefix [OF 2] by blast
    have "wr_sink w1 = wr_sink w @ ?h" using dg.wf_done 1 None by blast
    then have "wr_sink w' = wr_sink w @ take (2 + k) (datagram_frame p)"
      using assms 1 2 None k(1)
      by (auto simp: WriteDatagram_def fits_datagram_def datagram_frame_def be16.width_enc split: option.splits)
    moreover have "err = None \<longrightarrow> take (2 + k) (datagram_frame p) = datagram_frame p"
      using assms 1 2 None k(2)
      by (auto simp: WriteDatagram_def fits_datagram_def datagram_frame_def be16.width_enc split: option.splits)
    ultimately show ?thesis by blast
  next
    case (Some e)
    obtain k where k: "wr_sink w1 = wr_sink w @ take k ?h" using writeAll_prefix [OF 1] by blast
    then have "wr_sink w1 = wr_sink w @ take (min k (length ?h)) (datagram_frame p)"
      by (metis append_eq_conv_conj datagram_frame_def take_take min.commute)
    moreover have "w' = w1 \<and> err = Some (WriteHeader e)"
      using assms 1 Some by (auto simp: WriteDatagram_def fits_datagram_def)
    ultimately show ?thesis by blast
  qed
qed

text \<open>
  packets survive the stream with their boundaries. Whatever sizes the writer accepts and
  the reader delivers, a list of packets of at most 65535 bytes is written without error and
  read back as the same list, leaving exactly the bytes that follow.
\<close>

theorem datagram_transfer:
  assumes "list_all fits_datagram ps" and "productive w" and "wr_sink w = []"
  shows "\<exists>w'. write_many WriteDatagram w ps = (w', None) \<and>
     (\<forall>r rest. avail r = wr_sink w' @ rest \<longrightarrow>
        (\<exists>r'. read_many ReadDatagram (length ps) r = (r', Inr ps) \<and> avail r' = rest))"
proof -
  obtain w' where w': "write_many WriteDatagram w ps = (w', None)" "wr_sink w' = concat (map datagram_frame ps)"
    using datagram.write_many_frames [OF assms(1,2)] assms(3) by auto
  then show ?thesis
    using datagram.read_many_frames [OF assms(1)] by metis
qed

theorem datagram_transfer_witness:
  "\<exists>w'. write_many WriteDatagram \<lparr>wr_sink = [], wr_plan = [(1, None), (2, None)]\<rparr> [[7, 8, 9], [], [1]] = (w', None) \<and>
     (\<forall>r rest. avail r = wr_sink w' @ rest \<longrightarrow>
        (\<exists>r'. read_many ReadDatagram (length [[7, 8, 9], [], [1 :: byte]]) r = (r', Inr [[7, 8, 9], [], [1]]) \<and>
              avail r' = rest))"
  by (rule datagram_transfer) (simp_all add: fits_datagram_def productive_def)

text \<open>
  the reader on every input. Fewer than two bytes are a header error; a payload shorter
  than its header announces is a wrapped payload error; otherwise the payload is exactly the
  announced number of bytes and nothing more is consumed.
\<close>

theorem ReadDatagram_spec:
  "\<exists>r'. ReadDatagram r =
     (r', if length (avail r) < 2 then Inl (ReadHeader (short_error r))
          else let n = unat (get_uint16 (take 2 (avail r))); body = drop 2 (avail r)
               in if length body < n then Inl (ReadPayload (short_error (r\<lparr>rd_chunks := [body]\<rparr>)))
                  else Inr (take n body)) \<and>
     avail r' = drop (2 + unat (get_uint16 (take 2 (avail r)))) (avail r)"
proof (cases "length (avail r) < 2")
  case True
  then obtain r1 where "ReadFull r HeaderLength = (r1, Inl (short_error r))" "avail r1 = []"
    using ReadFull_short [of r HeaderLength] by (auto simp: HeaderLength_def)
  with True show ?thesis by (auto simp: ReadDatagram_def)
next
  case False
  let ?n = "unat (get_uint16 (take 2 (avail r)))"
  obtain r1 where r1: "ReadFull r HeaderLength = (r1, Inr (take 2 (avail r)))"
    "avail r1 = drop 2 (avail r)" "rd_end r1 = rd_end r"
    using ReadFull_enough [of HeaderLength r] False by (auto simp: HeaderLength_def)
  show ?thesis
  proof (cases "length (avail r1) < ?n")
    case True
    then obtain r2 where "ReadFull r1 ?n = (r2, Inl (short_error r1))" "avail r2 = []"
      using ReadFull_short by blast
    moreover have "short_error r1 = short_error (r\<lparr>rd_chunks := [drop 2 (avail r)]\<rparr>)"
      using r1 by (simp add: short_error_def avail_def)
    ultimately show ?thesis
      using r1 True False by (auto simp: ReadDatagram_def Let_def)
  next
    case enough: False
    then obtain r2 where "ReadFull r1 ?n = (r2, Inr (take ?n (avail r1)))" "avail r2 = drop ?n (avail r1)"
      using ReadFull_enough [of ?n r1] by auto
    then show ?thesis
      using r1 False enough by (auto simp: ReadDatagram_def Let_def add.commute)
  qed
qed

text \<open>
  the writer on every input. An oversized packet is refused before any byte is written;
  any other packet puts a prefix of its frame on the stream, all of it when no error is
  reported, so that the stream never carries bytes outside the format.
\<close>

theorem WriteDatagram_spec:
  "WriteDatagram w p = (w', err) \<Longrightarrow>
   (if 65535 < length p then w' = w \<and> err = Some ErrPayloadTooLarge
    else err \<noteq> Some ErrPayloadTooLarge \<and>
         (\<exists>k. wr_sink w' = wr_sink w @ take k (datagram_frame p) \<and>
              (err = None \<longrightarrow> take k (datagram_frame p) = datagram_frame p)))"
proof (cases "65535 < length p")
  case True
  moreover assume "WriteDatagram w p = (w', err)"
  ultimately show ?thesis by (simp add: WriteDatagram_def)
next
  case False
  assume W: "WriteDatagram w p = (w', err)"
  with False have "err \<noteq> Some ErrPayloadTooLarge"
    by (auto simp: WriteDatagram_def split: prod.splits option.splits)
  with False show ?thesis
    using WriteDatagram_prefix [OF W] by (simp add: fits_datagram_def)
qed

theorem WriteDatagram_spec_witness:
  "\<exists>k. wr_sink (\<lparr>wr_sink = [0, 3, 7], wr_plan = []\<rparr> :: writer) =
       wr_sink (\<lparr>wr_sink = [], wr_plan = [(1, None), (2, None), (1, Some ErrClosedPipe)]\<rparr> :: writer) @
         take k (datagram_frame [7, 8, 9])"
proof -
  have "WriteDatagram \<lparr>wr_sink = [], wr_plan = [(1, None), (2, None), (1, Some ErrClosedPipe)]\<rparr> [7, 8, 9] =
      (\<lparr>wr_sink = [0, 3, 7], wr_plan = []\<rparr>, Some (WritePayload ErrClosedPipe))"
    by (simp add: WriteDatagram_def writeAll_code Write_def put_uint16_def be_put_def upt_rec)
  from WriteDatagram_spec [OF this] show ?thesis by auto
qed

end
