(* ===== verification/Pty_Frames.thy ===== *)
theory Pty_Frames
  imports Datagram
begin

text \<open>
  \<open>src/protocol/pty/frames.go\<close>: the frames of a remote terminal, a type byte and a
  big-endian 32-bit length of at most one MiB before the data, and the payload of the resize
  frame. \<open>writeFull\<close> is the package's own loop over short writes; it is shown to be the
  \<open>writeAll\<close> of the datagram package, from which its contract follows.
\<close>

definition FrameData :: byte where
  "FrameData = 0"

definition FrameResize :: byte where
  "FrameResize = 1"

definition MaxFrameLength :: nat where
  "MaxFrameLength = 1024 * 1024"

record pty_frame =
  Type :: byte
  Data :: bytes

datatype pty_error =
    FrameTooLong
  | PtyIO io_error
  | EndedInsideFrame
  | ResizeLength

function writeFull :: "writer \<Rightarrow> bytes \<Rightarrow> writer \<times> io_error option" where
  "writeFull w value =
     (if value = [] then (w, None)
      else case Write w value of
             (w', count, Some e) \<Rightarrow> (w', Some e)
           | (w', count, None) \<Rightarrow>
               if count = 0 then (w', Some ErrShortWrite) else writeFull w' (drop count value))"
  by pat_completeness auto
termination
  by (relation "measure (\<lambda>(w, value). length value)") auto

declare writeFull.simps [simp del]

definition WriteFrame :: "writer \<Rightarrow> byte \<Rightarrow> bytes \<Rightarrow> writer \<times> pty_error option" where
  "WriteFrame w kind data =
     (if MaxFrameLength < length data then (w, Some FrameTooLong)
      else case writeFull w (kind # put_uint32 (word_of_nat (length data))) of
             (w1, Some e) \<Rightarrow> (w1, Some (PtyIO e))
           | (w1, None) \<Rightarrow>
               (case writeFull w1 data of (w2, err) \<Rightarrow> (w2, map_option PtyIO err)))"

definition ReadFrame :: "reader \<Rightarrow> reader \<times> (pty_error + pty_frame)" where
  "ReadFrame r =
     (case ReadFull r 5 of
        (r1, Inl e) \<Rightarrow> (r1, Inl (PtyIO e))
      | (r1, Inr header) \<Rightarrow>
          (let len = unat (get_uint32 (drop 1 header))
           in if MaxFrameLength < len then (r1, Inl FrameTooLong)
              else case ReadFull r1 len of
                     (r2, Inl e) \<Rightarrow> (r2, Inl EndedInsideFrame)
                   | (r2, Inr data) \<Rightarrow> (r2, Inr \<lparr>Type = header ! 0, Data = data\<rparr>)))"

definition EncodeResize :: "u16 \<Rightarrow> u16 \<Rightarrow> bytes" where
  "EncodeResize columns rows =
     put_uint16 (if columns = 0 then 1 else columns) @ put_uint16 (if rows = 0 then 1 else rows)"

definition DecodeResize :: "bytes \<Rightarrow> pty_error + u16 \<times> u16" where
  "DecodeResize value =
     (if length value \<noteq> 4 then Inl ResizeLength
      else let columns = get_uint16 (take 2 value); rows = get_uint16 (drop 2 value)
           in Inr (if columns = 0 then 1 else columns, if rows = 0 then 1 else rows))"

section \<open>The write loop\<close>

lemma writeFull_writeAll: "writeFull w v = writeAll w v"
proof (induction w v rule: writeFull.induct)
  case (1 w v)
  show ?case
    using "1.IH"
    by (subst writeFull.simps, subst writeAll.simps) (auto split: prod.splits option.splits)
qed

interpretation pty_io: full_write writeFull
  by unfold_locales (simp_all add: writeFull_writeAll dg.wf_done dg.wf_prefix dg.wf_productive)

section \<open>Frames\<close>

definition pty_bytes :: "pty_frame \<Rightarrow> bytes" where
  "pty_bytes f = (Type f # put_uint32 (word_of_nat (length (Data f)))) @ Data f"

definition fits_pty :: "pty_frame \<Rightarrow> bool" where
  "fits_pty f \<longleftrightarrow> length (Data f) \<le> MaxFrameLength"

definition put_frame :: "writer \<Rightarrow> pty_frame \<Rightarrow> writer \<times> pty_error option" where
  "put_frame w f = WriteFrame w (Type f) (Data f)"

lemma put_frame_bytes:
  assumes "fits_pty f" and "productive w"
  shows "\<exists>w'. put_frame w f = (w', None) \<and> wr_sink w' = wr_sink w @ pty_bytes f \<and> productive w'"
proof -
  let ?h = "Type f # put_uint32 (word_of_nat (length (Data f)))"
  obtain w1 w2 where "writeFull w ?h = (w1, None)" "writeFull w1 (Data f) = (w2, None)"
    "productive w2" "wr_sink w2 = wr_sink w @ ?h @ Data f"
    using pty_io.header_then_payload_productive [OF assms(2), of ?h "Data f"] by blast
  then show ?thesis
    using assms(1) by (auto simp: put_frame_def WriteFrame_def fits_pty_def pty_bytes_def)
qed

lemma ReadFrame_bytes:
  assumes "fits_pty f" and "avail r = pty_bytes f @ rest"
  shows "\<exists>r'. ReadFrame r = (r', Inr f) \<and> avail r' = rest \<and> rd_end r' = rd_end r"
proof -
  let ?n = "word_of_nat (length (Data f)) :: u32"
  let ?h = "Type f # put_uint32 ?n"
  obtain r1 where r1: "ReadFull r 5 = (r1, Inr ?h)" "avail r1 = Data f @ rest" "rd_end r1 = rd_end r"
    using ReadFull_append [of r ?h "Data f @ rest" 5] assms(2)
    by (auto simp: pty_bytes_def be32.width_enc)
  have n: "unat ?n = length (Data f)"
    using assms(1) by (simp add: fits_pty_def MaxFrameLength_def unat_of_nat)
  obtain r2 where "ReadFull r1 (unat ?n) = (r2, Inr (Data f))" "avail r2 = rest" "rd_end r2 = rd_end r1"
    using ReadFull_append [OF r1(2), of "unat ?n"] n by auto
  with r1 n assms(1) show ?thesis
    by (auto simp: ReadFrame_def fits_pty_def be32.dec_enc)
qed

interpretation pty_codec: frame_codec pty_bytes fits_pty put_frame ReadFrame
  by unfold_locales (simp_all add: put_frame_bytes ReadFrame_bytes)

section \<open>Properties\<close>

text \<open>
  a terminal session's frames, of any types, arrive as sent: same types, same data, same
  boundaries, for every chunking on both sides.
\<close>

theorem pty_transfer:
  assumes "list_all fits_pty fs" and "productive w" and "wr_sink w = []"
  shows "\<exists>w'. write_many put_frame w fs = (w', None) \<and>
     (\<forall>r rest. avail r = wr_sink w' @ rest \<longrightarrow>
        (\<exists>r'. read_many ReadFrame (length fs) r = (r', Inr fs) \<and> avail r' = rest))"
proof -
  obtain w' where w': "write_many put_frame w fs = (w', None)" "wr_sink w' = concat (map pty_bytes fs)"
    using pty_codec.write_many_frames [OF assms(1,2)] assms(3) by auto
  then show ?thesis
    using pty_codec.read_many_frames [OF assms(1)] by metis
qed

theorem pty_transfer_witness:
  "\<exists>w'. write_many put_frame \<lparr>wr_sink = [], wr_plan = [(3, None)]\<rparr>
        [\<lparr>Type = 0, Data = [104, 105]\<rparr>, \<lparr>Type = 1, Data = [0, 80, 0, 24]\<rparr>] = (w', None) \<and>
     (\<forall>r rest. avail r = wr_sink w' @ rest \<longrightarrow>
        (\<exists>r'. read_many ReadFrame (length [\<lparr>Type = 0, Data = [104, 105]\<rparr>, \<lparr>Type = 1, Data = [0, 80, 0, 24]\<rparr>]) r =
              (r', Inr [\<lparr>Type = 0, Data = [104, 105]\<rparr>, \<lparr>Type = 1, Data = [0, 80, 0, 24]\<rparr>]) \<and> avail r' = rest))"
  by (rule pty_transfer) (simp_all add: fits_pty_def MaxFrameLength_def productive_def)

text \<open>
  the length limit protects the reader. A header that announces more than one MiB is
  refused after the five header bytes, before any of the announced data is read or stored,
  and no frame the reader returns is larger than one MiB.
\<close>

theorem ReadFrame_bounded:
  "(case ReadFrame r of (r', Inr f) \<Rightarrow> length (Data f) \<le> MaxFrameLength | (r', Inl e) \<Rightarrow> True) \<and>
   (5 \<le> length (avail r) \<and> MaxFrameLength < unat (get_uint32 (take 4 (drop 1 (avail r)))) \<longrightarrow>
     (\<exists>r'. ReadFrame r = (r', Inl FrameTooLong) \<and> avail r' = drop 5 (avail r)))"
proof (cases "5 \<le> length (avail r)")
  case False
  then obtain r' where "ReadFull r 5 = (r', Inl (short_error r))" using ReadFull_short [of r 5] by auto
  with False show ?thesis by (simp add: ReadFrame_def)
next
  case True
  let ?len = "unat (get_uint32 (drop 1 (take 5 (avail r))))"
  obtain r1 where r1: "ReadFull r 5 = (r1, Inr (take 5 (avail r)))" "avail r1 = drop 5 (avail r)"
    using ReadFull_enough [OF True] by auto
  have len: "take 4 (drop 1 (avail r)) = drop 1 (take 5 (avail r))" by (simp add: drop_take)
  consider "MaxFrameLength < ?len" | "\<not> MaxFrameLength < ?len" "length (avail r1) < ?len"
    | "\<not> MaxFrameLength < ?len" "?len \<le> length (avail r1)" by linarith
  then show ?thesis
  proof cases
    case 1
    with r1 have "ReadFrame r = (r1, Inl FrameTooLong)" by (simp add: ReadFrame_def Let_def)
    with r1 show ?thesis by simp
  next
    case 2
    obtain r2 where "ReadFull r1 ?len = (r2, Inl (short_error r1))"
      using ReadFull_short [OF 2(2)] .
    with r1 2 have "ReadFrame r = (r2, Inl EndedInsideFrame)" by (simp add: ReadFrame_def Let_def)
    with 2 show ?thesis unfolding len by simp
  next
    case 3
    obtain r2 where "ReadFull r1 ?len = (r2, Inr (take ?len (avail r1)))"
      using ReadFull_enough [OF 3(2)] .
    with r1 3 have "ReadFrame r = (r2, Inr \<lparr>Type = take 5 (avail r) ! 0, Data = take ?len (avail r1)\<rparr>)"
      by (simp add: ReadFrame_def Let_def)
    with 3 show ?thesis unfolding len by simp
  qed
qed

theorem ReadFrame_bounded_witness:
  "5 \<le> length (avail \<lparr>rd_chunks = [[0, 0], [16, 0, 1, 9]], rd_end = EOF\<rparr>) \<and>
   MaxFrameLength < unat (get_uint32 (take 4 (drop 1 (avail \<lparr>rd_chunks = [[0, 0], [16, 0, 1, 9]], rd_end = EOF\<rparr>)))) \<and>
   (\<exists>r'. ReadFrame \<lparr>rd_chunks = [[0, 0], [16, 0, 1, 9]], rd_end = EOF\<rparr> = (r', Inl FrameTooLong) \<and>
         avail r' = drop 5 (avail \<lparr>rd_chunks = [[0, 0], [16, 0, 1, 9]], rd_end = EOF\<rparr>))"
proof -
  let ?r = "\<lparr>rd_chunks = [[0, 0], [16, 0, 1, 9 :: byte]], rd_end = EOF\<rparr>"
  have "5 \<le> length (avail ?r)" by (simp add: avail_def)
  moreover have "MaxFrameLength < unat (get_uint32 (take 4 (drop 1 (avail ?r))))"
    by (simp add: avail_def MaxFrameLength_def get_uint32_def be_get_def)
  ultimately show ?thesis using ReadFrame_bounded [of ?r] by blast
qed

text \<open>
  resizing. A decoded resize is never zero in either dimension, decoding what was encoded
  gives the dimensions back with zero replaced by one, and re-encoding a decoded payload with
  no zero dimension gives the payload.
\<close>

theorem resize_roundtrip:
  "DecodeResize (EncodeResize c r) = Inr (if c = 0 then 1 else c, if r = 0 then 1 else r) \<and>
   (case DecodeResize v of
      Inl e \<Rightarrow> length v \<noteq> 4
    | Inr (c', r') \<Rightarrow> c' \<noteq> 0 \<and> r' \<noteq> 0 \<and>
        (get_uint16 (take 2 v) \<noteq> 0 \<and> get_uint16 (drop 2 v) \<noteq> 0 \<longrightarrow> EncodeResize c' r' = v))"
proof -
  have "DecodeResize (EncodeResize c r) = Inr (if c = 0 then 1 else c, if r = 0 then 1 else r)"
    by (simp add: EncodeResize_def DecodeResize_def be16.width_enc be16.dec_enc Let_def)
  moreover have "put_uint16 (get_uint16 (take 2 v)) @ put_uint16 (get_uint16 (drop 2 v)) = v" if "length v = 4"
    using that by (simp add: be16.enc_dec)
  ultimately show ?thesis
    by (simp add: DecodeResize_def EncodeResize_def Let_def)
qed

theorem resize_roundtrip_witness:
  "DecodeResize [0, 80, 0, 24] = Inr (80, 24) \<and> EncodeResize 80 24 = [0, 80, 0, 24]"
proof -
  have 1: "DecodeResize [0, 80, 0, 24] = Inr (80, 24)" by code_simp
  have 2: "get_uint16 (take 2 [0, 80, 0, 24 :: byte]) \<noteq> 0 \<and> get_uint16 (drop 2 [0, 80, 0, 24 :: byte]) \<noteq> 0"
    by code_simp
  show ?thesis using resize_roundtrip [of 0 0 "[0, 80, 0, 24]"] 1 2 by simp
qed

end
