(* ===== verification/Admission.thy ===== *)
theory Admission
  imports Pairing Pty_Frames
begin

text \<open>
  \<open>src/protocol/admission/admission.go\<close>: the mutual handshake that proves knowledge of the
  pairing token before a stream is used. Two frames of 62 bytes: the client's hello, with a
  timestamp, a nonce and a MAC, and the server's acknowledgement, whose MAC also covers the
  client's nonce.

  The stream of the handshake is the record \<open>stream\<close>: what can be read, what was written, and
  the deadline for streams that have \<open>SetDeadline\<close> (0 is the zero time, no deadline). The two
  clock readings of the server are two arguments.
\<close>

definition Version :: byte where "Version = 1"
definition ClientHello :: byte where "ClientHello = 1"
definition ServerAck :: byte where "ServerAck = 2"
definition NonceSize :: nat where "NonceSize = 16"
definition MACSize :: nat where "MACSize = 32"
definition FrameSize :: nat where "FrameSize = 62"
definition MaxClockSkew :: duration where "MaxClockSkew = 120 * Second"

definition magic :: bytes where
  "magic = string_bytes ''PNCA''"

record Hello =
  hello_Timestamp :: u64
  hello_ClientNonce :: bytes

record frame =
  frame_kind :: byte
  frame_timestamp :: u64
  frame_nonce :: bytes
  frame_mac :: bytes

datatype admission_error =
    AdmissionToken pairing_error
  | FrameLength
  | FrameSignature
  | FrameVersion byte
  | FrameType byte
  | TimestampWindow
  | TokenAuthentication
  | TimestampChanged
  | ServerConfirmation
  | NonceLength
  | NonceRandomness
  | SendHello io_error
  | ReadAck io_error
  | ReadHello io_error
  | SendAck io_error

record stream =
  st_in :: reader
  st_out :: writer
  st_deadline :: "go_time option"

definition set_deadline :: "stream \<Rightarrow> go_time \<Rightarrow> stream" where
  "set_deadline s d = s\<lparr>st_deadline := map_option (\<lambda>_. d) (st_deadline s)\<rparr>"

section \<open>Frames\<close>

definition encode :: "byte \<Rightarrow> u64 \<Rightarrow> bytes \<Rightarrow> bytes \<Rightarrow> bytes" where
  "encode kind timestamp nonce mac =
     magic @ [Version, kind] @ put_uint64 timestamp @ array_of NonceSize nonce @ array_of MACSize mac"

definition decode :: "bytes \<Rightarrow> byte \<Rightarrow> admission_error + frame" where
  "decode encoded expectedKind =
     (if length encoded \<noteq> FrameSize then Inl FrameLength
      else if take 4 encoded \<noteq> magic then Inl FrameSignature
      else if encoded ! 4 \<noteq> Version then Inl (FrameVersion (encoded ! 4))
      else if encoded ! 5 \<noteq> expectedKind then Inl (FrameType (encoded ! 5))
      else Inr \<lparr>frame_kind = encoded ! 5,
                frame_timestamp = get_uint64 (take 8 (drop 6 encoded)),
                frame_nonce = take 16 (drop 14 encoded),
                frame_mac = take 32 (drop 30 encoded)\<rparr>)"

section \<open>Messages and codes\<close>

definition fillNonce :: "random_source \<Rightarrow> bytes option \<Rightarrow> admission_error + bytes" where
  "fillNonce rnd source =
     (case source of
        None \<Rightarrow> (case rnd NonceSize of None \<Rightarrow> Inl NonceRandomness | Some r \<Rightarrow> Inr (array_of NonceSize r))
      | Some nonce \<Rightarrow> if length nonce \<noteq> NonceSize then Inl NonceLength else Inr nonce)"

definition macInput :: "libp2p \<Rightarrow> string \<Rightarrow> Token \<Rightarrow> u64 \<Rightarrow> bytes \<Rightarrow> bytes \<Rightarrow> bytes" where
  "macInput lp role token timestamp clientNonce serverNonce =
     string_bytes (''p2p-netcat/session-auth/v1'' @ nul @ role @ nul @ peer_String lp (tok_PeerID token) @ nul @
       show_nat (unat (tok_Service token)) @ nul @ show_nat (unat timestamp) @ nul) @
     clientNonce @ serverNonce"

definition calculateMAC :: "cryptography \<Rightarrow> Token \<Rightarrow> bytes \<Rightarrow> admission_error + bytes" where
  "calculateMAC cr token message =
     (case DeriveKey cr token ''admission'' of
        Inl e \<Rightarrow> Inl (AdmissionToken e)
      | Inr key \<Rightarrow> Inr (array_of MACSize (hmac_sha256 cr key message)))"

definition CreateHello :: "libp2p \<Rightarrow> cryptography \<Rightarrow> random_source \<Rightarrow> Token option \<Rightarrow> go_time \<Rightarrow> bytes option \<Rightarrow>
    admission_error + bytes \<times> Hello" where
  "CreateHello lp cr rnd token now nonce =
     (case Validate lp token now of
        Some e \<Rightarrow> Inl (AdmissionToken e)
      | None \<Rightarrow>
          (let timestamp = unix_seconds now
           in case fillNonce rnd nonce of
                Inl e \<Rightarrow> Inl e
              | Inr clientNonce \<Rightarrow>
                  (case calculateMAC cr (the token) (macInput lp ''client'' (the token) timestamp clientNonce []) of
                     Inl e \<Rightarrow> Inl e
                   | Inr mac \<Rightarrow>
                       Inr (encode ClientHello timestamp clientNonce mac,
                            \<lparr>hello_Timestamp = timestamp, hello_ClientNonce = clientNonce\<rparr>))))"

definition VerifyHello :: "libp2p \<Rightarrow> cryptography \<Rightarrow> Token option \<Rightarrow> bytes \<Rightarrow> go_time \<Rightarrow> duration \<Rightarrow>
    admission_error + Hello" where
  "VerifyHello lp cr token encoded now maxSkew =
     (case Validate lp token now of
        Some e \<Rightarrow> Inl (AdmissionToken e)
      | None \<Rightarrow>
          (case decode encoded ClientHello of
             Inl e \<Rightarrow> Inl e
           | Inr value \<Rightarrow>
               (let timestamp = time_of_unix (frame_timestamp value)
                in if maxSkew < 0 \<or> timestamp < now + (- maxSkew) \<or> now + maxSkew < timestamp
                   then Inl TimestampWindow
                   else case calculateMAC cr (the token)
                               (macInput lp ''client'' (the token) (frame_timestamp value) (frame_nonce value) []) of
                          Inl e \<Rightarrow> Inl e
                        | Inr expected \<Rightarrow>
                            if expected \<noteq> frame_mac value then Inl TokenAuthentication
                            else Inr \<lparr>hello_Timestamp = frame_timestamp value,
                                      hello_ClientNonce = frame_nonce value\<rparr>)))"

definition CreateAck :: "libp2p \<Rightarrow> cryptography \<Rightarrow> random_source \<Rightarrow> Token \<Rightarrow> Hello \<Rightarrow> bytes option \<Rightarrow>
    admission_error + bytes" where
  "CreateAck lp cr rnd token hello nonce =
     (case fillNonce rnd nonce of
        Inl e \<Rightarrow> Inl e
      | Inr serverNonce \<Rightarrow>
          (case calculateMAC cr token
                  (macInput lp ''server'' token (hello_Timestamp hello) (hello_ClientNonce hello) serverNonce) of
             Inl e \<Rightarrow> Inl e
           | Inr mac \<Rightarrow> Inr (encode ServerAck (hello_Timestamp hello) serverNonce mac)))"

definition VerifyAck :: "libp2p \<Rightarrow> cryptography \<Rightarrow> Token \<Rightarrow> Hello \<Rightarrow> bytes \<Rightarrow> admission_error option" where
  "VerifyAck lp cr token hello encoded =
     (case decode encoded ServerAck of
        Inl e \<Rightarrow> Some e
      | Inr value \<Rightarrow>
          if frame_timestamp value \<noteq> hello_Timestamp hello then Some TimestampChanged
          else case calculateMAC cr token
                      (macInput lp ''server'' token (hello_Timestamp hello) (hello_ClientNonce hello) (frame_nonce value)) of
                 Inl e \<Rightarrow> Some e
               | Inr expected \<Rightarrow> if expected \<noteq> frame_mac value then Some ServerConfirmation else None)"

section \<open>The handshake on a stream\<close>

function adm_writeFull :: "writer \<Rightarrow> bytes \<Rightarrow> writer \<times> io_error option" where
  "adm_writeFull w value =
     (if value = [] then (w, None)
      else case Write w value of
             (w', n, Some e) \<Rightarrow> (w', Some e)
           | (w', n, None) \<Rightarrow>
               if n = 0 then (w', Some ErrShortWrite) else adm_writeFull w' (drop n value))"
  by pat_completeness auto
termination
  by (relation "measure (\<lambda>(w, value). length value)") auto

declare adm_writeFull.simps [simp del]

definition AuthenticateClient :: "libp2p \<Rightarrow> cryptography \<Rightarrow> random_source \<Rightarrow> go_time \<Rightarrow> stream \<Rightarrow> Token option \<Rightarrow>
    duration \<Rightarrow> stream \<times> admission_error option" where
  "AuthenticateClient lp cr rnd now s token timeout =
     (case CreateHello lp cr rnd token now None of
        Inl e \<Rightarrow> (s, Some e)
      | Inr (encoded, hello) \<Rightarrow>
          (let s1 = set_deadline s (now + timeout)
           in case adm_writeFull (st_out s1) encoded of
                (w, Some e) \<Rightarrow> (set_deadline (s1\<lparr>st_out := w\<rparr>) 0, Some (SendHello e))
              | (w, None) \<Rightarrow>
                  (let s2 = s1\<lparr>st_out := w\<rparr>
                   in case ReadFull (st_in s2) FrameSize of
                        (r, Inl e) \<Rightarrow> (set_deadline (s2\<lparr>st_in := r\<rparr>) 0, Some (ReadAck e))
                      | (r, Inr ack) \<Rightarrow>
                          (set_deadline (s2\<lparr>st_in := r\<rparr>) 0, VerifyAck lp cr (the token) hello ack))))"

definition AuthenticateServer :: "libp2p \<Rightarrow> cryptography \<Rightarrow> random_source \<Rightarrow> go_time \<Rightarrow> go_time \<Rightarrow> stream \<Rightarrow>
    Token option \<Rightarrow> duration \<Rightarrow> stream \<times> admission_error option" where
  "AuthenticateServer lp cr rnd now now' s token timeout =
     (let s1 = set_deadline s (now + timeout)
      in case ReadFull (st_in s1) FrameSize of
           (r, Inl e) \<Rightarrow> (set_deadline (s1\<lparr>st_in := r\<rparr>) 0, Some (ReadHello e))
         | (r, Inr encoded) \<Rightarrow>
             (let s2 = s1\<lparr>st_in := r\<rparr>
              in case VerifyHello lp cr token encoded now' MaxClockSkew of
                   Inl e \<Rightarrow> (set_deadline s2 0, Some e)
                 | Inr hello \<Rightarrow>
                     (case CreateAck lp cr rnd (the token) hello None of
                        Inl e \<Rightarrow> (set_deadline s2 0, Some e)
                      | Inr ack \<Rightarrow>
                          (case adm_writeFull (st_out s2) ack of
                             (w, Some e) \<Rightarrow> (set_deadline (s2\<lparr>st_out := w\<rparr>) 0, Some (SendAck e))
                           | (w, None) \<Rightarrow> (set_deadline (s2\<lparr>st_out := w\<rparr>) 0, None)))))"

section \<open>Frames and codes\<close>

lemma adm_writeFull_writeAll: "adm_writeFull w v = writeAll w v"
proof (induction w v rule: adm_writeFull.induct)
  case (1 w v)
  show ?case
    using "1.IH"
    by (subst adm_writeFull.simps, subst writeAll.simps) (auto split: prod.splits option.splits)
qed

interpretation adm_io: full_write adm_writeFull
  by unfold_locales (simp_all add: adm_writeFull_writeAll dg.wf_done dg.wf_prefix dg.wf_productive)

lemma length_magic [simp]: "length magic = 4"
  by (simp add: magic_def)

lemma length_encode [simp]: "length (encode kind ts nonce mac) = FrameSize"
  by (simp add: encode_def be64.width_enc FrameSize_def NonceSize_def MACSize_def)

lemma encode_parts:
  "take 4 (encode kind ts nonce mac) = magic"
  "encode kind ts nonce mac ! 4 = Version"
  "encode kind ts nonce mac ! 5 = kind"
  "take 8 (drop 6 (encode kind ts nonce mac)) = put_uint64 ts"
  "take 16 (drop 14 (encode kind ts nonce mac)) = array_of 16 nonce"
  "take 32 (drop 30 (encode kind ts nonce mac)) = array_of 32 mac"
  by (simp_all add: encode_def nth_append be64.width_enc NonceSize_def MACSize_def)

lemma decode_encode:
  "length nonce = 16 \<Longrightarrow> length mac = 32 \<Longrightarrow>
   decode (encode kind ts nonce mac) kind =
     Inr \<lparr>frame_kind = kind, frame_timestamp = ts, frame_nonce = nonce, frame_mac = mac\<rparr>"
  by (simp add: decode_def encode_parts be64.dec_enc)

lemma split_frame:
  assumes "length bs = 62"
  shows "bs = take 4 bs @ [bs ! 4, bs ! 5] @ take 8 (drop 6 bs) @ take 16 (drop 14 bs) @ take 32 (drop 30 bs)"
proof -
  have "drop 30 bs = take 32 (drop 30 bs)" using assms by simp
  then have 1: "take 16 (drop 14 bs) @ take 32 (drop 30 bs) = drop 14 bs"
    using append_take_drop_id [of 16 "drop 14 bs"] by simp
  have 2: "take 8 (drop 6 bs) @ drop 14 bs = drop 6 bs"
    using append_take_drop_id [of 8 "drop 6 bs"] by simp
  have 3: "bs ! 4 # bs ! 5 # drop 6 bs = drop 4 bs"
    using assms by (simp add: Cons_nth_drop_Suc eval_nat_numeral)
  have "take 4 bs @ [bs ! 4, bs ! 5] @ take 8 (drop 6 bs) @ take 16 (drop 14 bs) @ take 32 (drop 30 bs) =
      take 4 bs @ drop 4 bs"
    by (simp only: 1 2 3 append_Cons append_Nil)
  then show ?thesis by (simp only: append_take_drop_id)
qed

lemma decodeD:
  assumes "decode bs kind = Inr f"
  shows "bs = encode kind (frame_timestamp f) (frame_nonce f) (frame_mac f) \<and> length (frame_nonce f) = 16 \<and>
    length (frame_mac f) = 32 \<and> frame_kind f = kind"
proof -
  have len: "length bs = 62" and f: "take 4 bs = magic" "bs ! 4 = Version" "bs ! 5 = kind"
    "f = \<lparr>frame_kind = bs ! 5, frame_timestamp = get_uint64 (take 8 (drop 6 bs)),
      frame_nonce = take 16 (drop 14 bs), frame_mac = take 32 (drop 30 bs)\<rparr>"
    using assms by (auto simp: decode_def FrameSize_def split: if_splits)
  have "put_uint64 (get_uint64 (take 8 (drop 6 bs))) = take 8 (drop 6 bs)"
    using len by (simp add: be64.enc_dec)
  then show ?thesis
    using split_frame [OF len] len f by (simp add: encode_def NonceSize_def MACSize_def)
qed

lemma calculateMAC_length: "calculateMAC cr t m = Inr mac \<Longrightarrow> length mac = 32"
  by (auto simp: calculateMAC_def MACSize_def split: sum.splits)

lemma calculateMAC_total: "hash_sizes cr \<Longrightarrow> \<exists>mac. calculateMAC cr t m = Inr mac"
  using DeriveKey_total [of cr "''admission''" t] by (auto simp: calculateMAC_def key_purposes_def)

lemma fillNonce_length: "fillNonce rnd source = Inr nonce \<Longrightarrow> length nonce = 16"
  by (auto simp: fillNonce_def NonceSize_def split: option.splits if_splits)

section \<open>Handshake lemmas\<close>

lemma CreateHelloD:
  assumes "CreateHello lp cr rnd (Some t) now nonce = Inr (encoded, hello)"
  shows "hello_Timestamp hello = unix_seconds now \<and> length (hello_ClientNonce hello) = 16 \<and>
    Validate lp (Some t) now = None \<and>
    (\<exists>mac. calculateMAC cr t (macInput lp ''client'' t (unix_seconds now) (hello_ClientNonce hello) []) = Inr mac \<and>
       encoded = encode ClientHello (unix_seconds now) (hello_ClientNonce hello) mac)"
  using assms fillNonce_length
  by (auto simp: CreateHello_def Let_def split: option.splits sum.splits)

text \<open>What the server accepts as a hello, exactly.\<close>

lemma VerifyHello_iff:
  "VerifyHello lp cr (Some t) encoded now skew = Inr hello \<longleftrightarrow>
     Validate lp (Some t) now = None \<and> 0 \<le> skew \<and> length (hello_ClientNonce hello) = 16 \<and>
     now - skew \<le> time_of_unix (hello_Timestamp hello) \<and> time_of_unix (hello_Timestamp hello) \<le> now + skew \<and>
     (\<exists>mac. calculateMAC cr t (macInput lp ''client'' t (hello_Timestamp hello) (hello_ClientNonce hello) []) = Inr mac \<and>
        encoded = encode ClientHello (hello_Timestamp hello) (hello_ClientNonce hello) mac)"
    (is "?L \<longleftrightarrow> ?R")
proof
  assume L: ?L
  then obtain f where valid: "Validate lp (Some t) now = None" and f: "decode encoded ClientHello = Inr f"
    by (auto simp: VerifyHello_def split: option.splits sum.splits)
  with L show ?R
    using decodeD [OF f] by (auto simp: VerifyHello_def Let_def split: sum.splits if_splits)
next
  assume R: ?R
  then obtain mac where mac: "calculateMAC cr t (macInput lp ''client'' t (hello_Timestamp hello) (hello_ClientNonce hello) []) = Inr mac"
    "encoded = encode ClientHello (hello_Timestamp hello) (hello_ClientNonce hello) mac" by blast
  have "decode encoded ClientHello = Inr \<lparr>frame_kind = ClientHello, frame_timestamp = hello_Timestamp hello,
      frame_nonce = hello_ClientNonce hello, frame_mac = mac\<rparr>"
    using R by (simp add: mac(2) decode_encode calculateMAC_length [OF mac(1)])
  with R mac(1) show ?L by (simp add: VerifyHello_def Let_def)
qed


lemma VerifyAck_iff:
  "VerifyAck lp cr t hello encoded = None \<longleftrightarrow>
     (\<exists>serverNonce mac. length serverNonce = 16 \<and>
        calculateMAC cr t (macInput lp ''server'' t (hello_Timestamp hello) (hello_ClientNonce hello) serverNonce) = Inr mac \<and>
        encoded = encode ServerAck (hello_Timestamp hello) serverNonce mac)"
    (is "?L \<longleftrightarrow> ?R")
proof
  assume L: ?L
  then obtain f where f: "decode encoded ServerAck = Inr f" "frame_timestamp f = hello_Timestamp hello"
    by (auto simp: VerifyAck_def split: option.splits sum.splits if_splits)
  with L show ?R
    using decodeD [OF f(1)] by (auto simp: VerifyAck_def Let_def split: sum.splits if_splits)
next
  assume ?R
  then obtain serverNonce mac where R: "length serverNonce = 16"
    "calculateMAC cr t (macInput lp ''server'' t (hello_Timestamp hello) (hello_ClientNonce hello) serverNonce) = Inr mac"
    "encoded = encode ServerAck (hello_Timestamp hello) serverNonce mac" by blast
  have "decode encoded ServerAck = Inr \<lparr>frame_kind = ServerAck, frame_timestamp = hello_Timestamp hello,
      frame_nonce = serverNonce, frame_mac = mac\<rparr>"
    using R(1) by (simp add: R(3) decode_encode calculateMAC_length [OF R(2)])
  with R(2) show ?L by (simp add: VerifyAck_def)
qed

lemma set_deadline_simps [simp]:
  "st_in (set_deadline s d) = st_in s" "st_out (set_deadline s d) = st_out s"
  "st_deadline (set_deadline s d) = map_option (\<lambda>_. d) (st_deadline s)"
  by (simp_all add: set_deadline_def)

lemma AuthenticateServer_run:
  assumes V: "VerifyHello lp cr (Some t) encoded now' MaxClockSkew = Inr hello"
    and A: "CreateAck lp cr rnd t hello None = Inr ack"
    and r: "avail (st_in s) = encoded @ rest" "length encoded = FrameSize" and w: "productive (st_out s)"
  shows "\<exists>s'. AuthenticateServer lp cr rnd now now' s (Some t) timeout = (s', None) \<and>
    wr_sink (st_out s') = wr_sink (st_out s) @ ack \<and> avail (st_in s') = rest"
proof -
  let ?s1 = "set_deadline s (now + timeout)"
  obtain r' where r': "ReadFull (st_in ?s1) FrameSize = (r', Inr encoded)" "avail r' = rest"
    using ReadFull_append [of "st_in ?s1" encoded rest FrameSize] r by auto
  obtain w' where w': "adm_writeFull (st_out (?s1\<lparr>st_in := r'\<rparr>)) ack = (w', None)"
    "wr_sink w' = wr_sink (st_out s) @ ack"
    using adm_io.wf_productive [of "st_out s" ack] adm_io.wf_done w by auto
  show ?thesis
    using V A r' w' by (simp add: AuthenticateServer_def Let_def)
qed

lemma AuthenticateClient_run:
  assumes H: "CreateHello lp cr rnd (Some t) now None = Inr (encoded, hello)"
    and A: "VerifyAck lp cr t hello ack = None"
    and r: "avail (st_in s) = ack @ rest" "length ack = FrameSize" and w: "productive (st_out s)"
  shows "\<exists>s'. AuthenticateClient lp cr rnd now s (Some t) timeout = (s', None) \<and>
    wr_sink (st_out s') = wr_sink (st_out s) @ encoded \<and> avail (st_in s') = rest"
proof -
  let ?s1 = "set_deadline s (now + timeout)"
  obtain w' where w': "adm_writeFull (st_out ?s1) encoded = (w', None)"
    "wr_sink w' = wr_sink (st_out s) @ encoded"
    using adm_io.wf_productive [of "st_out s" encoded] adm_io.wf_done w by auto
  obtain r' where r': "ReadFull (st_in (?s1\<lparr>st_out := w'\<rparr>)) FrameSize = (r', Inr ack)" "avail r' = rest"
    using ReadFull_append [of "st_in ?s1" ack rest FrameSize] r by auto
  show ?thesis
    using H A r' w' by (simp add: AuthenticateClient_def Let_def)
qed

lemma map_option_const [simp]: "map_option (\<lambda>_. a) (map_option f x) = map_option (\<lambda>_. a) x"
  by (cases x) simp_all

section \<open>Properties\<close>

text \<open>
  C8: the handshake completes. A client and a server with the same token, valid on both
  clocks, clocks at most 119 seconds apart and working random sources: there are two frames of
  62 bytes such that the client, reading the second, writes the first and succeeds, and the
  server, reading the first, writes the second and succeeds, for every chunking of the streams,
  leaving unread exactly what follows the frames.
\<close>

theorem handshake_completes:
  assumes "hash_sizes cr" and "representable now"
    and "Validate lp (Some t) now = None" and "Validate lp (Some t) now' = None"
    and "\<bar>now - now'\<bar> \<le> 119 * Second"
    and "rnd 16 \<noteq> None" and "rnd' 16 \<noteq> None"
  shows "\<exists>hello ack. length hello = 62 \<and> length ack = 62 \<and>
    (\<forall>s rest. avail (st_in s) = ack @ rest \<and> productive (st_out s) \<longrightarrow>
       (\<exists>s'. AuthenticateClient lp cr rnd now s (Some t) timeout = (s', None) \<and>
             wr_sink (st_out s') = wr_sink (st_out s) @ hello \<and> avail (st_in s') = rest)) \<and>
    (\<forall>s rest. avail (st_in s) = hello @ rest \<and> productive (st_out s) \<longrightarrow>
       (\<exists>s'. AuthenticateServer lp cr rnd' start now' s (Some t) timeout' = (s', None) \<and>
             wr_sink (st_out s') = wr_sink (st_out s) @ ack \<and> avail (st_in s') = rest))"
proof -
  obtain nonce where nonce: "fillNonce rnd None = Inr nonce" using assms(6) by (auto simp: fillNonce_def NonceSize_def)
  obtain nonce' where nonce': "fillNonce rnd' None = Inr nonce'" using assms(7) by (auto simp: fillNonce_def NonceSize_def)
  let ?ts = "unix_seconds now"
  let ?hello = "\<lparr>hello_Timestamp = ?ts, hello_ClientNonce = nonce\<rparr>"
  obtain mac where mac: "calculateMAC cr t (macInput lp ''client'' t ?ts nonce []) = Inr mac"
    using calculateMAC_total [OF assms(1)] by blast
  obtain mac' where mac': "calculateMAC cr t (macInput lp ''server'' t ?ts nonce nonce') = Inr mac'"
    using calculateMAC_total [OF assms(1)] by blast
  let ?encoded = "encode ClientHello ?ts nonce mac" and ?ack = "encode ServerAck ?ts nonce' mac'"
  have H: "CreateHello lp cr rnd (Some t) now None = Inr (?encoded, ?hello)"
    using assms(3) nonce mac by (simp add: CreateHello_def Let_def)
  have "now' - MaxClockSkew \<le> time_of_unix ?ts \<and> time_of_unix ?ts \<le> now' + MaxClockSkew"
    using time_of_unix_bounds [OF assms(2)] assms(5) by (auto simp: MaxClockSkew_def Second_def abs_le_iff)
  then have V: "VerifyHello lp cr (Some t) ?encoded now' MaxClockSkew = Inr ?hello"
    using assms(4) mac fillNonce_length [OF nonce] by (auto simp: VerifyHello_iff MaxClockSkew_def Second_def)
  have A: "CreateAck lp cr rnd' t ?hello None = Inr ?ack"
    using nonce' mac' by (simp add: CreateAck_def)
  have C: "VerifyAck lp cr t ?hello ?ack = None"
    using mac' fillNonce_length [OF nonce'] by (auto simp: VerifyAck_iff)
  show ?thesis
    using AuthenticateClient_run [OF H C] AuthenticateServer_run [OF V A]
    by (intro exI [of _ ?encoded] exI [of _ ?ack]) (simp add: FrameSize_def)
qed


text \<open>
  The client admits only a server that holds the token. When \<open>AuthenticateClient\<close>
  succeeds, it wrote one hello with a fresh nonce and the 62 bytes it read are an
  acknowledgement whose MAC covers that very nonce and timestamp under the token's key.
\<close>

lemma AuthenticateClient_spec:
  assumes "AuthenticateClient lp cr rnd now s (Some t) timeout = (s', None)"
  shows "st_deadline s' = map_option (\<lambda>_. 0) (st_deadline s) \<and> Validate lp (Some t) now = None \<and>
    (\<exists>nonce mac nonce' mac'. fillNonce rnd None = Inr nonce \<and>
       calculateMAC cr t (macInput lp ''client'' t (unix_seconds now) nonce []) = Inr mac \<and>
       wr_sink (st_out s') = wr_sink (st_out s) @ encode ClientHello (unix_seconds now) nonce mac \<and>
       length nonce' = 16 \<and>
       calculateMAC cr t (macInput lp ''server'' t (unix_seconds now) nonce nonce') = Inr mac' \<and>
       avail (st_in s) = encode ServerAck (unix_seconds now) nonce' mac' @ avail (st_in s'))"
proof -
  obtain encoded hello where H: "CreateHello lp cr rnd (Some t) now None = Inr (encoded, hello)"
    using assms by (auto simp: AuthenticateClient_def split: sum.splits)
  obtain w where w: "adm_writeFull (st_out s) encoded = (w, None)"
    using assms H by (auto simp: AuthenticateClient_def Let_def split: prod.splits option.splits)
  let ?s2 = "set_deadline s (now + timeout)\<lparr>st_out := w\<rparr>" and ?ack = "take FrameSize (avail (st_in s))"
  have enough: "FrameSize \<le> length (avail (st_in s))"
  proof (rule ccontr)
    assume "\<not> FrameSize \<le> length (avail (st_in s))"
    then obtain r where "ReadFull (st_in s) FrameSize = (r, Inl (short_error (st_in s)))"
      using ReadFull_short [of "st_in s" FrameSize] by auto
    with assms H w show False by (simp add: AuthenticateClient_def Let_def)
  qed
  then obtain r where r: "ReadFull (st_in s) FrameSize = (r, Inr ?ack)" "avail r = drop FrameSize (avail (st_in s))"
    using ReadFull_enough by metis
  have s': "s' = set_deadline (?s2\<lparr>st_in := r\<rparr>) 0" "VerifyAck lp cr t hello ?ack = None"
    using assms H w r by (simp_all add: AuthenticateClient_def Let_def)
  have nonce: "fillNonce rnd None = Inr (hello_ClientNonce hello)"
    using H by (auto simp: CreateHello_def Let_def split: option.splits sum.splits)
  have sink: "wr_sink (st_out s') = wr_sink (st_out s) @ encoded" using adm_io.wf_done [OF w] s' by simp
  have "avail (st_in s) = ?ack @ avail (st_in s')" using r(2) s'(1) by simp
  with s'(2) have "\<exists>nonce' mac'. length nonce' = 16 \<and>
       calculateMAC cr t (macInput lp ''server'' t (unix_seconds now) (hello_ClientNonce hello) nonce') = Inr mac' \<and>
       avail (st_in s) = encode ServerAck (unix_seconds now) nonce' mac' @ avail (st_in s')"
    using CreateHelloD [OF H] unfolding VerifyAck_iff by auto
  then show ?thesis
    using CreateHelloD [OF H] nonce sink s'(1) by auto
qed

text \<open>
  the authenticated messages are separated. Two of them coincide only for the same role,
  listener, service, timestamp and nonces, so that a MAC of one role, session or service is
  never the MAC of another message.
\<close>

theorem macInput_separated:
  assumes "libp2p_ok lp" and "role \<in> {''client'', ''server''}" and "role' \<in> {''client'', ''server''}"
    and "length nonce = length nonce'"
    and "macInput lp role t ts nonce serverNonce = macInput lp role' t' ts' nonce' serverNonce'"
  shows "role = role' \<and> peer_String lp (tok_PeerID t) = peer_String lp (tok_PeerID t') \<and>
    tok_Service t = tok_Service t' \<and> ts = ts' \<and> nonce = nonce' \<and> serverNonce = serverNonce'"
proof -
  let ?z = "CHR 0x00"
  let ?p = "peer_String lp (tok_PeerID t)" and ?p' = "peer_String lp (tok_PeerID t')"
  let ?n = "show_nat (unat (tok_Service t))" and ?n' = "show_nat (unat (tok_Service t'))"
  let ?ts = "show_nat (unat ts)" and ?ts' = "show_nat (unat ts')"
  let ?e = "bytes_string (nonce @ serverNonce)" and ?e' = "bytes_string (nonce' @ serverNonce')"
  have eq: "role @ ?z # ?p @ ?z # ?n @ ?z # ?ts @ ?z # ?e = role' @ ?z # ?p' @ ?z # ?n' @ ?z # ?ts' @ ?z # ?e'"
    using arg_cong [OF assms(5), of bytes_string] by (simp add: macInput_def nul_def)
  have roles: "?z \<notin> set role" "?z \<notin> set role'" using assms(2,3) by auto
  note p = libp2p_okD(3) [OF assms(1)]
  have 1: "role = role'" "?p @ ?z # ?n @ ?z # ?ts @ ?z # ?e = ?p' @ ?z # ?n' @ ?z # ?ts' @ ?z # ?e'"
    using nul_split [OF eq roles] by auto
  have 2: "?p = ?p'" "?n @ ?z # ?ts @ ?z # ?e = ?n' @ ?z # ?ts' @ ?z # ?e'"
    using nul_split [OF 1(2) p p] by auto
  have 3: "?n = ?n'" "?ts @ ?z # ?e = ?ts' @ ?z # ?e'"
    using nul_split [OF 2(2) show_nat_no_nul show_nat_no_nul] by auto
  have 4: "?ts = ?ts'" "?e = ?e'"
    using nul_split [OF 3(2) show_nat_no_nul show_nat_no_nul] by auto
  have "nonce @ serverNonce = nonce' @ serverNonce'" using arg_cong [OF 4(2), of string_bytes] by simp
  with 1(1) 2(1) 3(1) 4(1) assms(4) show ?thesis by (simp add: show_nat_eq_iff word_unat_eq_iff)
qed

theorem macInput_separated_witness:
  "macInput sample_libp2p ''client'' sample_token 1 [1] [] \<noteq> macInput sample_libp2p ''server'' sample_token 1 [1] [2]"
  using macInput_separated [OF sample_libp2p_ok, of "''client''" "''server''" "[1]" "[1]" sample_token 1 "[]" sample_token 1 "[2]"]
  by auto

section \<open>Witnesses of the handshake\<close>

lemma sample_times:
  "representable (time_of_unix 1000)" "unix_seconds (time_of_unix 1000) = 1000"
  "unix_seconds (time_of_unix 1010) = 1010"
  by (simp_all add: representable_def unix_seconds_def time_of_unix_def unix_to_internal_def Second_def)

lemma sample_token_valid_at:
  "Validate sample_libp2p (Some sample_token) (time_of_unix 1000) = None"
  "Validate sample_libp2p (Some sample_token) (time_of_unix 1010) = None"
  by (simp_all add: Validate_None sample_token_def sample_libp2p_def good_hint_def hint_strings_def sample_times)

lemma sample_times_close: "\<bar>time_of_unix 1000 - time_of_unix 1010\<bar> \<le> 119 * Second"
  by (simp add: time_of_unix_def unix_to_internal_def Second_def)

theorem handshake_completes_witness:
  "\<exists>hello ack. length hello = 62 \<and> length ack = 62 \<and>
    (\<forall>s rest. avail (st_in s) = ack @ rest \<and> productive (st_out s) \<longrightarrow>
       (\<exists>s'. AuthenticateClient sample_libp2p sample_cryptography (\<lambda>n. Some [1]) (time_of_unix 1000) s
               (Some sample_token) Second = (s', None) \<and>
             wr_sink (st_out s') = wr_sink (st_out s) @ hello \<and> avail (st_in s') = rest)) \<and>
    (\<forall>s rest. avail (st_in s) = hello @ rest \<and> productive (st_out s) \<longrightarrow>
       (\<exists>s'. AuthenticateServer sample_libp2p sample_cryptography (\<lambda>n. Some [2]) 0 (time_of_unix 1010) s
               (Some sample_token) Second = (s', None) \<and>
             wr_sink (st_out s') = wr_sink (st_out s) @ ack \<and> avail (st_in s') = rest))"
  by (rule handshake_completes [OF sample_hash_sizes sample_times(1) sample_token_valid_at sample_times_close]) simp_all




definition sample_acknowledgement :: "bytes \<Rightarrow> stream" where
  "sample_acknowledgement ack =
     \<lparr>st_in = \<lparr>rd_chunks = [ack], rd_end = EOF\<rparr>, st_out = \<lparr>wr_sink = [], wr_plan = []\<rparr>, st_deadline = Some 3\<rparr>"

lemma AuthenticateClient_sample:
  assumes valid: "Validate sample_libp2p (Some t) (time_of_unix 1000) = None"
  shows "\<exists>ack s'. AuthenticateClient sample_libp2p sample_cryptography (\<lambda>n. Some [1]) (time_of_unix 1000) (sample_acknowledgement ack)
      (Some t) timeout = (s', None)"
proof -
  let ?n = "array_of 16 [1] :: bytes" and ?m = "array_of 16 [2] :: bytes"
  obtain mac where mac: "calculateMAC sample_cryptography t
      (macInput sample_libp2p ''client'' t 1000 ?n []) = Inr mac"
    using calculateMAC_total [OF sample_hash_sizes] by blast
  obtain mac' where mac': "calculateMAC sample_cryptography t
      (macInput sample_libp2p ''server'' t 1000 ?n ?m) = Inr mac'"
    using calculateMAC_total [OF sample_hash_sizes] by blast
  let ?hello = "\<lparr>hello_Timestamp = 1000, hello_ClientNonce = ?n\<rparr>" and ?ack = "encode ServerAck 1000 ?m mac'"
  let ?s = "sample_acknowledgement ?ack"
  have H: "CreateHello sample_libp2p sample_cryptography (\<lambda>n. Some [1]) (Some t) (time_of_unix 1000) None =
      Inr (encode ClientHello 1000 ?n mac, ?hello)"
    using mac by (simp add: CreateHello_def Let_def valid sample_times fillNonce_def NonceSize_def)
  have A: "VerifyAck sample_libp2p sample_cryptography t ?hello ?ack = None"
    unfolding VerifyAck_iff using mac' by (intro exI [of _ ?m] exI [of _ mac']) simp
  have av: "avail (st_in ?s) = ?ack @ []" and len: "length ?ack = FrameSize" and pr: "productive (st_out ?s)"
    by (simp_all add: avail_def productive_def sample_acknowledgement_def)
  obtain s' where run: "AuthenticateClient sample_libp2p sample_cryptography (\<lambda>n. Some [1]) (time_of_unix 1000) ?s (Some t) timeout =
      (s', None)"
    using AuthenticateClient_run [OF H A av len pr] by blast
  then show ?thesis by blast
qed

end
