(* ===== verification/Wire.thy ===== *)
theory Wire
  imports Admission
begin

text \<open>
  \<open>src/nativewebrtc/wire.go\<close>: the frames of the WebRTC data channel and the proof by which the
  server shows that it holds the private key of the peer identifier the client dialled.

  Keys and signatures of libp2p are the parameter \<open>key_ops\<close>; \<open>signature_ok\<close> states what the
  program relies on. In version 2 of the proof the signed bytes are a list of length-prefixed
  fields that includes the hashes of both session descriptions.
\<close>

definition ProtocolVersion :: byte where "ProtocolVersion = 2"
definition WFrameData :: byte where "WFrameData = 0"
definition FrameControl :: byte where "FrameControl = 1"
definition FrameAuthChallenge :: byte where "FrameAuthChallenge = 2"
definition FrameAuthResponse :: byte where "FrameAuthResponse = 3"
definition FrameAuthReady :: byte where "FrameAuthReady = 4"
definition AuthResponseVersionV1 :: byte where "AuthResponseVersionV1 = 1"
definition AuthResponseVersionV2 :: byte where "AuthResponseVersionV2 = 2"
definition AuthDomainV2 :: string where "AuthDomainV2 = ''p2p-netcat/native-webrtc-auth/v2''"
definition maxSDPBytes :: nat where "maxSDPBytes = 256 * 1024"

record Frame =
  frame_Type :: byte
  frame_Payload :: bytes

record AuthTranscript =
  tr_SessionID :: string
  tr_OfferSDP :: string
  tr_AnswerSDP :: string

datatype wire_error =
    ShortFrame
  | UnsupportedWireVersion byte
  | PeerIdRequired
  | WirePort
  | ChallengeLength nat
  | SessionIdLength
  | OfferLength
  | AnswerLength
  | BadClientID
  | WireRandomness
  | PrivateKeyRequired
  | KeyFailure
  | SignFailure
  | ResponseTooLarge
  | UnsupportedResponse
  | MalformedResponse

section \<open>Frames\<close>

definition EncodeFrame :: "byte \<Rightarrow> bytes \<Rightarrow> bytes" where
  "EncodeFrame frameType payload = ProtocolVersion # frameType # payload"

definition DecodeFrame :: "bytes \<Rightarrow> wire_error + Frame" where
  "DecodeFrame value =
     (if length value < 2 then Inl ShortFrame
      else if value ! 0 \<noteq> ProtocolVersion then Inl (UnsupportedWireVersion (value ! 0))
      else Inr \<lparr>frame_Type = value ! 1, frame_Payload = drop 2 value\<rparr>)"

section \<open>What is signed\<close>

definition RoomID :: "libp2p \<Rightarrow> peer_id \<Rightarrow> u16 \<Rightarrow> wire_error + string" where
  "RoomID lp peerID service =
     (if peerID = [] then Inl PeerIdRequired
      else if service = 0 then Inl WirePort
      else Inr (peer_String lp peerID @ '':'' @ show_nat (unat service)))"

definition AuthPayload :: "libp2p \<Rightarrow> peer_id \<Rightarrow> u16 \<Rightarrow> bytes \<Rightarrow> wire_error + bytes" where
  "AuthPayload lp peerID service challenge =
     (if length challenge \<noteq> 32 then Inl (ChallengeLength (length challenge))
      else case RoomID lp peerID service of
             Inl e \<Rightarrow> Inl e
           | Inr room \<Rightarrow>
               Inr (string_bytes (''p2p-netcat/trystero-auth/v1'' @ nul @ room @ nul) @ challenge))"

definition put_field :: "bytes \<Rightarrow> bytes" where
  "put_field field = put_uint32 (word_of_nat (length field)) @ field"

definition transcript_fields :: "libp2p \<Rightarrow> cryptography \<Rightarrow> peer_id \<Rightarrow> u16 \<Rightarrow> bytes \<Rightarrow> AuthTranscript \<Rightarrow> bytes list" where
  "transcript_fields lp cr peerID service challenge transcript =
     [string_bytes AuthDomainV2,
      [AuthResponseVersionV2],
      string_bytes ''client'',
      string_bytes ''server'',
      string_bytes (peer_String lp peerID),
      put_uint16 service,
      string_bytes (tr_SessionID transcript),
      challenge,
      sum_sha256 cr (string_bytes (tr_OfferSDP transcript)),
      sum_sha256 cr (string_bytes (tr_AnswerSDP transcript))]"

definition AuthPayloadV2 :: "libp2p \<Rightarrow> cryptography \<Rightarrow> peer_id \<Rightarrow> u16 \<Rightarrow> bytes \<Rightarrow> AuthTranscript \<Rightarrow>
    wire_error + bytes" where
  "AuthPayloadV2 lp cr peerID service challenge transcript =
     (if length challenge \<noteq> 32 then Inl (ChallengeLength (length challenge))
      else case RoomID lp peerID service of
             Inl e \<Rightarrow> Inl e
           | Inr room \<Rightarrow>
               if length (tr_SessionID transcript) < 8 \<or> 128 < length (tr_SessionID transcript)
               then Inl SessionIdLength
               else if tr_OfferSDP transcript = [] \<or> maxSDPBytes < length (tr_OfferSDP transcript)
               then Inl OfferLength
               else if tr_AnswerSDP transcript = [] \<or> maxSDPBytes < length (tr_AnswerSDP transcript)
               then Inl AnswerLength
               else Inr (concat (map put_field (transcript_fields lp cr peerID service challenge transcript))))"

section \<open>Challenges\<close>

definition alphanumeric :: "char \<Rightarrow> bool" where
  "alphanumeric c \<longleftrightarrow>
     (CHR ''0'' \<le> c \<and> c \<le> CHR ''9'') \<or> (CHR ''A'' \<le> c \<and> c \<le> CHR ''Z'') \<or> (CHR ''a'' \<le> c \<and> c \<le> CHR ''z'')"

definition clientIDPattern :: "string \<Rightarrow> bool" where
  "clientIDPattern s \<longleftrightarrow> length s = 20 \<and> list_all alphanumeric s"

definition CreateClientChallenge :: "random_source \<Rightarrow> string \<Rightarrow> wire_error + bytes" where
  "CreateClientChallenge rnd clientID =
     (if \<not> clientIDPattern clientID then Inl BadClientID
      else case rnd 32 of
             None \<Rightarrow> Inl WireRandomness
           | Some r \<Rightarrow> Inr (string_bytes clientID @ drop (length clientID) (array_of 32 r)))"

definition ClientIDFromChallenge :: "bytes \<Rightarrow> string" where
  "ClientIDFromChallenge challenge =
     (if length challenge \<noteq> 32 then []
      else let value = bytes_string (take 20 challenge)
           in if \<not> clientIDPattern value then [] else value)"

section \<open>Responses\<close>

definition encodeAuthResponse :: "byte \<Rightarrow> bytes \<Rightarrow> bytes \<Rightarrow> wire_error + bytes" where
  "encodeAuthResponse version publicKey signature =
     (if 0xffff < length publicKey \<or> 0xffff < length signature then Inl ResponseTooLarge
      else Inr (version # put_uint16 (word_of_nat (length publicKey)) @
                put_uint16 (word_of_nat (length signature)) @ publicKey @ signature))"

definition decodeAuthResponse :: "byte \<Rightarrow> bytes \<Rightarrow> wire_error + bytes \<times> bytes" where
  "decodeAuthResponse version value =
     (if length value < 5 \<or> value ! 0 \<noteq> version then Inl UnsupportedResponse
      else let publicLength = unat (get_uint16 (take 2 (drop 1 value)));
               signatureLength = unat (get_uint16 (take 2 (drop 3 value)))
           in if 5 + publicLength + signatureLength \<noteq> length value then Inl MalformedResponse
              else Inr (take publicLength (drop 5 value), drop (5 + publicLength) value))"

definition EncodeAuthResponse :: "bytes \<Rightarrow> bytes \<Rightarrow> wire_error + bytes" where
  "EncodeAuthResponse publicKey signature = encodeAuthResponse AuthResponseVersionV1 publicKey signature"

definition DecodeAuthResponse :: "bytes \<Rightarrow> wire_error + bytes \<times> bytes" where
  "DecodeAuthResponse value = decodeAuthResponse AuthResponseVersionV1 value"

section \<open>Signing and verifying\<close>

type_synonym private_key = bytes
type_synonym public_key = bytes

record key_ops =
  GetPublic :: "private_key \<Rightarrow> public_key"
  key_Sign :: "private_key \<Rightarrow> bytes \<Rightarrow> bytes option"
  key_Verify :: "public_key \<Rightarrow> bytes \<Rightarrow> bytes \<Rightarrow> bool option"
  MarshalPublicKey :: "public_key \<Rightarrow> bytes option"
  UnmarshalPublicKey :: "bytes \<Rightarrow> public_key option"
  IDFromPublicKey :: "public_key \<Rightarrow> peer_id option"

definition SignAuthResponse :: "libp2p \<Rightarrow> key_ops \<Rightarrow> private_key option \<Rightarrow> u16 \<Rightarrow> bytes \<Rightarrow> wire_error + bytes" where
  "SignAuthResponse lp ko privateKey service challenge =
     (case privateKey of None \<Rightarrow> Inl PrivateKeyRequired | Some sk \<Rightarrow>
     (case IDFromPublicKey ko (GetPublic ko sk) of None \<Rightarrow> Inl KeyFailure | Some peerID \<Rightarrow>
     (case AuthPayload lp peerID service challenge of Inl e \<Rightarrow> Inl e | Inr payload \<Rightarrow>
     (case key_Sign ko sk payload of None \<Rightarrow> Inl SignFailure | Some signature \<Rightarrow>
     (case MarshalPublicKey ko (GetPublic ko sk) of None \<Rightarrow> Inl KeyFailure | Some publicKey \<Rightarrow>
        EncodeAuthResponse publicKey signature)))))"

definition SignAuthResponseV2 :: "libp2p \<Rightarrow> cryptography \<Rightarrow> key_ops \<Rightarrow> private_key option \<Rightarrow> u16 \<Rightarrow> bytes \<Rightarrow>
    AuthTranscript \<Rightarrow> wire_error + bytes" where
  "SignAuthResponseV2 lp cr ko privateKey service challenge transcript =
     (case privateKey of None \<Rightarrow> Inl PrivateKeyRequired | Some sk \<Rightarrow>
     (case IDFromPublicKey ko (GetPublic ko sk) of None \<Rightarrow> Inl KeyFailure | Some peerID \<Rightarrow>
     (case AuthPayloadV2 lp cr peerID service challenge transcript of Inl e \<Rightarrow> Inl e | Inr payload \<Rightarrow>
     (case key_Sign ko sk payload of None \<Rightarrow> Inl SignFailure | Some signature \<Rightarrow>
     (case MarshalPublicKey ko (GetPublic ko sk) of None \<Rightarrow> Inl KeyFailure | Some publicKey \<Rightarrow>
        encodeAuthResponse AuthResponseVersionV2 publicKey signature)))))"

definition VerifyAuthResponse :: "libp2p \<Rightarrow> key_ops \<Rightarrow> bytes \<Rightarrow> peer_id \<Rightarrow> u16 \<Rightarrow> bytes \<Rightarrow> wire_error + bool" where
  "VerifyAuthResponse lp ko value expected service challenge =
     (case DecodeAuthResponse value of Inl e \<Rightarrow> Inl e | Inr (publicBytes, signature) \<Rightarrow>
     (case UnmarshalPublicKey ko publicBytes of None \<Rightarrow> Inl KeyFailure | Some publicKey \<Rightarrow>
     (case IDFromPublicKey ko publicKey of None \<Rightarrow> Inl KeyFailure | Some actual \<Rightarrow>
      if actual \<noteq> expected then Inr False
      else case AuthPayload lp expected service challenge of Inl e \<Rightarrow> Inl e | Inr payload \<Rightarrow>
        (case key_Verify ko publicKey payload signature of None \<Rightarrow> Inl SignFailure | Some valid \<Rightarrow> Inr valid))))"

definition VerifyAuthResponseV2 :: "libp2p \<Rightarrow> cryptography \<Rightarrow> key_ops \<Rightarrow> bytes \<Rightarrow> peer_id \<Rightarrow> u16 \<Rightarrow> bytes \<Rightarrow>
    AuthTranscript \<Rightarrow> wire_error + bool" where
  "VerifyAuthResponseV2 lp cr ko value expected service challenge transcript =
     (case decodeAuthResponse AuthResponseVersionV2 value of Inl e \<Rightarrow> Inl e | Inr (publicBytes, signature) \<Rightarrow>
     (case UnmarshalPublicKey ko publicBytes of None \<Rightarrow> Inl KeyFailure | Some publicKey \<Rightarrow>
     (case IDFromPublicKey ko publicKey of None \<Rightarrow> Inl KeyFailure | Some actual \<Rightarrow>
      if actual \<noteq> expected then Inr False
      else case AuthPayloadV2 lp cr expected service challenge transcript of Inl e \<Rightarrow> Inl e | Inr payload \<Rightarrow>
        (case key_Verify ko publicKey payload signature of None \<Rightarrow> Inl SignFailure | Some valid \<Rightarrow> Inr valid))))"

text \<open>Keys survive marshalling and a signature verifies under the signer's public key.\<close>

definition signature_ok :: "key_ops \<Rightarrow> bool" where
  "signature_ok ko \<longleftrightarrow>
     (\<forall>sk message signature. key_Sign ko sk message = Some signature \<longrightarrow>
        key_Verify ko (GetPublic ko sk) message signature = Some True) \<and>
     (\<forall>pk bs. MarshalPublicKey ko pk = Some bs \<longrightarrow> UnmarshalPublicKey ko bs = Some pk)"

section \<open>Responses and fields\<close>

lemma be_read_u16:
  assumes "length value \<ge> 5"
  shows "put_uint16 (get_uint16 (take 2 (drop 1 value))) = take 2 (drop 1 value)"
    and "put_uint16 (get_uint16 (take 2 (drop 3 value))) = take 2 (drop 3 value)"
  using assms by (simp_all add: be16.enc_dec)

lemma split_response:
  assumes "5 \<le> length value"
  shows "value = value ! 0 # take 2 (drop 1 value) @ take 2 (drop 3 value) @ drop 5 value"
proof -
  have "take 2 (drop 1 value) @ drop 3 value = drop 1 value" "take 2 (drop 3 value) @ drop 5 value = drop 3 value"
    using append_take_drop_id [of 2 "drop 1 value"] append_take_drop_id [of 2 "drop 3 value"] by simp_all
  moreover have "value ! 0 # drop 1 value = value" using assms by (cases "value") auto
  ultimately show ?thesis by metis
qed

lemma decode_encode_response:
  assumes "encodeAuthResponse version pk sig = Inr value"
  shows "decodeAuthResponse version value = Inr (pk, sig)"
proof -
  have len: "length pk \<le> 0xffff" "length sig \<le> 0xffff"
    and v: "value = version # put_uint16 (word_of_nat (length pk)) @ put_uint16 (word_of_nat (length sig)) @ pk @ sig"
    using assms by (auto simp: encodeAuthResponse_def split: if_splits)
  have "unat (word_of_nat (length pk) :: u16) = length pk" "unat (word_of_nat (length sig) :: u16) = length sig"
    using len by (simp_all add: unat_of_nat)
  moreover have "take 2 (drop 1 value) = put_uint16 (word_of_nat (length pk))"
    "take 2 (drop 3 value) = put_uint16 (word_of_nat (length sig))" and rest: "drop 5 value = pk @ sig"
    and len: "length value = 5 + length pk + length sig" "value ! 0 = version"
    by (simp_all add: v be16.width_enc)
  moreover have "drop (5 + length pk) value = sig"
    using arg_cong [OF rest, of "drop (length pk)"] by (simp add: add.commute)
  ultimately show ?thesis
    by (simp add: decodeAuthResponse_def Let_def be16.dec_enc)
qed

lemma encode_decode_response:
  assumes "decodeAuthResponse version value = Inr (pk, sig)"
  shows "encodeAuthResponse version pk sig = Inr value"
proof -
  let ?p = "unat (get_uint16 (take 2 (drop 1 value)))" and ?s = "unat (get_uint16 (take 2 (drop 3 value)))"
  have V: "5 \<le> length value" "value ! 0 = version" "5 + ?p + ?s = length value"
    "pk = take ?p (drop 5 value)" "sig = drop (5 + ?p) value"
    using assms by (auto simp: decodeAuthResponse_def Let_def split: if_splits)
  have ps: "length pk = ?p" "length sig = ?s" using V by simp_all
  have bound: "unat w \<le> 0xffff" for w :: u16
    using unsigned_less [of w, where ?'a = nat] by simp
  have "drop 5 value = pk @ sig"
    using V(4,5) append_take_drop_id [of ?p "drop 5 value"] by (simp add: add.commute)
  then have "value = version # put_uint16 (word_of_nat (length pk)) @ put_uint16 (word_of_nat (length sig)) @ pk @ sig"
    using split_response [OF V(1)] be_read_u16 [OF V(1)] V(2) ps by simp
  then show ?thesis using bound [of "get_uint16 (take 2 (drop 1 value))"] bound [of "get_uint16 (take 2 (drop 3 value))"]
    unfolding encodeAuthResponse_def ps by auto
qed

lemma put_field_split:
  assumes "put_field a @ x = put_field b @ y" and "length a < 2 ^ 32" and "length b < 2 ^ 32"
  shows "a = b \<and> x = y"
proof -
  have "(word_of_nat (length a) :: u32) = word_of_nat (length b)" and rest: "a @ x = b @ y"
    using assms(1) be32.split_enc [of "word_of_nat (length a)" "a @ x" "word_of_nat (length b)" "b @ y"]
    by (auto simp: put_field_def)
  then have "unat (word_of_nat (length a) :: u32) = unat (word_of_nat (length b) :: u32)" by simp
  then have "length a = length b" using assms(2,3) by (simp add: unat_of_nat)
  with rest show ?thesis by simp
qed

lemma put_fields_inject:
  "concat (map put_field xs) = concat (map put_field ys) \<Longrightarrow> length xs = length ys \<Longrightarrow>
   list_all (\<lambda>f. length f < 2 ^ 32) xs \<Longrightarrow> list_all (\<lambda>f. length f < 2 ^ 32) ys \<Longrightarrow> xs = ys"
proof (induction xs arbitrary: ys)
  case (Cons x xs)
  then obtain y ys' where ys: "ys = y # ys'" by (cases ys) auto
  have "x = y \<and> concat (map put_field xs) = concat (map put_field ys')"
    using Cons.prems ys put_field_split [of x _ y] by auto
  with Cons ys show ?case by auto
qed simp

lemma AuthPayloadV2D:
  assumes "AuthPayloadV2 lp cr peerID service challenge tr = Inr payload"
  shows "payload = concat (map put_field (transcript_fields lp cr peerID service challenge tr)) \<and>
    length challenge = 32 \<and> length (tr_SessionID tr) \<le> 128 \<and> peerID \<noteq> [] \<and> service \<noteq> 0"
  using assms by (auto simp: AuthPayloadV2_def RoomID_def split: if_splits)

lemma transcript_fields_short:
  assumes "hash_sizes cr" and "length (peer_String lp peerID) < 2 ^ 32"
    and "length challenge = 32" and "length (tr_SessionID tr) \<le> 128"
  shows "list_all (\<lambda>f. length f < 2 ^ 32) (transcript_fields lp cr peerID service challenge tr)"
  using assms by (simp add: transcript_fields_def hash_sizesD be16.width_enc AuthDomainV2_def)

lemma AuthPayloadV2_fields:
  assumes "hash_sizes cr" and "\<And>p. length (peer_String lp p) < 2 ^ 32"
    and "AuthPayloadV2 lp cr p service challenge tr = Inr payload" and "AuthPayloadV2 lp cr p' service' challenge' tr' = Inr payload"
  shows "transcript_fields lp cr p service challenge tr = transcript_fields lp cr p' service' challenge' tr'"
proof (rule put_fields_inject)
  note V = AuthPayloadV2D [OF assms(3)] and V' = AuthPayloadV2D [OF assms(4)]
  show "concat (map put_field (transcript_fields lp cr p service challenge tr)) =
      concat (map put_field (transcript_fields lp cr p' service' challenge' tr'))" using V V' by simp
  show "list_all (\<lambda>f. length f < 2 ^ 32) (transcript_fields lp cr p' service' challenge' tr')"
    using transcript_fields_short [OF assms(1,2)] V' by blast
  show "list_all (\<lambda>f. length f < 2 ^ 32) (transcript_fields lp cr p service challenge tr)"
    using transcript_fields_short [OF assms(1,2)] V by blast
qed (simp add: transcript_fields_def)

section \<open>Properties\<close>

text \<open>
  the response format is exact: a value decodes to a key and a signature if and only if it
  is their encoding, for every version byte.
\<close>

theorem auth_response_roundtrip:
  "decodeAuthResponse version value = Inr (pk, sig) \<longleftrightarrow> encodeAuthResponse version pk sig = Inr value"
  using decode_encode_response encode_decode_response by blast

text \<open>
  an honest server is accepted. The response that a key signs for a transcript verifies for
  the peer identifier of that key, the same service, challenge and transcript.
\<close>

theorem auth_response_verifies:
  assumes "signature_ok ko" and "IDFromPublicKey ko (GetPublic ko sk) = Some peerID"
    and "SignAuthResponseV2 lp cr ko (Some sk) service challenge transcript = Inr value"
  shows "VerifyAuthResponseV2 lp cr ko value peerID service challenge transcript = Inr True"
proof -
  obtain payload signature publicKey where P: "AuthPayloadV2 lp cr peerID service challenge transcript = Inr payload"
    and S: "key_Sign ko sk payload = Some signature" and M: "MarshalPublicKey ko (GetPublic ko sk) = Some publicKey"
    and E: "encodeAuthResponse AuthResponseVersionV2 publicKey signature = Inr value"
    using assms(2,3) by (auto simp: SignAuthResponseV2_def split: option.splits sum.splits)
  have "decodeAuthResponse AuthResponseVersionV2 value = Inr (publicKey, signature)"
    using decode_encode_response [OF E] .
  moreover have "UnmarshalPublicKey ko publicKey = Some (GetPublic ko sk)"
    "key_Verify ko (GetPublic ko sk) payload signature = Some True"
    using assms(1) M S by (auto simp: signature_ok_def)
  ultimately show ?thesis using assms(2) P by (simp add: VerifyAuthResponseV2_def)
qed

definition sample_keys :: key_ops where
  "sample_keys =
     \<lparr>GetPublic = \<lambda>sk. sk, key_Sign = \<lambda>sk m. Some (sk @ take 4 m), key_Verify = \<lambda>pk m s. Some (s = pk @ take 4 m),
      MarshalPublicKey = Some, UnmarshalPublicKey = Some, IDFromPublicKey = \<lambda>pk. Some (bytes_string pk)\<rparr>"

definition sample_transcript :: AuthTranscript where
  "sample_transcript = \<lparr>tr_SessionID = ''session-1'', tr_OfferSDP = ''offer'', tr_AnswerSDP = ''answer''\<rparr>"

theorem auth_response_verifies_witness:
  "\<exists>response. SignAuthResponseV2 sample_libp2p sample_cryptography sample_keys (Some [112]) 22 (replicate 32 1) sample_transcript =
      Inr response \<and>
    VerifyAuthResponseV2 sample_libp2p sample_cryptography sample_keys response ''p'' 22 (replicate 32 1) sample_transcript = Inr True"
proof -
  have ok: "signature_ok sample_keys" by (simp add: signature_ok_def sample_keys_def)
  have pk: "IDFromPublicKey sample_keys (GetPublic sample_keys [112]) = Some ''p''"
    by code_simp
  obtain response where V: "SignAuthResponseV2 sample_libp2p sample_cryptography sample_keys (Some [112]) 22 (replicate 32 1)
      sample_transcript = Inr response"
    by (simp add: SignAuthResponseV2_def sample_keys_def AuthPayloadV2_def RoomID_def encodeAuthResponse_def
        sample_transcript_def maxSDPBytes_def bytes_string_def char_of_byte_def)
  with auth_response_verifies [OF ok pk V] show ?thesis by blast
qed

text \<open>
  C12: a proof is bound to its session. Two version-2 payloads coincide only for the same
  printed peer identifier, service, signaling session, challenge and hashes of both session
  descriptions, and no version-2 payload is a version-1 payload, so that a version-1 signature
  never proves a version-2 transcript.
\<close>

theorem auth_payload_bound:
  assumes "hash_sizes cr" and "\<And>p. length (peer_String lp p) < 2 ^ 32"
    and "AuthPayloadV2 lp cr p service challenge tr = Inr payload"
  shows "(AuthPayloadV2 lp cr p' service' challenge' tr' = Inr payload \<longrightarrow>
      peer_String lp p = peer_String lp p' \<and> service = service' \<and> challenge = challenge' \<and>
      tr_SessionID tr = tr_SessionID tr' \<and>
      sum_sha256 cr (string_bytes (tr_OfferSDP tr)) = sum_sha256 cr (string_bytes (tr_OfferSDP tr')) \<and>
      sum_sha256 cr (string_bytes (tr_AnswerSDP tr)) = sum_sha256 cr (string_bytes (tr_AnswerSDP tr'))) \<and>
    AuthPayload lp p' service' challenge' \<noteq> Inr payload"
proof -
  note V = AuthPayloadV2D [OF assms(3)]
  have "transcript_fields lp cr p service challenge tr = transcript_fields lp cr p' service' challenge' tr'"
    if W: "AuthPayloadV2 lp cr p' service' challenge' tr' = Inr payload"
    using AuthPayloadV2_fields [OF assms W] .
  moreover have "hd payload = 0" using V by (simp add: transcript_fields_def put_field_def put_uint32_def be_put_def
      AuthDomainV2_def upt_rec)
  then have "AuthPayload lp p' service' challenge' \<noteq> Inr payload"
    by (auto simp: AuthPayload_def string_bytes_def byte_of_def split: sum.splits if_splits)
  ultimately show ?thesis by (auto simp: transcript_fields_def be16.enc_inj)
qed

theorem auth_payload_bound_witness:
  "\<exists>payload. AuthPayloadV2 (sample_libp2p\<lparr>peer_String := \<lambda>p. take 9 p\<rparr>) sample_cryptography ''p'' 22 (replicate 32 1) sample_transcript =
      Inr payload \<and>
    AuthPayload (sample_libp2p\<lparr>peer_String := \<lambda>p. take 9 p\<rparr>) ''p'' 22 (replicate 32 1) \<noteq> Inr payload"
proof -
  let ?lp = "sample_libp2p\<lparr>peer_String := \<lambda>p. take 9 p\<rparr>"
  obtain payload where P: "AuthPayloadV2 ?lp sample_cryptography ''p'' 22 (replicate 32 1) sample_transcript = Inr payload"
    by (simp add: AuthPayloadV2_def RoomID_def sample_transcript_def maxSDPBytes_def)
  have "length (peer_String ?lp p) < 2 ^ 32" for p by simp
  with auth_payload_bound [OF sample_hash_sizes _ P, of "''p''" 22 "replicate 32 1"] P show ?thesis by blast
qed

text \<open>
  frames and challenges. A data-channel message decodes to a frame exactly when it is that
  frame's encoding, and the client identifier that opens a challenge is read back from it.
\<close>

theorem frame_and_challenge_roundtrip:
  "(DecodeFrame value = Inr f \<longleftrightarrow> value = EncodeFrame (frame_Type f) (frame_Payload f)) \<and>
   (CreateClientChallenge rnd clientID = Inr challenge \<longrightarrow>
      ClientIDFromChallenge challenge = clientID \<and> length challenge = 32)"
proof -
  have "DecodeFrame value = Inr f \<longleftrightarrow> value = EncodeFrame (frame_Type f) (frame_Payload f)"
  proof (cases "length value < 2")
    case True
    then show ?thesis by (auto simp: DecodeFrame_def EncodeFrame_def)
  next
    case False
    then obtain a b r where "value = a # b # r" by (cases "value"; cases "tl value") auto
    then show ?thesis by (cases f) (auto simp: DecodeFrame_def EncodeFrame_def)
  qed
  moreover have "ClientIDFromChallenge challenge = clientID \<and> length challenge = 32"
    if "CreateClientChallenge rnd clientID = Inr challenge"
    using that
    by (auto simp: CreateClientChallenge_def ClientIDFromChallenge_def clientIDPattern_def Let_def
        split: option.splits if_splits)
  ultimately show ?thesis by blast
qed

theorem frame_and_challenge_roundtrip_witness:
  "ClientIDFromChallenge (string_bytes ''0123456789abcdefghij'' @ replicate 12 9) = ''0123456789abcdefghij''"
proof -
  have "clientIDPattern ''0123456789abcdefghij''" by code_simp
  then have "CreateClientChallenge (\<lambda>n. Some (replicate n 9)) ''0123456789abcdefghij'' =
      Inr (string_bytes ''0123456789abcdefghij'' @ replicate 12 9)"
    by (simp add: CreateClientChallenge_def)
  then show ?thesis using frame_and_challenge_roundtrip [of "[]" "\<lparr>frame_Type = 0, frame_Payload = []\<rparr>"] by blast
qed

end
