(* ===== verification/Native_Stream.thy ===== *)
theory Native_Stream
  imports Wire
begin

text \<open>
  \<open>src/nativewebrtc/stream.go\<close>: a byte stream over the frames of a WebRTC data channel, with a
  bounded receive queue and a flow-control window.

  The record \<open>nstream\<close> is the struct \<open>Stream\<close>. Mutexes make each method atomic except for the
  two condition waits: a \<open>Read\<close> that would wait is \<open>None\<close>, and a \<open>Write\<close> that waits for the
  window keeps the write lock, which the field \<open>ns_writer\<close> records with its payload. The
  function behind \<open>send\<close> is an argument, and every operation returns the frames it passed to
  it, those of the goroutines it starts included.
\<close>

definition flowWindowBytes :: int where "flowWindowBytes = 256 * 1024"
definition maxReadQueueBytes :: int where "maxReadQueueBytes = 1024 * 1024"

datatype stream_error =
    StreamIO io_error
  | StreamReset
  | RemoteAborted
  | QueueExceeded
  | UnexpectedFrame byte

record nstream =
  ns_readQueue :: "bytes list"
  ns_readQueued :: int
  ns_readOffset :: nat
  ns_readErr :: "stream_error option"
  ns_closedRead :: bool
  ns_writeClosed :: bool
  ns_closed :: bool
  ns_flowEnabled :: bool
  ns_inFlight :: int
  ns_writer :: "bytes option"

type_synonym sender = "(Frame \<Rightarrow> io_error option) option"

definition NewStream :: nstream where
  "NewStream =
     \<lparr>ns_readQueue = [], ns_readQueued = 0, ns_readOffset = 0, ns_readErr = None,
      ns_closedRead = False, ns_writeClosed = False, ns_closed = False,
      ns_flowEnabled = False, ns_inFlight = 0, ns_writer = None\<rparr>"

definition control_frame :: "string \<Rightarrow> Frame" where
  "control_frame value = \<lparr>frame_Type = FrameControl, frame_Payload = string_bytes value\<rparr>"

definition data_frame :: "bytes \<Rightarrow> Frame" where
  "data_frame payload = \<lparr>frame_Type = WFrameData, frame_Payload = payload\<rparr>"

definition sendControl :: "sender \<Rightarrow> string \<Rightarrow> Frame list \<times> io_error option" where
  "sendControl send value =
     (case send of
        None \<Rightarrow> ([], Some ErrClosedPipe)
      | Some f \<Rightarrow> ([control_frame value], f (control_frame value)))"

definition acknowledge :: "nstream \<Rightarrow> int \<Rightarrow> nstream" where
  "acknowledge s value =
     (let inFlight = ns_inFlight s - value
      in s\<lparr>ns_inFlight := (if inFlight < 0 then 0 else inFlight)\<rparr>)"

definition fail :: "nstream \<Rightarrow> stream_error \<Rightarrow> nstream" where
  "fail s err =
     (if ns_closed s then s
      else s\<lparr>ns_closed := True, ns_closedRead := True,
             ns_readErr := (if err = StreamIO EOF then ns_readErr s else Some err),
             ns_writeClosed := True\<rparr>)"

section \<open>Reading\<close>

definition stream_Read :: "sender \<Rightarrow> nstream \<Rightarrow> nat \<Rightarrow> (nstream \<times> Frame list \<times> (stream_error + bytes)) option" where
  "stream_Read send s n =
     (case ns_readQueue s of
        [] \<Rightarrow>
          if \<not> ns_closedRead s \<and> ns_readErr s = None then None
          else (case ns_readErr s of
                  Some e \<Rightarrow> Some (s, [], Inl e)
                | None \<Rightarrow> Some (s, [], Inl (StreamIO EOF)))
      | chunk # queue \<Rightarrow>
          (let copied = take n (drop (ns_readOffset s) chunk);
               readOffset = ns_readOffset s + length copied
           in if readOffset = length chunk
              then Some (s\<lparr>ns_readQueue := queue, ns_readQueued := ns_readQueued s - int (length chunk),
                           ns_readOffset := 0\<rparr>,
                         fst (sendControl send (''ack:'' @ show_nat (length chunk))), Inr copied)
              else Some (s\<lparr>ns_readOffset := readOffset\<rparr>, [], Inr copied)))"

section \<open>Writing\<close>

text \<open>Up to the flow-control wait; the write lock is held from here on.\<close>

definition write_begin :: "nstream \<Rightarrow> bytes \<Rightarrow> (nstream \<times> stream_error option) option" where
  "write_begin s value =
     (case ns_writer s of
        Some p \<Rightarrow> None
      | None \<Rightarrow>
          if ns_writeClosed s \<or> ns_closed s then Some (s, Some (StreamIO ErrClosedPipe))
          else Some (s\<lparr>ns_writer := Some value\<rparr>, None))"

definition window_full :: "nstream \<Rightarrow> bytes \<Rightarrow> bool" where
  "window_full s payload \<longleftrightarrow>
     ns_flowEnabled s \<and> 0 < ns_inFlight s \<and> flowWindowBytes < ns_inFlight s + int (length payload)"

text \<open>From the wait on: \<open>None\<close> while the condition keeps it waiting.\<close>

definition write_continue :: "sender \<Rightarrow> nstream \<Rightarrow> (nstream \<times> Frame list \<times> (stream_error + nat)) option" where
  "write_continue send s =
     (case ns_writer s of
        None \<Rightarrow> None
      | Some payload \<Rightarrow>
          if window_full s payload \<and> \<not> ns_closed s then None
          else let s1 = s\<lparr>ns_writer := None\<rparr>
               in if ns_closed s then Some (s1, [], Inl (StreamIO ErrClosedPipe))
                  else let s2 = (if ns_flowEnabled s then s1\<lparr>ns_inFlight := ns_inFlight s + int (length payload)\<rparr> else s1)
                       in case send of
                            None \<Rightarrow> None
                          | Some f \<Rightarrow>
                              (case f (data_frame payload) of
                                 Some e \<Rightarrow> Some (acknowledge s2 (int (length payload)), [data_frame payload], Inl (StreamIO e))
                               | None \<Rightarrow> Some (s2, [data_frame payload], Inr (length payload))))"

section \<open>Closing\<close>

definition CloseWrite :: "sender \<Rightarrow> nstream \<Rightarrow> (nstream \<times> Frame list \<times> io_error option) option" where
  "CloseWrite send s =
     (case ns_writer s of
        Some p \<Rightarrow> None
      | None \<Rightarrow>
          if ns_writeClosed s then Some (s, [], None)
          else case sendControl send ''eof'' of
                 (out, err) \<Rightarrow> Some (s\<lparr>ns_writeClosed := True\<rparr>, out, err))"

definition Close :: "sender \<Rightarrow> nstream \<Rightarrow> (nstream \<times> Frame list \<times> io_error option) option" where
  "Close send s =
     (case CloseWrite send s of
        None \<Rightarrow> None
      | Some (s', out, err) \<Rightarrow> Some (fail s' (StreamIO EOF), out, err))"

definition Reset :: "sender \<Rightarrow> nstream \<Rightarrow> nstream \<times> Frame list" where
  "Reset send s = (fail s StreamReset, fst (sendControl send ''abort''))"

section \<open>Receiving\<close>

definition receiveControl :: "sender \<Rightarrow> nstream \<Rightarrow> string \<Rightarrow> nstream \<times> Frame list" where
  "receiveControl send s control =
     (if control = ''eof'' then (s\<lparr>ns_closedRead := True\<rparr>, [])
      else if control = ''abort'' then (fail s RemoteAborted, [])
      else if control = ''flow:1'' then (s\<lparr>ns_flowEnabled := True\<rparr>, [])
      else if control = ''resume'' then (s\<lparr>ns_inFlight := 0\<rparr>, fst (sendControl send ''flow:1''))
      else if HasPrefix control ''ack:'' then
        (case Atoi (TrimPrefix control ''ack:'') of
           None \<Rightarrow> (s, [])
         | Some value \<Rightarrow> if 0 < value then (acknowledge s value, []) else (s, []))
      else if control = ''ping'' then (s, fst (sendControl send ''pong''))
      else (s, []))"

definition Receive :: "sender \<Rightarrow> nstream \<Rightarrow> Frame \<Rightarrow> nstream \<times> Frame list \<times> stream_error option" where
  "Receive send s frame =
     (if frame_Type frame = WFrameData then
        if \<not> ns_closedRead s \<and> \<not> ns_closed s then
          if maxReadQueueBytes - ns_readQueued s < int (length (frame_Payload frame))
          then (fail s QueueExceeded, [], Some QueueExceeded)
          else (s\<lparr>ns_readQueue := ns_readQueue s @ [frame_Payload frame],
                  ns_readQueued := ns_readQueued s + int (length (frame_Payload frame))\<rparr>, [], None)
        else (s, [], None)
      else if frame_Type frame = FrameControl then
        (case receiveControl send s (bytes_string (frame_Payload frame)) of (s', out) \<Rightarrow> (s', out, None))
      else (s, [], Some (UnexpectedFrame (frame_Type frame))))"

definition Reconnected :: "sender \<Rightarrow> nstream \<Rightarrow> nstream \<times> Frame list \<times> io_error option" where
  "Reconnected send s =
     (case sendControl send ''resume'' of
        (out, Some e) \<Rightarrow> (s\<lparr>ns_inFlight := 0\<rparr>, out, Some e)
      | (out, None) \<Rightarrow>
          (case sendControl send ''flow:1'' of
             (out', err) \<Rightarrow> (s\<lparr>ns_inFlight := 0\<rparr>, out @ out', err)))"

definition keepAlive_tick :: "sender \<Rightarrow> nstream \<Rightarrow> Frame list" where
  "keepAlive_tick send s = (if ns_closed s then [] else fst (sendControl send ''ping''))"

section \<open>One stream\<close>

text \<open>Every operation of the program on a stream, in any order, with any outcome of \<open>send\<close>.\<close>

inductive ns_step :: "nstream \<Rightarrow> nstream \<Rightarrow> bool" where
  ns_read: "stream_Read send s n = Some (s', out, res) \<Longrightarrow> ns_step s s'"
| ns_write: "write_begin s value = Some (s', err) \<Longrightarrow> ns_step s s'"
| ns_continue: "write_continue send s = Some (s', out, res) \<Longrightarrow> ns_step s s'"
| ns_close_write: "CloseWrite send s = Some (s', out, err) \<Longrightarrow> ns_step s s'"
| ns_close: "Close send s = Some (s', out, err) \<Longrightarrow> ns_step s s'"
| ns_reset: "Reset send s = (s', out) \<Longrightarrow> ns_step s s'"
| ns_receive: "Receive send s frame = (s', out, err) \<Longrightarrow> ns_step s s'"
| ns_reconnected: "Reconnected send s = (s', out, err) \<Longrightarrow> ns_step s s'"

definition queue_ok :: "nstream \<Rightarrow> bool" where
  "queue_ok s \<longleftrightarrow>
     ns_readQueued s = int (length (concat (ns_readQueue s))) \<and> ns_readQueued s \<le> maxReadQueueBytes \<and>
     (case ns_readQueue s of
        [] \<Rightarrow> ns_readOffset s = 0
      | chunk # queue \<Rightarrow> ns_readOffset s = 0 \<or> ns_readOffset s < length chunk)"

definition ns_inv :: "nstream \<Rightarrow> bool" where
  "ns_inv s \<longleftrightarrow> queue_ok s \<and> 0 \<le> ns_inFlight s \<and> (ns_closed s \<longrightarrow> ns_closedRead s \<and> ns_writeClosed s)"

lemma queue_ok_update [simp]:
  "queue_ok (s\<lparr>ns_inFlight := i\<rparr>) = queue_ok s" "queue_ok (s\<lparr>ns_writer := w\<rparr>) = queue_ok s"
  "queue_ok (s\<lparr>ns_closedRead := b\<rparr>) = queue_ok s" "queue_ok (s\<lparr>ns_writeClosed := b\<rparr>) = queue_ok s"
  "queue_ok (s\<lparr>ns_flowEnabled := b\<rparr>) = queue_ok s" "queue_ok (s\<lparr>ns_closed := b\<rparr>) = queue_ok s"
  "queue_ok (s\<lparr>ns_readErr := e\<rparr>) = queue_ok s"
  by (simp_all add: queue_ok_def split: list.split)

lemma queue_ok_fail [simp]: "queue_ok (fail s e) = queue_ok s"
  by (cases "ns_closed s") (simp_all add: fail_def)

lemma ns_inv_fail: "ns_inv s \<Longrightarrow> ns_inv (fail s e)"
  by (simp add: ns_inv_def) (simp add: fail_def)

lemma ns_inv_acknowledge: "ns_inv s \<Longrightarrow> ns_inv (acknowledge s n)"
  by (simp add: ns_inv_def acknowledge_def Let_def)

text \<open>A read in full: what it returns and what stays in the queue.\<close>

lemma stream_Read_Cons:
  assumes "ns_readQueue s = chunk # queue"
  shows "stream_Read send s n =
    (let copied = take n (drop (ns_readOffset s) chunk)
     in if ns_readOffset s + length copied = length chunk
        then Some (s\<lparr>ns_readQueue := queue, ns_readQueued := ns_readQueued s - int (length chunk), ns_readOffset := 0\<rparr>,
                   fst (sendControl send (''ack:'' @ show_nat (length chunk))), Inr copied)
        else Some (s\<lparr>ns_readOffset := ns_readOffset s + length copied\<rparr>, [], Inr copied))"
  using assms by (simp add: stream_Read_def Let_def)

lemma stream_Read_Nil:
  "ns_readQueue s = [] \<Longrightarrow> stream_Read send s n = Some (s', out, res) \<Longrightarrow>
   s' = s \<and> out = [] \<and> (\<exists>e. res = Inl e) \<and> ns_closedRead s \<or> s' = s \<and> out = [] \<and> (\<exists>e. res = Inl e) \<and> ns_readErr s \<noteq> None"
  by (auto simp: stream_Read_def split: option.splits if_splits)

lemma queue_ok_read:
  assumes "queue_ok s" and "stream_Read send s n = Some (s', out, res)"
  shows "queue_ok s'"
proof (cases "ns_readQueue s")
  case Nil
  with assms stream_Read_Nil [OF Nil assms(2)] show ?thesis by auto
next
  case (Cons chunk queue)
  define k where "k = ns_readOffset s + length (take n (drop (ns_readOffset s) chunk))"
  have "ns_readOffset s \<le> length chunk" using assms(1) Cons by (auto simp: queue_ok_def)
  then have off: "k \<le> length chunk" by (simp add: k_def)
  show ?thesis
  proof (cases "k = length chunk")
    case True
    then have "s' = s\<lparr>ns_readQueue := queue, ns_readQueued := ns_readQueued s - int (length chunk), ns_readOffset := 0\<rparr>"
      using assms(2) unfolding stream_Read_Cons [OF Cons] Let_def k_def [symmetric] by simp
    with assms(1) Cons show ?thesis by (simp add: queue_ok_def split: list.split)
  next
    case False
    then have "s' = s\<lparr>ns_readOffset := k\<rparr>"
      using assms(2) unfolding stream_Read_Cons [OF Cons] Let_def k_def [symmetric] by simp
    with False off show ?thesis using assms(1) Cons by (simp add: queue_ok_def)
  qed
qed

lemma stream_Read_frame:
  assumes "stream_Read send s n = Some (s', out, res)"
  shows "ns_inFlight s' = ns_inFlight s \<and> ns_closed s' = ns_closed s \<and> ns_closedRead s' = ns_closedRead s \<and>
    ns_writeClosed s' = ns_writeClosed s \<and> ns_flowEnabled s' = ns_flowEnabled s \<and> ns_writer s' = ns_writer s"
proof (cases "ns_readQueue s")
  case Nil
  with stream_Read_Nil [OF Nil assms] show ?thesis by auto
next
  case (Cons chunk queue)
  with assms show ?thesis by (auto simp: stream_Read_Cons Let_def split: if_splits)
qed

lemma ns_inv_read:
  assumes "ns_inv s" and "stream_Read send s n = Some (s', out, res)"
  shows "ns_inv s'"
  using assms(1) queue_ok_read [OF _ assms(2)] stream_Read_frame [OF assms(2)] by (simp add: ns_inv_def)

text \<open>A write that is let through.\<close>

lemma write_continueE:
  assumes "write_continue send s = Some (s', out, res)"
  obtains (closed) payload where "ns_writer s = Some payload" and "ns_closed s" and "s' = s\<lparr>ns_writer := None\<rparr>"
      and "out = []" and "res = Inl (StreamIO ErrClosedPipe)"
    | (sent) payload where "ns_writer s = Some payload" and "\<not> ns_closed s" and "\<not> window_full s payload"
      and "s' = s\<lparr>ns_writer := None, ns_inFlight := ns_inFlight s + (if ns_flowEnabled s then int (length payload) else 0)\<rparr>"
      and "out = [data_frame payload]" and "res = Inr (length payload)"
    | (failed) payload e where "ns_writer s = Some payload" and "\<not> ns_closed s"
      and "s' = acknowledge (s\<lparr>ns_writer := None, ns_inFlight := ns_inFlight s + (if ns_flowEnabled s then int (length payload) else 0)\<rparr>)
                  (int (length payload))"
      and "out = [data_frame payload]" and "res = Inl (StreamIO e)"
proof -
  obtain payload where w: "ns_writer s = Some payload"
    using assms by (cases "ns_writer s") (simp_all add: write_continue_def)
  let ?s2 = "s\<lparr>ns_writer := None, ns_inFlight := ns_inFlight s + (if ns_flowEnabled s then int (length payload) else 0)\<rparr>"
  have s2: "(if ns_flowEnabled s then s\<lparr>ns_writer := None\<rparr>\<lparr>ns_inFlight := ns_inFlight s + int (length payload)\<rparr>
      else s\<lparr>ns_writer := None\<rparr>) = ?s2" by simp
  show ?thesis
  proof (cases "ns_closed s")
    case True
    with assms w show ?thesis by (intro closed [of payload]) (auto simp: write_continue_def Let_def)
  next
    case False
    have full: "\<not> window_full s payload" using assms w False by (auto simp: write_continue_def)
    obtain f where f: "send = Some f" using assms w False full by (cases send) (auto simp: write_continue_def Let_def)
    show ?thesis
    proof (cases "f (data_frame payload)")
      case None
      with assms w False full f s2 show ?thesis by (intro sent [of payload]) (simp_all add: write_continue_def Let_def)
    next
      case (Some e)
      with assms w False full f s2 show ?thesis by (intro failed [of payload e]) (simp_all add: write_continue_def Let_def)
    qed
  qed
qed

lemma ns_inv_continue: "ns_inv s \<Longrightarrow> write_continue send s = Some (s', out, res) \<Longrightarrow> ns_inv s'"
  by (erule write_continueE)
    (auto simp: ns_inv_def acknowledge_def Let_def)

lemma receiveControl_cases:
  assumes "receiveControl send s c = (s', out)"
  shows "s' \<in> {s, s\<lparr>ns_closedRead := True\<rparr>, fail s RemoteAborted, s\<lparr>ns_flowEnabled := True\<rparr>,
      s\<lparr>ns_inFlight := 0\<rparr>} \<union> acknowledge s ` {0<..}"
proof -
  have "s' = fst (receiveControl send s c)" using assms by simp
  also have "\<dots> \<in> {s, s\<lparr>ns_closedRead := True\<rparr>, fail s RemoteAborted, s\<lparr>ns_flowEnabled := True\<rparr>,
      s\<lparr>ns_inFlight := 0\<rparr>} \<union> acknowledge s ` {0<..}"
    unfolding receiveControl_def
    by (simp only: fst_conv insert_iff Un_iff image_iff greaterThan_iff simp_thms split: if_split option.split) blast
  finally show ?thesis .
qed

lemma ns_inv_control:
  assumes "ns_inv s" and "receiveControl send s c = (s', out)"
  shows "ns_inv s'"
proof -
  have "ns_inv (s\<lparr>ns_closedRead := True\<rparr>)" "ns_inv (s\<lparr>ns_flowEnabled := True\<rparr>)" "ns_inv (s\<lparr>ns_inFlight := 0\<rparr>)"
    using assms(1) by (simp_all add: ns_inv_def)
  with receiveControl_cases [OF assms(2)] show ?thesis
    using assms(1) ns_inv_fail ns_inv_acknowledge by blast
qed

lemma ns_inv_receive:
  assumes "ns_inv s" and "Receive send s f = (s', out, err)"
  shows "ns_inv s'"
proof (cases "frame_Type f = WFrameData")
  case True
  then consider "s' = s" | "s' = fail s QueueExceeded"
    | "s' = s\<lparr>ns_readQueue := ns_readQueue s @ [frame_Payload f],
              ns_readQueued := ns_readQueued s + int (length (frame_Payload f))\<rparr>"
      "int (length (frame_Payload f)) \<le> maxReadQueueBytes - ns_readQueued s"
    using assms(2) by (fastforce simp: Receive_def split: if_splits)
  then show ?thesis
  proof cases
    case 3
    with assms(1) show ?thesis
      by (auto simp: ns_inv_def queue_ok_def split: list.splits)
  qed (use assms(1) ns_inv_fail in auto)
next
  case False
  with assms show ?thesis
    using ns_inv_control by (auto simp: Receive_def split: if_splits prod.splits)
qed

lemma ns_inv_CloseWrite: "ns_inv s \<Longrightarrow> CloseWrite send s = Some (s', out, err) \<Longrightarrow> ns_inv s'"
  by (auto simp: CloseWrite_def ns_inv_def split: option.splits if_splits prod.splits)

lemma ns_inv_step: "ns_step s s' \<Longrightarrow> ns_inv s \<Longrightarrow> ns_inv s'"
proof (induction rule: ns_step.induct)
  case (ns_write s v s' err)
  then show ?case by (auto simp: write_begin_def ns_inv_def split: option.splits if_splits)
next
  case (ns_close send s s' out err)
  then show ?case using ns_inv_CloseWrite ns_inv_fail by (fastforce simp: Close_def split: option.splits)
next
  case (ns_reset send s s' out)
  then show ?case using ns_inv_fail by (auto simp: Reset_def)
next
  case (ns_reconnected send s s' out err)
  then show ?case
    by (auto simp: Reconnected_def ns_inv_def split: prod.splits option.splits)
next
  case (ns_read send s n s' out res)
  then show ?case using ns_inv_read by simp
next
  case (ns_continue send s s' out res)
  then show ?case using ns_inv_continue by simp
next
  case (ns_close_write send s s' out err)
  then show ?case using ns_inv_CloseWrite by simp
next
  case (ns_receive send s frame s' out err)
  then show ?case using ns_inv_receive by simp
qed

lemma ns_inv_NewStream: "ns_inv NewStream"
  by (simp add: ns_inv_def queue_ok_def NewStream_def maxReadQueueBytes_def)

interpretation ns: invariant_system ns_step "\<lambda>s. s = NewStream" ns_inv
  by unfold_locales (auto simp: ns_inv_NewStream ns_inv_step)

section \<open>The byte stream of the receiver\<close>

text \<open>The bytes received and not yet read: the abstraction of the queue to a byte stream.\<close>

definition pending :: "nstream \<Rightarrow> bytes" where
  "pending s = drop (ns_readOffset s) (concat (ns_readQueue s))"




section \<open>One direction of a connection\<close>

text \<open>
  A writing end, a reading end, the ordered data channel between them and the control frames on
  their way back, which goroutines may reorder. \<open>lk_sent\<close> and \<open>lk_got\<close> are the bytes written
  and read so far, \<open>lk_early\<close> counts the bytes written before the peer's \<open>flow:1\<close> arrived. The
  parameters bound one write (\<open>W\<close>) and the early bytes (\<open>E\<close>).
\<close>

record link =
  lk_a :: nstream
  lk_b :: nstream
  lk_data :: "Frame list"
  lk_back :: "Frame list"
  lk_sent :: bytes
  lk_got :: bytes
  lk_early :: int

definition up :: sender where
  "up = Some (\<lambda>_. None)"



text \<open>Control frames of a connection that is not being torn down.\<close>

definition flow_frame :: "Frame \<Rightarrow> bool" where
  "flow_frame f \<longleftrightarrow> f = control_frame ''flow:1''"

definition ack_frame :: "nat \<Rightarrow> Frame \<Rightarrow> bool" where
  "ack_frame n f \<longleftrightarrow> f = control_frame (''ack:'' @ show_nat n) \<and> n < 2 ^ 63"

definition data_bytes :: "Frame list \<Rightarrow> bytes" where
  "data_bytes fs = concat (map frame_Payload (filter (\<lambda>f. frame_Type f = WFrameData) fs))"

definition ack_value :: "Frame \<Rightarrow> int" where
  "ack_value f =
     (case Atoi (TrimPrefix (bytes_string (frame_Payload f)) ''ack:'') of None \<Rightarrow> 0 | Some v \<Rightarrow> v)"

definition outstanding :: "link \<Rightarrow> int" where
  "outstanding l = int (length (data_bytes (lk_data l))) + ns_readQueued (lk_b l) + sum_list (map ack_value (lk_back l))"

definition link_inv :: "int \<Rightarrow> int \<Rightarrow> link \<Rightarrow> bool" where
  "link_inv W E l \<longleftrightarrow>
     queue_ok (lk_b l) \<and> \<not> ns_closed (lk_b l) \<and> \<not> ns_closedRead (lk_b l) \<and>
     \<not> ns_closed (lk_a l) \<and>
     list_all (\<lambda>f. frame_Type f = WFrameData \<or> flow_frame f) (lk_data l) \<and>
     list_all (\<lambda>f. flow_frame f \<or> (\<exists>n. ack_frame n f)) (lk_back l) \<and>
     lk_sent l = lk_got l @ pending (lk_b l) @ data_bytes (lk_data l) \<and>
     (\<forall>p. ns_writer (lk_a l) = Some p \<longrightarrow> int (length p) \<le> W) \<and>
     0 \<le> ns_inFlight (lk_a l) \<and> ns_inFlight (lk_a l) \<le> max flowWindowBytes W \<and>
     lk_early l \<le> E \<and>
     ns_inFlight (lk_a l) \<le> outstanding l \<and> outstanding l \<le> ns_inFlight (lk_a l) + lk_early l"

lemma data_bytes_simps [simp]:
  "data_bytes [] = []"
  "data_bytes (f # fs) = (if frame_Type f = WFrameData then frame_Payload f else []) @ data_bytes fs"
  "data_bytes (fs @ gs) = data_bytes fs @ data_bytes gs"
  by (simp_all add: data_bytes_def)

lemma control_type [simp]: "frame_Type (control_frame c) = FrameControl" "frame_Type (data_frame p) = WFrameData"
  "frame_Payload (data_frame p) = p" "FrameControl \<noteq> WFrameData"
  by (simp_all add: control_frame_def data_frame_def FrameControl_def WFrameData_def)

lemma control_payload [simp]: "bytes_string (frame_Payload (control_frame c)) = c"
  by (simp add: control_frame_def)

lemma up_sendControl [simp]: "sendControl up c = ([control_frame c], None)"
  by (simp add: sendControl_def up_def)

lemma ack_value_ack: "ack_frame n f \<Longrightarrow> ack_value f = int n"
  using TrimPrefix_append [of "''ack:''" "show_nat n"] by (auto simp: ack_frame_def ack_value_def Atoi_show_nat)

lemma ack_value_flow: "flow_frame f \<Longrightarrow> ack_value f = 0"
proof -
  have "Atoi (TrimPrefix ''flow:1'' ''ack:'') = None" by code_simp
  then show "flow_frame f \<Longrightarrow> ack_value f = 0" by (simp add: flow_frame_def ack_value_def)
qed



lemma ack_value_nonneg: "flow_frame f \<or> (\<exists>n. ack_frame n f) \<Longrightarrow> 0 \<le> ack_value f"
  using ack_value_ack ack_value_flow by fastforce

lemma acks_nonneg: "list_all (\<lambda>f. flow_frame f \<or> (\<exists>n. ack_frame n f)) fs \<Longrightarrow> 0 \<le> sum_list (map ack_value fs)"
  using ack_value_nonneg by (fastforce simp: list_all_iff intro!: sum_list_nonneg)

lemma queued_nonneg: "queue_ok s \<Longrightarrow> 0 \<le> ns_readQueued s"
  by (simp add: queue_ok_def)

lemma outstanding_nonneg: "link_inv W E l \<Longrightarrow> 0 \<le> outstanding l"
  using acks_nonneg [of "lk_back l"] queued_nonneg [of "lk_b l"] by (simp add: link_inv_def outstanding_def)











section \<open>Properties\<close>







definition window_payload :: bytes where
  "window_payload = replicate (nat flowWindowBytes) 0"


text \<open>The peer's \<open>flow:1\<close> arrives, a payload of the size of the window is sent, one more byte waits.\<close>

definition full_link :: link where
  "full_link =
     \<lparr>lk_a = NewStream\<lparr>ns_flowEnabled := True, ns_inFlight := flowWindowBytes, ns_writer := Some [1]\<rparr>,
      lk_b = NewStream, lk_data = [control_frame ''flow:1'', data_frame window_payload], lk_back = [],
      lk_sent = window_payload, lk_got = [], lk_early = 0\<rparr>"



text \<open>
  the state of a stream stays consistent under every sequence of its operations, whatever
  frames the peer sends and however \<open>send\<close> ends: the queued count is the number of queued bytes
  and within 1 MiB, the read offset lies inside the first chunk, the bytes in flight are never
  negative, and a closed stream is closed in both directions.
\<close>

theorem stream_invariant:
  assumes "ns_step\<^sup>*\<^sup>* NewStream s"
  shows "ns_readQueued s = int (length (concat (ns_readQueue s))) \<and> ns_readQueued s \<le> maxReadQueueBytes \<and>
    ns_readOffset s \<le> length (concat (take 1 (ns_readQueue s))) \<and> 0 \<le> ns_inFlight s \<and>
    (ns_closed s \<longrightarrow> ns_closedRead s \<and> ns_writeClosed s)"
  using ns.reachable_inv [OF refl assms] by (auto simp: ns_inv_def queue_ok_def split: list.splits)

theorem stream_invariant_witness:
  "ns_readQueued (NewStream\<lparr>ns_readQueue := [[7]], ns_readQueued := 1\<rparr>) =
     int (length (concat (ns_readQueue (NewStream\<lparr>ns_readQueue := [[7]], ns_readQueued := 1\<rparr>))))"
proof -
  have "Receive None NewStream (data_frame [7]) = (NewStream\<lparr>ns_readQueue := [[7]], ns_readQueued := 1\<rparr>, [], None)"
    by (simp add: Receive_def NewStream_def maxReadQueueBytes_def)
  then have "ns_step\<^sup>*\<^sup>* NewStream (NewStream\<lparr>ns_readQueue := [[7]], ns_readQueued := 1\<rparr>)"
    using ns_receive r_into_rtranclp by metis
  from stream_invariant [OF this] show ?thesis by blast
qed

text \<open>
  C34: who can release a waiting writer. While a \<open>Write\<close> waits for the window it holds the write
  lock: \<open>CloseWrite\<close> and \<open>Close\<close> cannot proceed, so a peer that stops acknowledging keeps \<open>Close\<close>
  waiting; \<open>Reset\<close> and the peer's \<open>abort\<close> end the wait, and the write returns a closed pipe.
\<close>

theorem close_waits_for_writer:
  assumes "ns_writer s = Some payload" and "window_full s payload" and "\<not> ns_closed s"
  shows "write_continue send s = None \<and> CloseWrite send s = None \<and> Close send s = None \<and>
    (\<forall>s'. s' \<in> {fst (Reset send s), fst (Receive send s (control_frame ''abort''))} \<longrightarrow>
       (\<exists>s''. write_continue send s' = Some (s'', [], Inl (StreamIO ErrClosedPipe)) \<and> ns_writer s'' = None \<and>
              Close send s'' = Some (s'', [], None)))"
proof -
  have "Receive send s (control_frame ''abort'') = (fail s RemoteAborted, [], None)"
    by (simp add: Receive_def receiveControl_def)
  then show ?thesis
    using assms by (auto simp: write_continue_def CloseWrite_def Close_def Reset_def fail_def Let_def)
qed

theorem close_waits_for_writer_witness:
  "window_full (lk_a full_link) [1] \<and> Close up (lk_a full_link) = None"
proof -
  have "ns_writer (lk_a full_link) = Some [1]" "window_full (lk_a full_link) [1]" "\<not> ns_closed (lk_a full_link)"
    by (simp_all add: full_link_def NewStream_def window_full_def flowWindowBytes_def)
  with close_waits_for_writer show ?thesis by blast
qed

text \<open>
  the receive limit counts bytes, not frames. A peer can queue any number of empty data
  frames: for every \<open>n\<close> a state with \<open>n\<close> queued chunks and zero queued bytes is reachable.
\<close>

theorem empty_frames_unbounded:
  "\<exists>s. ns_step\<^sup>*\<^sup>* NewStream s \<and> length (ns_readQueue s) = n \<and> ns_readQueued s = 0 \<and> \<not> ns_closed s \<and> \<not> ns_closedRead s"
proof (induction n)
  case 0
  show ?case by (rule exI [of _ NewStream]) (simp add: NewStream_def)
next
  case (Suc n)
  then obtain s where s: "ns_step\<^sup>*\<^sup>* NewStream s" "length (ns_readQueue s) = n" "ns_readQueued s = 0"
    "\<not> ns_closed s" "\<not> ns_closedRead s" by blast
  let ?s = "s\<lparr>ns_readQueue := ns_readQueue s @ [[]], ns_readQueued := 0\<rparr>"
  have "Receive None s (data_frame []) = (?s, [], None)"
    using s by (simp add: Receive_def maxReadQueueBytes_def)
  then have "ns_step\<^sup>*\<^sup>* NewStream ?s" using s(1) ns_receive rtranclp.rtrancl_into_rtrancl by metis
  with s show ?case by (intro exI [of _ ?s]) simp
qed

end
