(* ===== verification/Route_Record.thy ===== *)
theory Route_Record
  imports Wire
begin

text \<open>
  \<open>src/protocol/routerecord/routerecord.go\<close>: the signed record by which a listener publishes
  its addresses. A record is normalised (services and addresses sorted and without duplicates),
  encoded as canonical CBOR, signed, and wrapped in an envelope that carries the public key.

  Addresses are optional values because the slices may hold nil interfaces. The map that
  \<open>uniqueAddresses\<close> builds is a function from the printed address to the last value printed so.
\<close>

definition RecordVersion :: u64 where "RecordVersion = 1"
definition RecordEnvelopeVersion :: u64 where "RecordEnvelopeVersion = 1"
definition DefaultTTL :: duration where "DefaultTTL = 180 * Second"
definition MaxPayloadBytes :: nat where "MaxPayloadBytes = 64 * 1024"
definition MaxAddresses :: nat where "MaxAddresses = 64"
definition MaxServices :: nat where "MaxServices = 64"
definition CapabilityTCP :: u64 where "CapabilityTCP = 1"
definition CapabilityQUIC :: u64 where "CapabilityQUIC = 2"
definition CapabilityWS :: u64 where "CapabilityWS = 4"
definition CapabilityWSS :: u64 where "CapabilityWSS = 8"
definition CapabilityWebTrans :: u64 where "CapabilityWebTrans = 16"
definition CapabilityWebRTC :: u64 where "CapabilityWebRTC = 32"
definition CapabilityRelay :: u64 where "CapabilityRelay = 64"

definition allCapabilities :: u64 where
  "allCapabilities = CapabilityTCP OR CapabilityQUIC OR CapabilityWS OR CapabilityWSS OR
     CapabilityWebTrans OR CapabilityWebRTC OR CapabilityRelay"

record Record =
  rr_Version :: u64
  rr_PeerID :: peer_id
  rr_Sequence :: u64
  rr_IssuedAt :: u64
  rr_ExpiresAt :: u64
  rr_Services :: "u16 list"
  rr_Addresses :: "multiaddr option list"
  rr_RelayReservations :: "multiaddr option list"
  rr_Capabilities :: u64

record VerifyOptions =
  vo_ExpectedPeerID :: peer_id
  vo_ExpectedService :: u16
  vo_Now :: go_time
  vo_ClockSkew :: duration

datatype route_error =
    RecordKey
  | RecordVersionUnsupported u64
  | RecordPeerIdRequired
  | RecordExpiration
  | RecordServices
  | RecordAddresses
  | RecordCapabilities u64
  | RecordCBOR
  | RecordUnknownField u64
  | RecordMissingFields
  | RecordField
  | RecordPeerId
  | RecordPort
  | RecordMultiaddr
  | RecordNotDeterministic
  | RecordSigning
  | RecordEncoding
  | EnvelopeVersionUnsupported
  | EnvelopePayload
  | EnvelopeKeyOrSignature
  | SignatureInvalid
  | PeerIdMismatch
  | OtherPeer
  | ServiceNotAdvertised
  | IssuedInFuture
  | RecordExpired
  | EnvelopeNotCanonical

section \<open>Normal form\<close>

fun unique_services :: "u16 list \<Rightarrow> u16 list \<Rightarrow> u16 list" where
  "unique_services seen [] = []"
| "unique_services seen (value # values) =
     (if value = 0 then unique_services seen values
      else if value \<in> set seen then unique_services seen values
      else value # unique_services (value # seen) values)"

definition uniqueServices :: "u16 list \<Rightarrow> u16 list" where
  "uniqueServices values = sort (unique_services [] values)"

fun seen_addresses :: "libp2p \<Rightarrow> (string \<rightharpoonup> multiaddr) \<Rightarrow> multiaddr option list \<Rightarrow> (string \<rightharpoonup> multiaddr)" where
  "seen_addresses lp seen [] = seen"
| "seen_addresses lp seen (None # values) = seen_addresses lp seen values"
| "seen_addresses lp seen (Some value # values) = seen_addresses lp (seen(ma_String lp value \<mapsto> value)) values"

definition address_keys :: "libp2p \<Rightarrow> multiaddr option list \<Rightarrow> string list" where
  "address_keys lp values = remdups (map (ma_String lp) (List.map_filter id values))"

definition uniqueAddresses :: "libp2p \<Rightarrow> multiaddr option list \<Rightarrow> multiaddr option list" where
  "uniqueAddresses lp values =
     map (\<lambda>key. seen_addresses lp Map.empty values key) (sort (address_keys lp values))"

definition normalize :: "libp2p \<Rightarrow> Record \<Rightarrow> route_error + Record" where
  "normalize lp r =
     (if rr_Version r \<noteq> RecordVersion then Inl (RecordVersionUnsupported (rr_Version r))
      else if rr_PeerID r = [] then Inl RecordPeerIdRequired
      else if rr_ExpiresAt r \<le> rr_IssuedAt r then Inl RecordExpiration
      else if rr_Services r = [] \<or> MaxServices < length (rr_Services r) then Inl RecordServices
      else let r1 = r\<lparr>rr_Services := uniqueServices (rr_Services r)\<rparr>
           in if MaxAddresses < length (rr_Addresses r1) \<or> MaxAddresses < length (rr_RelayReservations r1)
              then Inl RecordAddresses
              else let r2 = r1\<lparr>rr_Addresses := uniqueAddresses lp (rr_Addresses r1),
                               rr_RelayReservations := uniqueAddresses lp (rr_RelayReservations r1)\<rparr>
                   in if rr_Capabilities r2 AND NOT allCapabilities \<noteq> 0
                      then Inl (RecordCapabilities (rr_Capabilities r2))
                      else Inr r2)"

section \<open>Payloads\<close>

definition addressStrings :: "libp2p \<Rightarrow> multiaddr option list \<Rightarrow> string list" where
  "addressStrings lp values = map (\<lambda>value. ma_String lp (the value)) values"

fun parseAddresses :: "libp2p \<Rightarrow> string list \<Rightarrow> route_error + multiaddr option list" where
  "parseAddresses lp [] = Inr []"
| "parseAddresses lp (value # values) =
     (case NewMultiaddr lp value of
        None \<Rightarrow> Inl RecordMultiaddr
      | Some address \<Rightarrow>
          (case parseAddresses lp values of Inl e \<Rightarrow> Inl e | Inr addresses \<Rightarrow> Inr (Some address # addresses)))"

definition record_fields :: "libp2p \<Rightarrow> Record \<Rightarrow> cbor_map" where
  "record_fields lp r =
     [(0, CUint (rr_Version r)),
      (1, CText (peer_String lp (rr_PeerID r))),
      (2, CUint (rr_Sequence r)),
      (3, CUint (rr_IssuedAt r)),
      (4, CUint (rr_ExpiresAt r)),
      (5, CUints (map ucast (rr_Services r))),
      (6, CTexts (addressStrings lp (rr_Addresses r))),
      (7, CTexts (addressStrings lp (rr_RelayReservations r))),
      (8, CUint (rr_Capabilities r))]"

definition EncodePayload :: "libp2p \<Rightarrow> cbor \<Rightarrow> Record \<Rightarrow> route_error + bytes" where
  "EncodePayload lp cb r =
     (case normalize lp r of
        Inl e \<Rightarrow> Inl e
      | Inr r' \<Rightarrow> (case Marshal cb (record_fields lp r') of None \<Rightarrow> Inl RecordEncoding | Some payload \<Rightarrow> Inr payload))"

definition decodeMap :: "cbor \<Rightarrow> bytes \<Rightarrow> u64 list \<Rightarrow> route_error + (u64 \<times> bytes) list" where
  "decodeMap cb input allowed =
     (case UnmarshalMap cb input of
        None \<Rightarrow> Inl RecordCBOR
      | Some raw \<Rightarrow>
          (case find (\<lambda>key. key \<notin> set allowed) (map fst raw) of
             Some key \<Rightarrow> Inl (RecordUnknownField key)
           | None \<Rightarrow> if length raw \<noteq> length allowed then Inl RecordMissingFields else Inr raw))"

fun parse_services :: "u64 list \<Rightarrow> route_error + u16 list" where
  "parse_services [] = Inr []"
| "parse_services (service # services) =
     (if service = 0 \<or> 65535 < service then Inl RecordPort
      else case parse_services services of Inl e \<Rightarrow> Inl e | Inr rest \<Rightarrow> Inr (ucast service # rest))"

definition decode_record :: "libp2p \<Rightarrow> cbor \<Rightarrow> (u64 \<times> bytes) list \<Rightarrow> route_error + Record" where
  "decode_record lp cb raw =
     (case UnmarshalUint cb (raw_field raw 0) of None \<Rightarrow> Inl RecordField | Some version \<Rightarrow>
     (case UnmarshalText cb (raw_field raw 1) of None \<Rightarrow> Inl RecordField | Some peerText \<Rightarrow>
     (case UnmarshalUint cb (raw_field raw 2) of None \<Rightarrow> Inl RecordField | Some sequence \<Rightarrow>
     (case UnmarshalUint cb (raw_field raw 3) of None \<Rightarrow> Inl RecordField | Some issuedAt \<Rightarrow>
     (case UnmarshalUint cb (raw_field raw 4) of None \<Rightarrow> Inl RecordField | Some expiresAt \<Rightarrow>
     (case UnmarshalUints cb (raw_field raw 5) of None \<Rightarrow> Inl RecordField | Some services \<Rightarrow>
     (case UnmarshalTexts cb (raw_field raw 6) of None \<Rightarrow> Inl RecordField | Some addresses \<Rightarrow>
     (case UnmarshalTexts cb (raw_field raw 7) of None \<Rightarrow> Inl RecordField | Some relays \<Rightarrow>
     (case UnmarshalUint cb (raw_field raw 8) of None \<Rightarrow> Inl RecordField | Some capabilities \<Rightarrow>
     (case peer_Decode lp peerText of None \<Rightarrow> Inl RecordPeerId | Some peerID \<Rightarrow>
     (case parse_services services of Inl e \<Rightarrow> Inl e | Inr services' \<Rightarrow>
     (case parseAddresses lp addresses of Inl e \<Rightarrow> Inl e | Inr addresses' \<Rightarrow>
     (case parseAddresses lp relays of Inl e \<Rightarrow> Inl e | Inr relays' \<Rightarrow>
        Inr \<lparr>rr_Version = version, rr_PeerID = peerID, rr_Sequence = sequence, rr_IssuedAt = issuedAt,
             rr_ExpiresAt = expiresAt, rr_Services = services', rr_Addresses = addresses',
             rr_RelayReservations = relays', rr_Capabilities = capabilities\<rparr>)))))))))))))"

definition DecodePayload :: "libp2p \<Rightarrow> cbor \<Rightarrow> bytes \<Rightarrow> route_error + Record" where
  "DecodePayload lp cb payload =
     (case decodeMap cb payload [0, 1, 2, 3, 4, 5, 6, 7, 8] of Inl e \<Rightarrow> Inl e | Inr raw \<Rightarrow>
     (case decode_record lp cb raw of Inl e \<Rightarrow> Inl e | Inr r \<Rightarrow>
     (case normalize lp r of Inl e \<Rightarrow> Inl e | Inr r' \<Rightarrow>
      if EncodePayload lp cb r' \<noteq> Inr payload then Inl RecordNotDeterministic else Inr r')))"

section \<open>Envelopes\<close>

definition envelope_fields :: "bytes \<Rightarrow> bytes \<Rightarrow> bytes \<Rightarrow> cbor_map" where
  "envelope_fields payload publicBytes signature =
     [(0, CUint RecordEnvelopeVersion), (1, CBytes payload), (2, CBytes publicBytes), (3, CBytes signature)]"

definition with_defaults :: "go_time \<Rightarrow> Record \<Rightarrow> Record" where
  "with_defaults now r =
     (let r1 = (if rr_Version r = 0 then r\<lparr>rr_Version := RecordVersion\<rparr> else r);
          r2 = (if rr_IssuedAt r1 = 0 then r1\<lparr>rr_IssuedAt := unix_seconds now\<rparr> else r1)
      in if rr_ExpiresAt r2 = 0 then r2\<lparr>rr_ExpiresAt := unix_seconds (now + DefaultTTL)\<rparr> else r2)"

definition Sign :: "libp2p \<Rightarrow> cbor \<Rightarrow> key_ops \<Rightarrow> go_time \<Rightarrow> private_key \<Rightarrow> Record \<Rightarrow> route_error + bytes" where
  "Sign lp cb ko now sk r =
     (case IDFromPublicKey ko (GetPublic ko sk) of None \<Rightarrow> Inl RecordKey | Some peerID \<Rightarrow>
     (case EncodePayload lp cb (with_defaults now (r\<lparr>rr_PeerID := peerID\<rparr>)) of Inl e \<Rightarrow> Inl e | Inr payload \<Rightarrow>
     (case key_Sign ko sk payload of None \<Rightarrow> Inl RecordSigning | Some signature \<Rightarrow>
     (case MarshalPublicKey ko (GetPublic ko sk) of None \<Rightarrow> Inl RecordKey | Some publicBytes \<Rightarrow>
     (case Marshal cb (envelope_fields payload publicBytes signature) of
        None \<Rightarrow> Inl RecordEncoding | Some envelope \<Rightarrow> Inr envelope)))))"

definition containsService :: "u16 list \<Rightarrow> u16 \<Rightarrow> bool" where
  "containsService values expected \<longleftrightarrow> list_ex (\<lambda>value. value = expected) values"

text \<open>The checks of \<open>Verify\<close> on the decoded record, in the order of the code.\<close>

definition check_record :: "VerifyOptions \<Rightarrow> go_time \<Rightarrow> peer_id \<Rightarrow> Record \<Rightarrow> route_error option" where
  "check_record options clock authenticated r =
     (if rr_PeerID r \<noteq> authenticated then Some PeerIdMismatch
      else if vo_ExpectedPeerID options \<noteq> [] \<and> rr_PeerID r \<noteq> vo_ExpectedPeerID options then Some OtherPeer
      else if vo_ExpectedService options \<noteq> 0 \<and> \<not> containsService (rr_Services r) (vo_ExpectedService options)
      then Some ServiceNotAdvertised
      else let now = (if IsZero (vo_Now options) then clock else vo_Now options);
               skew = (if vo_ClockSkew options = 0 then 30 * Second else vo_ClockSkew options)
           in if now + skew < time_of_unix (rr_IssuedAt r) then Some IssuedInFuture
              else if time_of_unix (rr_ExpiresAt r) < now + (- skew) then Some RecordExpired
              else None)"

definition Verify :: "libp2p \<Rightarrow> cbor \<Rightarrow> key_ops \<Rightarrow> go_time \<Rightarrow> bytes \<Rightarrow> VerifyOptions \<Rightarrow> route_error + Record" where
  "Verify lp cb ko clock envelope options =
     (case decodeMap cb envelope [0, 1, 2, 3] of Inl e \<Rightarrow> Inl e | Inr raw \<Rightarrow>
     (case UnmarshalUint cb (raw_field raw 0) of None \<Rightarrow> Inl EnvelopeVersionUnsupported | Some version \<Rightarrow>
      if version \<noteq> RecordEnvelopeVersion then Inl EnvelopeVersionUnsupported else
     (case UnmarshalBytes cb (raw_field raw 1) of None \<Rightarrow> Inl EnvelopePayload | Some payload \<Rightarrow>
      if payload = [] \<or> MaxPayloadBytes < length payload then Inl EnvelopePayload else
     (case UnmarshalBytes cb (raw_field raw 2) of None \<Rightarrow> Inl EnvelopeKeyOrSignature | Some publicBytes \<Rightarrow>
     (case UnmarshalBytes cb (raw_field raw 3) of None \<Rightarrow> Inl EnvelopeKeyOrSignature | Some signature \<Rightarrow>
     (case UnmarshalPublicKey ko publicBytes of None \<Rightarrow> Inl RecordKey | Some publicKey \<Rightarrow>
      if key_Verify ko publicKey payload signature \<noteq> Some True then Inl SignatureInvalid else
     (case DecodePayload lp cb payload of Inl e \<Rightarrow> Inl e | Inr r \<Rightarrow>
     (case IDFromPublicKey ko publicKey of None \<Rightarrow> Inl RecordKey | Some authenticated \<Rightarrow>
     (case check_record options clock authenticated r of Some e \<Rightarrow> Inl e | None \<Rightarrow>
      if Marshal cb [(0, CUint version), (1, CBytes payload), (2, CBytes publicBytes), (3, CBytes signature)] \<noteq> Some envelope
      then Inl EnvelopeNotCanonical else Inr r)))))))))"

section \<open>Normal forms\<close>

lemma set_unique_services: "set (unique_services seen vs) = set vs - {0} - set seen"
  by (induction seen vs rule: unique_services.induct) auto

lemma distinct_unique_services: "distinct (unique_services seen vs)"
  by (induction seen vs rule: unique_services.induct) (auto simp: set_unique_services)

lemma length_unique_services: "length (unique_services seen vs) \<le> length vs"
  by (induction seen vs rule: unique_services.induct) (simp_all add: le_SucI)

lemma unique_services_id: "distinct vs \<Longrightarrow> 0 \<notin> set vs \<Longrightarrow> set vs \<inter> set seen = {} \<Longrightarrow> unique_services seen vs = vs"
  by (induction seen vs rule: unique_services.induct) simp_all

lemma uniqueServices_props:
  "sorted (uniqueServices vs)" "distinct (uniqueServices vs)" "set (uniqueServices vs) = set vs - {0}"
  "length (uniqueServices vs) \<le> length vs"
  by (simp_all add: uniqueServices_def set_unique_services distinct_unique_services length_unique_services)

lemma uniqueServices_id: "sorted vs \<Longrightarrow> distinct vs \<Longrightarrow> 0 \<notin> set vs \<Longrightarrow> uniqueServices vs = vs"
  by (simp add: uniqueServices_def unique_services_id sorted_sort_id)

lemma uniqueServices_idem: "uniqueServices (uniqueServices vs) = uniqueServices vs"
  by (rule uniqueServices_id) (simp_all add: uniqueServices_props)

lemma map_filter_id [simp]:
  "List.map_filter id [] = []" "List.map_filter id (None # vs) = List.map_filter id vs"
  "List.map_filter id (Some v # vs) = v # List.map_filter id vs"
  by (simp_all add: List.map_filter_def)

lemma seen_addresses_dom: "dom (seen_addresses lp seen vs) = dom seen \<union> ma_String lp ` set (List.map_filter id vs)"
proof (induction vs arbitrary: seen)
  case (Cons v vs)
  show ?case
  proof (cases v)
    case (Some a)
    show ?thesis unfolding Some seen_addresses.simps Cons.IH dom_fun_upd by (simp add: id_def)
  qed (use Cons in simp)
qed (simp add: List.map_filter_def)

lemma set_address_keys: "set (address_keys lp vs) = ma_String lp ` set (List.map_filter id vs)"
  by (simp add: address_keys_def)

definition keyed :: "libp2p \<Rightarrow> (string \<rightharpoonup> multiaddr) \<Rightarrow> bool" where
  "keyed lp seen \<longleftrightarrow> (\<forall>k v. seen k = Some v \<longrightarrow> ma_String lp v = k)"

lemma keyed_seen_addresses: "keyed lp seen \<Longrightarrow> keyed lp (seen_addresses lp seen vs)"
proof (induction vs arbitrary: seen)
  case (Cons v vs)
  show ?case
  proof (cases v)
    case (Some a)
    have "keyed lp (seen(ma_String lp a \<mapsto> a))" using Cons.prems by (simp add: keyed_def)
    then show ?thesis unfolding Some seen_addresses.simps by (rule Cons.IH)
  qed (use Cons in simp)
qed simp

lemma seen_addresses_key:
  assumes "k \<in> set (address_keys lp vs)"
  shows "\<exists>v. seen_addresses lp Map.empty vs k = Some v \<and> ma_String lp v = k"
proof -
  have "k \<in> dom (seen_addresses lp Map.empty vs)" using assms by (simp add: seen_addresses_dom set_address_keys)
  then obtain v where v: "seen_addresses lp Map.empty vs k = Some v" by blast
  moreover have "ma_String lp v = k" using keyed_seen_addresses [of lp Map.empty vs] v by (simp add: keyed_def)
  ultimately show ?thesis by blast
qed

lemma addressStrings_unique: "addressStrings lp (uniqueAddresses lp vs) = sort (address_keys lp vs)"
proof -
  have "ma_String lp (the (seen_addresses lp Map.empty vs k)) = k" if "k \<in> set (sort (address_keys lp vs))" for k
    using seen_addresses_key that by fastforce
  then show ?thesis unfolding addressStrings_def uniqueAddresses_def map_map comp_def by (rule map_idI)
qed

lemma uniqueAddresses_Some: "\<exists>as. uniqueAddresses lp vs = map Some as"
proof -
  have "list_all (\<lambda>v. v \<noteq> None) (uniqueAddresses lp vs)"
    using seen_addresses_key [of _ lp vs] by (fastforce simp: uniqueAddresses_def list_all_iff)
  then have "uniqueAddresses lp vs = map Some (map the (uniqueAddresses lp vs))"
    by (simp add: list_all_iff map_idI)
  then show ?thesis by blast
qed

lemma length_uniqueAddresses: "length (uniqueAddresses lp vs) \<le> length vs"
proof -
  have "length (List.map_filter id vs) \<le> length vs" for vs :: "multiaddr option list"
  proof (induction vs)
    case (Cons v vs)
    then show ?case by (cases v) (simp_all add: le_SucI)
  qed simp
  then have "length (address_keys lp vs) \<le> length vs"
    using length_remdups_leq [of "map (ma_String lp) (List.map_filter id vs)"] by (simp add: address_keys_def le_trans)
  then show ?thesis by (simp add: uniqueAddresses_def)
qed

lemma seen_addresses_distinct:
  "distinct (map (ma_String lp) as) \<Longrightarrow> a \<in> set as \<or> a \<notin> set as \<and> seen (ma_String lp a) = Some a \<and> ma_String lp a \<notin> ma_String lp ` set as \<Longrightarrow>
   seen_addresses lp seen (map Some as) (ma_String lp a) = Some a"
proof (induction as arbitrary: seen)
  case (Cons x xs)
  show ?case
  proof (cases "a \<in> set xs")
    case True
    with Cons show ?thesis by simp
  next
    case False
    have "ma_String lp a \<notin> ma_String lp ` set xs" using Cons.prems False by auto
    moreover have "(seen(ma_String lp x \<mapsto> x)) (ma_String lp a) = Some a" using Cons.prems False by auto
    ultimately show ?thesis using Cons False by simp
  qed
qed simp

lemma uniqueAddresses_id:
  assumes "sorted (map (ma_String lp) as)" and "distinct (map (ma_String lp) as)"
  shows "uniqueAddresses lp (map Some as) = map Some as"
proof -
  have "List.map_filter id (map Some as) = as" by (induction as) simp_all
  then have "sort (address_keys lp (map Some as)) = map (ma_String lp) as"
    using assms by (simp add: address_keys_def distinct_remdups_id sorted_sort_id)
  then show ?thesis
    using seen_addresses_distinct [OF assms(2)] by (simp add: uniqueAddresses_def)
qed

lemma uniqueAddresses_idem: "uniqueAddresses lp (uniqueAddresses lp vs) = uniqueAddresses lp vs"
proof -
  obtain as where as: "uniqueAddresses lp vs = map Some as" using uniqueAddresses_Some by blast
  have "map (ma_String lp) as = sort (address_keys lp vs)"
    using addressStrings_unique [of lp vs] by (simp add: addressStrings_def as comp_def)
  then have "sorted (map (ma_String lp) as)" "distinct (map (ma_String lp) as)"
    by (simp_all add: address_keys_def)
  then show ?thesis unfolding as by (rule uniqueAddresses_id)
qed

text \<open>What a normalised record looks like.\<close>

definition normal_addresses :: "libp2p \<Rightarrow> multiaddr option list \<Rightarrow> bool" where
  "normal_addresses lp vs \<longleftrightarrow>
     list_all (\<lambda>v. v \<noteq> None) vs \<and> sorted (addressStrings lp vs) \<and> distinct (addressStrings lp vs) \<and> length vs \<le> 64"

definition normal_record :: "libp2p \<Rightarrow> Record \<Rightarrow> bool" where
  "normal_record lp r \<longleftrightarrow>
     rr_Version r = 1 \<and> rr_PeerID r \<noteq> [] \<and> rr_IssuedAt r < rr_ExpiresAt r \<and>
     sorted (rr_Services r) \<and> distinct (rr_Services r) \<and> 0 \<notin> set (rr_Services r) \<and> length (rr_Services r) \<le> 64 \<and>
     normal_addresses lp (rr_Addresses r) \<and> normal_addresses lp (rr_RelayReservations r) \<and>
     rr_Capabilities r AND NOT allCapabilities = 0"

lemma normal_uniqueAddresses: "length vs \<le> 64 \<Longrightarrow> normal_addresses lp (uniqueAddresses lp vs)"
  using uniqueAddresses_Some [of lp vs] length_uniqueAddresses [of lp vs] unfolding normal_addresses_def addressStrings_unique
  by (auto simp: list_all_iff address_keys_def)

lemma normalizeD:
  assumes "normalize lp r = Inr r'"
  shows "r' = r\<lparr>rr_Services := uniqueServices (rr_Services r), rr_Addresses := uniqueAddresses lp (rr_Addresses r),
           rr_RelayReservations := uniqueAddresses lp (rr_RelayReservations r)\<rparr>"
    and "normal_record lp r'"
proof -
  have G: "rr_Version r = 1" "rr_PeerID r \<noteq> []" "rr_IssuedAt r < rr_ExpiresAt r" "length (rr_Services r) \<le> 64"
    "length (rr_Addresses r) \<le> 64" "length (rr_RelayReservations r) \<le> 64" "rr_Capabilities r AND NOT allCapabilities = 0"
    and r': "r' = r\<lparr>rr_Services := uniqueServices (rr_Services r), rr_Addresses := uniqueAddresses lp (rr_Addresses r),
           rr_RelayReservations := uniqueAddresses lp (rr_RelayReservations r)\<rparr>"
    using assms
    by (auto simp: normalize_def Let_def RecordVersion_def MaxServices_def MaxAddresses_def not_le not_less split: if_splits)
  show "r' = r\<lparr>rr_Services := uniqueServices (rr_Services r), rr_Addresses := uniqueAddresses lp (rr_Addresses r),
           rr_RelayReservations := uniqueAddresses lp (rr_RelayReservations r)\<rparr>" by (rule r')
  show "normal_record lp r'"
    using G uniqueServices_props [of "rr_Services r"] normal_uniqueAddresses
    by (simp add: r' normal_record_def)
qed

lemma normalize_normal:
  assumes "normal_record lp r" and "rr_Services r \<noteq> []"
  shows "normalize lp r = Inr r"
proof -
  have id: "uniqueAddresses lp vs = vs" if "normal_addresses lp vs" for vs
  proof -
    have "vs = map Some (map the vs)" using that by (simp add: normal_addresses_def list_all_iff map_idI)
    then obtain as where as: "vs = map Some as" by blast
    then show ?thesis using that uniqueAddresses_id [of lp as] by (simp add: normal_addresses_def addressStrings_def comp_def)
  qed
  have "uniqueServices (rr_Services r) = rr_Services r"
    using assms by (simp add: normal_record_def uniqueServices_id)
  moreover have "uniqueAddresses lp (rr_Addresses r) = rr_Addresses r" "uniqueAddresses lp (rr_RelayReservations r) = rr_RelayReservations r"
    using assms id by (simp_all add: normal_record_def)
  ultimately show ?thesis
    using assms by (simp add: normalize_def Let_def normal_record_def RecordVersion_def MaxServices_def MaxAddresses_def
        normal_addresses_def not_le)
qed

section \<open>Payloads\<close>

lemma parse_services_ucast: "0 \<notin> set ss \<Longrightarrow> parse_services (map ucast ss) = Inr ss"
  by (induction ss) (auto simp: u16_in_u64)

lemma parse_services_nonzero: "parse_services ns = Inr ss \<Longrightarrow> 0 \<notin> set ss \<and> length ss = length ns"
proof (induction ns arbitrary: ss)
  case (Cons n ns)
  then obtain rest where rest: "parse_services ns = Inr rest" "ss = ucast n # rest" "n \<noteq> 0" "n \<le> 65535"
    by (auto split: if_splits sum.splits simp: not_less)
  have "(ucast n :: u16) \<noteq> 0"
  proof -
    have "unat n \<le> 65535" using rest(4) by (simp add: word_le_nat_alt)
    then have "unat (ucast n :: u16) = unat n" by (simp add: unsigned_ucast_eq take_bit_nat_eq_self)
    with rest(3) show ?thesis by (metis unat_eq_zero unsigned_0)
  qed
  with Cons.IH [OF rest(1)] rest(2) show ?case by auto
qed simp

lemma parseAddresses_strings:
  "libp2p_ok lp \<Longrightarrow> list_all (\<lambda>v. v \<noteq> None) vs \<Longrightarrow> parseAddresses lp (addressStrings lp vs) = Inr vs"
  by (induction vs) (auto simp: addressStrings_def libp2p_okD(4))

lemma cbor_fields:
  assumes "cbor_ok cb" and "Marshal cb m = Some bs" and "distinct (map fst m)" and "length m \<le> 16"
  obtains raw where "UnmarshalMap cb bs = Some raw" and "map fst raw = map fst m"
    and "\<And>k v. map_of m k = Some v \<Longrightarrow> decodes_to cb (raw_field raw k) v"
proof (rule cbor_okE [OF assms])
  fix raw
  assume raw: "UnmarshalMap cb bs = Some raw" "map fst raw = map fst m"
    and dec: "\<And>k v. map_of m k = Some v \<Longrightarrow> \<exists>r. map_of raw k = Some r \<and> decodes_to cb r v"
  have "decodes_to cb (raw_field raw k) v" if "map_of m k = Some v" for k v
    using dec [OF that] by (auto simp: raw_field_def)
  with raw show ?thesis by (rule that)
qed

lemma unique_services_Nil: "unique_services [] ss = [] \<longleftrightarrow> set ss \<subseteq> {0}"
  using set_unique_services [of "[]" ss] by (auto simp flip: set_empty)

lemma uniqueServices_Nil: "uniqueServices ss = [] \<longleftrightarrow> set ss \<subseteq> {0}"
  using unique_services_Nil [of ss] by (simp add: uniqueServices_def flip: set_empty)

lemma decode_record_services:
  assumes "decode_record lp cb raw = Inr r"
  shows "0 \<notin> set (rr_Services r)"
  using assms by (auto simp: decode_record_def dest: parse_services_nonzero split: option.splits sum.splits)

lemma DecodePayloadD:
  assumes "DecodePayload lp cb payload = Inr r"
  shows "normal_record lp r" and "rr_Services r \<noteq> []" and "EncodePayload lp cb r = Inr payload"
proof -
  obtain raw q where raw: "decodeMap cb payload [0, 1, 2, 3, 4, 5, 6, 7, 8] = Inr raw"
    and q: "decode_record lp cb raw = Inr q" and n: "normalize lp q = Inr r" and e: "EncodePayload lp cb r = Inr payload"
    using assms by (auto simp: DecodePayload_def split: sum.splits if_splits)
  show "normal_record lp r" by (rule normalizeD(2) [OF n])
  have "rr_Services q \<noteq> []" using n by (auto simp: normalize_def split: if_splits)
  then have "\<not> set (rr_Services q) \<subseteq> {0}" using decode_record_services [OF q] by (cases "rr_Services q") auto
  then show "rr_Services r \<noteq> []" by (simp add: normalizeD(1) [OF n] uniqueServices_Nil)
  show "EncodePayload lp cb r = Inr payload" by (rule e)
qed

lemma EncodePayload_normal:
  assumes "normal_record lp r" and "rr_Services r \<noteq> []"
  shows "EncodePayload lp cb r = Inr payload \<longleftrightarrow> Marshal cb (record_fields lp r) = Some payload"
  using normalize_normal [OF assms] by (simp add: EncodePayload_def split: option.split)

definition printable_record :: "libp2p \<Rightarrow> Record \<Rightarrow> bool" where
  "printable_record lp r \<longleftrightarrow>
     peer_Decode lp (peer_String lp (rr_PeerID r)) = Some (rr_PeerID r) \<and>
     list_all ascii (address_keys lp (rr_Addresses r)) \<and> list_all ascii (address_keys lp (rr_RelayReservations r))"

lemma map_filter_strings:
  "list_all (\<lambda>v. v \<noteq> None) vs \<Longrightarrow> map (ma_String lp) (List.map_filter id vs) = addressStrings lp vs"
  by (induction vs) (auto simp: addressStrings_def)

lemma set_addressStrings: "normal_addresses lp vs \<Longrightarrow> set (addressStrings lp vs) = set (address_keys lp vs)"
  using map_filter_strings [of vs lp] by (simp add: normal_addresses_def address_keys_def)



lemma decodeMap_ok:
  assumes "UnmarshalMap cb bs = Some raw" and "map fst raw = allowed"
  shows "decodeMap cb bs allowed = Inr raw"
proof -
  have "length raw = length allowed" using assms(2) by auto
  moreover have "find (\<lambda>key. key \<notin> set allowed) allowed = None" by (simp add: find_None_iff)
  ultimately show ?thesis using assms by (simp add: decodeMap_def)
qed

lemma length_addressStrings: "length (addressStrings lp vs) = length vs"
  by (simp add: addressStrings_def)

lemma decode_record_fields:
  assumes "libp2p_ok lp" and "printable_record lp r" and "normal_record lp r"
    and f: "\<And>k v. map_of (record_fields lp r) k = Some v \<Longrightarrow> decodes_to cb (raw_field raw k) v"
  shows "decode_record lp cb raw = Inr r"
proof -
  have U: "UnmarshalUint cb (raw_field raw 0) = Some (rr_Version r)" "UnmarshalUint cb (raw_field raw 2) = Some (rr_Sequence r)"
    "UnmarshalUint cb (raw_field raw 3) = Some (rr_IssuedAt r)" "UnmarshalUint cb (raw_field raw 4) = Some (rr_ExpiresAt r)"
    "UnmarshalUint cb (raw_field raw 8) = Some (rr_Capabilities r)"
    using f [of 0] f [of 2] f [of 3] f [of 4] f [of 8] by (simp_all add: record_fields_def)
  have T: "UnmarshalText cb (raw_field raw 1) = Some (peer_String lp (rr_PeerID r))"
    using f [of 1] libp2p_okD(2) [OF assms(1)] by (simp add: record_fields_def)
  have N: "normal_addresses lp (rr_Addresses r)" "normal_addresses lp (rr_RelayReservations r)"
    using assms(3) by (simp_all add: normal_record_def)
  have len: "length (rr_Services r) \<le> 64" "length (rr_Addresses r) \<le> 64" "length (rr_RelayReservations r) \<le> 64"
    using assms(3) by (simp_all add: normal_record_def normal_addresses_def)
  have S: "UnmarshalUints cb (raw_field raw 5) = Some (map ucast (rr_Services r))"
    using f [of 5] len(1) by (simp add: record_fields_def)
  have A: "UnmarshalTexts cb (raw_field raw 6) = Some (addressStrings lp (rr_Addresses r))"
    "UnmarshalTexts cb (raw_field raw 7) = Some (addressStrings lp (rr_RelayReservations r))"
    using f [of 6] f [of 7] len N assms(2)
    by (simp_all add: record_fields_def printable_record_def length_addressStrings list_all_iff set_addressStrings)
  have P: "parse_services (map ucast (rr_Services r)) = Inr (rr_Services r)"
    using assms(3) by (intro parse_services_ucast) (simp add: normal_record_def)
  have Q: "parseAddresses lp (addressStrings lp (rr_Addresses r)) = Inr (rr_Addresses r)"
    "parseAddresses lp (addressStrings lp (rr_RelayReservations r)) = Inr (rr_RelayReservations r)"
    using assms(3) by (simp_all add: parseAddresses_strings [OF assms(1)] normal_record_def normal_addresses_def)
  show ?thesis using assms(2) unfolding decode_record_def U T S A option.case
    by (simp add: P Q printable_record_def)
qed

lemma record_fields_keys: "distinct (map fst (record_fields lp r))" "length (record_fields lp r) \<le> 16"
  by (simp_all add: record_fields_def)

lemma payload_decodes:
  assumes "libp2p_ok lp" and "cbor_ok cb" and "normalize lp r = Inr r'" and "rr_Services r' \<noteq> []"
    and "printable_record lp r'" and "EncodePayload lp cb r = Inr payload"
  shows "DecodePayload lp cb payload = Inr r'"
proof -
  have n: "normal_record lp r'" by (rule normalizeD(2) [OF assms(3)])
  have M: "Marshal cb (record_fields lp r') = Some payload"
    using assms(3,6) by (auto simp: EncodePayload_def split: option.splits)
  obtain raw where raw: "UnmarshalMap cb payload = Some raw" "map fst raw = map fst (record_fields lp r')"
    and dec: "\<And>k v. map_of (record_fields lp r') k = Some v \<Longrightarrow> decodes_to cb (raw_field raw k) v"
    by (rule cbor_fields [OF assms(2) M record_fields_keys]) blast
  have "decodeMap cb payload [0, 1, 2, 3, 4, 5, 6, 7, 8] = Inr raw"
    using raw by (intro decodeMap_ok) (simp_all add: record_fields_def)
  moreover have "decode_record lp cb raw = Inr r'" by (rule decode_record_fields [OF assms(1,5) n dec])
  moreover have "normalize lp r' = Inr r'" by (rule normalize_normal [OF n assms(4)])
  moreover have "EncodePayload lp cb r' = Inr payload" using EncodePayload_normal [OF n assms(4)] M by blast
  ultimately show ?thesis by (simp add: DecodePayload_def)
qed


section \<open>Signed records\<close>

text \<open>
  C6: what \<open>Verify\<close> returns is authenticated, normalised, current and uniquely encoded. The
  envelope is the canonical encoding of a payload of at most 64 KiB, a public key and a
  signature of the payload under that key; the payload is the canonical encoding of the
  returned record; the record names the identifier of that key, satisfies the options, and
  the time lies within its validity up to the clock skew.
\<close>

theorem Verify_sound:
  assumes "Verify lp cb ko clock envelope options = Inr r"
  shows "(\<exists>payload publicBytes signature publicKey.
            Marshal cb (envelope_fields payload publicBytes signature) = Some envelope \<and>
            Marshal cb (record_fields lp r) = Some payload \<and> length payload \<le> 64 * 1024 \<and>
            UnmarshalPublicKey ko publicBytes = Some publicKey \<and>
            key_Verify ko publicKey payload signature = Some True \<and>
            IDFromPublicKey ko publicKey = Some (rr_PeerID r)) \<and>
         normal_record lp r \<and> rr_Services r \<noteq> [] \<and>
         (vo_ExpectedPeerID options = [] \<or> vo_ExpectedPeerID options = rr_PeerID r) \<and>
         (vo_ExpectedService options = 0 \<or> vo_ExpectedService options \<in> set (rr_Services r)) \<and>
         (let now = (if vo_Now options = 0 then clock else vo_Now options);
              skew = (if vo_ClockSkew options = 0 then 30 * Second else vo_ClockSkew options)
          in time_of_unix (rr_IssuedAt r) \<le> now + skew \<and> now - skew \<le> time_of_unix (rr_ExpiresAt r))"
proof -
  obtain payload publicBytes signature publicKey where
      D: "DecodePayload lp cb payload = Inr r" and L: "length payload \<le> 64 * 1024"
    and K: "UnmarshalPublicKey ko publicBytes = Some publicKey" "key_Verify ko publicKey payload signature = Some True"
    and M: "Marshal cb (envelope_fields payload publicBytes signature) = Some envelope"
    and C: "\<exists>authenticated. IDFromPublicKey ko publicKey = Some authenticated \<and> check_record options clock authenticated r = None"
    using assms unfolding Verify_def
    by (auto simp: envelope_fields_def MaxPayloadBytes_def not_less split: sum.splits option.splits if_splits)
  note P = DecodePayloadD [OF D]
  have "Marshal cb (record_fields lp r) = Some payload" using EncodePayload_normal [OF P(1,2)] P(3) by blast
  moreover have "IDFromPublicKey ko publicKey = Some (rr_PeerID r)"
    and "vo_ExpectedPeerID options = [] \<or> vo_ExpectedPeerID options = rr_PeerID r"
    and "vo_ExpectedService options = 0 \<or> vo_ExpectedService options \<in> set (rr_Services r)"
    and "let now = (if vo_Now options = 0 then clock else vo_Now options);
             skew = (if vo_ClockSkew options = 0 then 30 * Second else vo_ClockSkew options)
         in time_of_unix (rr_IssuedAt r) \<le> now + skew \<and> now - skew \<le> time_of_unix (rr_ExpiresAt r)"
    using C by (auto simp: check_record_def Let_def containsService_def list_ex_iff IsZero_def split: if_splits)
  ultimately show ?thesis using K M L P(1,2) by blast
qed

lemma envelope_fields_keys:
  "distinct (map fst (envelope_fields payload publicBytes signature))"
  "length (envelope_fields payload publicBytes signature) \<le> 16"
  by (simp_all add: envelope_fields_def)

lemma Verify_envelope:
  assumes "cbor_ok cb" and "Marshal cb (envelope_fields payload publicBytes signature) = Some envelope"
    and "payload \<noteq> []" and "length payload \<le> MaxPayloadBytes"
    and "UnmarshalPublicKey ko publicBytes = Some publicKey"
    and "key_Verify ko publicKey payload signature = Some True"
    and "IDFromPublicKey ko publicKey = Some authenticated"
  shows "Verify lp cb ko clock envelope options =
     (case DecodePayload lp cb payload of
        Inl e \<Rightarrow> Inl e
      | Inr r \<Rightarrow> (case check_record options clock authenticated r of Some e \<Rightarrow> Inl e | None \<Rightarrow> Inr r))"
proof -
  obtain raw where raw: "UnmarshalMap cb envelope = Some raw"
      "map fst raw = map fst (envelope_fields payload publicBytes signature)"
    and f: "\<And>k v. map_of (envelope_fields payload publicBytes signature) k = Some v \<Longrightarrow> decodes_to cb (raw_field raw k) v"
    by (rule cbor_fields [OF assms(1,2) envelope_fields_keys]) blast
  have d: "decodeMap cb envelope [0, 1, 2, 3] = Inr raw"
    using raw by (intro decodeMap_ok) (simp_all add: envelope_fields_def)
  have u: "UnmarshalUint cb (raw_field raw 0) = Some RecordEnvelopeVersion" "UnmarshalBytes cb (raw_field raw 1) = Some payload"
    "UnmarshalBytes cb (raw_field raw 2) = Some publicBytes" "UnmarshalBytes cb (raw_field raw 3) = Some signature"
    using f [of 0] f [of 1] f [of 2] f [of 3] by (simp_all add: envelope_fields_def)
  show ?thesis using assms(2-) unfolding Verify_def d u sum.case option.case
    by (simp add: envelope_fields_def split: sum.split option.split)
qed

lemma SignD:
  assumes "Sign lp cb ko now sk r = Inr envelope" and "IDFromPublicKey ko (GetPublic ko sk) = Some peerID"
  obtains payload signature publicBytes
  where "EncodePayload lp cb (with_defaults now (r\<lparr>rr_PeerID := peerID\<rparr>)) = Inr payload"
    and "key_Sign ko sk payload = Some signature" and "MarshalPublicKey ko (GetPublic ko sk) = Some publicBytes"
    and "Marshal cb (envelope_fields payload publicBytes signature) = Some envelope"
  using assms by (auto simp: Sign_def split: option.splits sum.splits)

lemma EncodePayload_nonempty: "cbor_ok cb \<Longrightarrow> EncodePayload lp cb r = Inr payload \<Longrightarrow> payload \<noteq> []"
  using cbor_okE [OF _ _ record_fields_keys] by (fastforce simp: EncodePayload_def split: sum.splits option.splits)

lemma with_defaults_sel [simp]:
  "rr_PeerID (with_defaults now r) = rr_PeerID r" "rr_Services (with_defaults now r) = rr_Services r"
  "rr_Addresses (with_defaults now r) = rr_Addresses r" "rr_RelayReservations (with_defaults now r) = rr_RelayReservations r"
  by (simp_all add: with_defaults_def Let_def)



text \<open>
  \<open>normalize\<close> counts the services before it drops the zero ones, so a record whose services
  are all zero is encoded and signed, and no decoder accepts the result.
\<close>

theorem zero_services_undecodable:
  assumes "cbor_ok cb" and "set (rr_Services r) \<subseteq> {0}" and "EncodePayload lp cb r = Inr payload"
  shows "\<exists>e. DecodePayload lp cb payload = Inl e"
proof (rule ccontr)
  assume "\<nexists>e. DecodePayload lp cb payload = Inl e"
  then obtain q where q: "DecodePayload lp cb payload = Inr q" by (cases "DecodePayload lp cb payload") auto
  note D = DecodePayloadD [OF q]
  obtain n where n: "normalize lp r = Inr n" and M: "Marshal cb (record_fields lp n) = Some payload"
    using assms(3) by (auto simp: EncodePayload_def split: sum.splits option.splits)
  have Mq: "Marshal cb (record_fields lp q) = Some payload" using EncodePayload_normal [OF D(1,2)] D(3) by blast
  have U: "UnmarshalUints cb (raw_field raw 5) = Some (map ucast (rr_Services x))"
    if m: "Marshal cb (record_fields lp x) = Some payload" and raw: "UnmarshalMap cb payload = Some raw"
      and l: "length (rr_Services x) \<le> 64" for x raw
  proof (rule cbor_fields [OF assms(1) m record_fields_keys])
    fix raw'
    assume u: "UnmarshalMap cb payload = Some raw'"
      and f: "\<And>k v. map_of (record_fields lp x) k = Some v \<Longrightarrow> decodes_to cb (raw_field raw' k) v"
    show ?thesis using f [of 5] u raw l by (simp add: record_fields_def)
  qed
  obtain raw where raw: "UnmarshalMap cb payload = Some raw"
    by (rule cbor_fields [OF assms(1) M record_fields_keys])
  have "map ucast (rr_Services q) = (map ucast (rr_Services n) :: u64 list)"
    using U [OF M raw] U [OF Mq raw] D(1) normalizeD(2) [OF n] by (simp add: normal_record_def)
  moreover have "rr_Services n = []" using assms(2) by (simp add: normalizeD(1) [OF n] uniqueServices_Nil)
  ultimately show False using D(2) by simp
qed

definition sample_record :: Record where
  "sample_record =
     \<lparr>rr_Version = 0, rr_PeerID = [], rr_Sequence = 7, rr_IssuedAt = 0, rr_ExpiresAt = 0, rr_Services = [443, 22, 22],
      rr_Addresses = [Some ''/ip4/b'', None, Some ''/ip4/a''], rr_RelayReservations = [], rr_Capabilities = 3\<rparr>"

definition sample_now :: go_time where
  "sample_now = 63900000000000000000"

definition sample_options :: VerifyOptions where
  "sample_options = \<lparr>vo_ExpectedPeerID = ''p'', vo_ExpectedService = 22, vo_Now = 0, vo_ClockSkew = 0\<rparr>"

definition normal_sample :: Record where
  "normal_sample =
     \<lparr>rr_Version = 1, rr_PeerID = ''p'', rr_Sequence = 7, rr_IssuedAt = 1764403200, rr_ExpiresAt = 1764403380,
      rr_Services = [22, 443], rr_Addresses = [Some ''/ip4/a'', Some ''/ip4/b''], rr_RelayReservations = [], rr_Capabilities = 3\<rparr>"

lemma sample_defaults:
  "with_defaults sample_now (sample_record\<lparr>rr_PeerID := ''p''\<rparr>) =
     sample_record\<lparr>rr_PeerID := ''p'', rr_Version := 1, rr_IssuedAt := 1764403200, rr_ExpiresAt := 1764403380\<rparr>"
  by code_simp

lemma sample_strings: "sort (address_keys sample_libp2p (rr_Addresses sample_record)) = [''/ip4/a'', ''/ip4/b'']"
  by code_simp

lemma sample_services: "uniqueServices (rr_Services sample_record) = [22, 443]"
  by code_simp

lemma sample_addresses: "uniqueAddresses sample_libp2p (rr_Addresses sample_record) = [Some ''/ip4/a'', Some ''/ip4/b'']"
  unfolding uniqueAddresses_def sample_strings by (simp add: sample_record_def sample_libp2p_def)

lemma normalize_sample:
  "normalize sample_libp2p (with_defaults sample_now (sample_record\<lparr>rr_PeerID := ''p''\<rparr>)) = Inr normal_sample"
proof -
  have "(3 :: u64) AND NOT allCapabilities = 0" by code_simp
  moreover have "uniqueAddresses lp [] = []" for lp by (simp add: uniqueAddresses_def address_keys_def)
  ultimately show ?thesis
    using sample_services sample_addresses
    by (simp add: sample_defaults normalize_def Let_def RecordVersion_def MaxServices_def MaxAddresses_def)
      (simp add: sample_record_def normal_sample_def)
qed

definition sample_payload :: bytes where
  "sample_payload = the (Marshal sample_cbor (record_fields sample_libp2p normal_sample))"

lemma length_blob [simp]: "length (blob bs) = 8 + length bs"
  by (simp add: blob_def be64.width_enc)

lemma sample_payload:
  "Marshal sample_cbor (record_fields sample_libp2p normal_sample) = Some sample_payload"
  "length sample_payload \<le> 1024"
  by (simp_all add: sample_payload_def sample_cbor_def sample_Marshal_def record_fields_def
      normal_sample_def sample_libp2p_def addressStrings_def be64.width_enc)

lemma encode_sample:
  "EncodePayload sample_libp2p sample_cbor (with_defaults sample_now (sample_record\<lparr>rr_PeerID := ''p''\<rparr>)) = Inr sample_payload"
  by (simp add: EncodePayload_def normalize_sample sample_payload)

lemma sample_key: "IDFromPublicKey sample_keys (GetPublic sample_keys [112]) = Some ''p''"
  by code_simp


lemma sample_signed: "\<exists>envelope. Sign sample_libp2p sample_cbor sample_keys sample_now [112] sample_record = Inr envelope"
proof -
  have "Marshal sample_cbor (envelope_fields sample_payload [112] (112 # take 4 sample_payload)) \<noteq> None"
    using sample_payload(2) by (simp add: sample_cbor_def sample_Marshal_def envelope_fields_def be64.width_enc)
  then obtain envelope where
      M: "Marshal sample_cbor (envelope_fields sample_payload [112] (112 # take 4 sample_payload)) = Some envelope" by blast
  have "key_Sign sample_keys [112] sample_payload = Some (112 # take 4 sample_payload)"
    "MarshalPublicKey sample_keys (GetPublic sample_keys [112]) = Some [112]" by (simp_all add: sample_keys_def)
  then show ?thesis using M encode_sample by (simp add: Sign_def sample_key)
qed


lemma normalize_services:
  "normalize lp r = Inr r' \<Longrightarrow> ss \<noteq> [] \<Longrightarrow> length ss \<le> 64 \<Longrightarrow>
   normalize lp (r\<lparr>rr_Services := ss\<rparr>) = Inr (r'\<lparr>rr_Services := uniqueServices ss\<rparr>)"
  by (auto simp: normalize_def Let_def MaxServices_def split: if_splits)

lemma uniqueServices_zero: "uniqueServices [0] = []"
  by (simp add: uniqueServices_def)

lemma sample_verifies:
  "\<exists>envelope. Verify sample_libp2p sample_cbor sample_keys (sample_now + 120 * Second) envelope sample_options = Inr normal_sample"
proof -
  obtain envelope where S: "Sign sample_libp2p sample_cbor sample_keys sample_now [112] sample_record = Inr envelope"
    using sample_signed by blast
  obtain payload signature publicBytes where
      "EncodePayload sample_libp2p sample_cbor (with_defaults sample_now (sample_record\<lparr>rr_PeerID := ''p''\<rparr>)) = Inr payload"
    and K: "key_Sign sample_keys [112] payload = Some signature" "MarshalPublicKey sample_keys (GetPublic sample_keys [112]) = Some publicBytes"
    and M: "Marshal sample_cbor (envelope_fields payload publicBytes signature) = Some envelope"
    by (rule SignD [OF S sample_key])
  then have p: "payload = sample_payload" by (simp add: encode_sample)
  have n: "normal_record sample_libp2p normal_sample" by (rule normalizeD(2) [OF normalize_sample])
  have "printable_record sample_libp2p normal_sample" "rr_Services normal_sample \<noteq> []" by code_simp+
  then have "DecodePayload sample_libp2p sample_cbor payload = Inr normal_sample"
    unfolding p by (intro payload_decodes [OF _ _ normalize_sample _ _ encode_sample]) simp_all
  moreover have "check_record sample_options (sample_now + 120 * Second) ''p'' normal_sample = None" by code_simp
  moreover have "UnmarshalPublicKey sample_keys publicBytes = Some [112]" "key_Verify sample_keys [112] payload signature = Some True"
    using K by (auto simp: sample_keys_def)
  moreover have "payload \<noteq> []" unfolding p by (rule EncodePayload_nonempty [OF _ encode_sample]) simp
  moreover have "length payload \<le> MaxPayloadBytes" using sample_payload(2) by (simp add: p MaxPayloadBytes_def)
  moreover have "IDFromPublicKey sample_keys [112] = Some ''p''" by code_simp
  ultimately have "Verify sample_libp2p sample_cbor sample_keys (sample_now + 120 * Second) envelope sample_options = Inr normal_sample"
    using Verify_envelope [OF sample_cbor_ok M] by simp
  then show ?thesis by blast
qed

theorem Verify_sound_witness:
  "\<exists>envelope publicBytes signature publicKey.
     Verify sample_libp2p sample_cbor sample_keys (sample_now + 120 * Second) envelope sample_options = Inr normal_sample \<and>
     UnmarshalPublicKey sample_keys publicBytes = Some publicKey \<and>
     key_Verify sample_keys publicKey sample_payload signature = Some True \<and>
     IDFromPublicKey sample_keys publicKey = Some ''p''"
proof -
  obtain envelope where
      V: "Verify sample_libp2p sample_cbor sample_keys (sample_now + 120 * Second) envelope sample_options = Inr normal_sample"
    using sample_verifies by blast
  have "rr_PeerID normal_sample = ''p''" by (simp add: normal_sample_def)
  with V Verify_sound [OF V] sample_payload(1) show ?thesis by auto
qed

theorem zero_services_undecodable_witness:
  "\<exists>payload e. EncodePayload sample_libp2p sample_cbor (normal_sample\<lparr>rr_Services := [0]\<rparr>) = Inr payload \<and>
     DecodePayload sample_libp2p sample_cbor payload = Inl e"
proof -
  have n: "normal_record sample_libp2p normal_sample" by (rule normalizeD(2) [OF normalize_sample])
  have "normalize sample_libp2p (normal_sample\<lparr>rr_Services := [0]\<rparr>) = Inr (normal_sample\<lparr>rr_Services := []\<rparr>)"
    by (rule normalize_services [OF normalize_normal [OF n], of "[0]", simplified uniqueServices_zero]) (simp_all add: normal_sample_def)
  moreover have "Marshal sample_cbor (record_fields sample_libp2p (normal_sample\<lparr>rr_Services := []\<rparr>)) \<noteq> None"
    by (simp add: sample_cbor_def sample_Marshal_def record_fields_def
      normal_sample_def sample_libp2p_def addressStrings_def be64.width_enc)
  ultimately obtain payload where "EncodePayload sample_libp2p sample_cbor (normal_sample\<lparr>rr_Services := [0]\<rparr>) = Inr payload"
    by (auto simp: EncodePayload_def)
  with zero_services_undecodable [OF sample_cbor_ok _ this] show ?thesis by (auto simp: normal_sample_def)
qed

end
