(* ===== verification/Token_File.thy ===== *)
theory Token_File
  imports Pairing
begin

text \<open>
  \<open>src/protocol/tokenfile/tokenfile.go\<close>: pairing tokens encrypted under a password for storage.
  Argon2id is a parameter; AES-256-GCM and CBOR are those of \<open>Libraries\<close>. The decoder here reads
  the fields into values of type \<open>any\<close>, where integers come back signed.
\<close>

definition EncryptedPrefix :: string where "EncryptedPrefix = ''pnc1e_''"
definition EncryptedVersion :: u64 where "EncryptedVersion = 1"
definition MinimumPasswordSize :: nat where "MinimumPasswordSize = 8"
definition MaximumPasswordSize :: nat where "MaximumPasswordSize = 1024"
definition MaxEnvelopeSize :: nat where "MaxEnvelopeSize = 64 * 1024"
definition argonTime :: u64 where "argonTime = 3"
definition argonMemory :: u64 where "argonMemory = 64 * 1024"
definition argonThreads :: u64 where "argonThreads = 4"
definition saltSize :: nat where "saltSize = 16"
definition keySize :: nat where "keySize = 32"
definition nonceSize :: nat where "nonceSize = 12"

definition keyVersion :: u64 where "keyVersion = 0"
definition keyKDF :: u64 where "keyKDF = 1"
definition keyKDFTime :: u64 where "keyKDFTime = 2"
definition keyKDFMemory :: u64 where "keyKDFMemory = 3"
definition keyKDFThreads :: u64 where "keyKDFThreads = 4"
definition keySalt :: u64 where "keySalt = 5"
definition keyCipher :: u64 where "keyCipher = 6"
definition keyNonce :: u64 where "keyNonce = 7"
definition keyCiphertext :: u64 where "keyCiphertext = 8"

definition kdfName :: string where "kdfName = ''argon2id''"
definition cipherName :: string where "cipherName = ''aes-256-gcm''"

definition additionalData :: bytes where
  "additionalData = string_bytes (''p2p-netcat/encrypted-pairing-token/v1'' @ [CHR 0x00] @ kdfName @ [CHR 0x00] @ cipherName)"

datatype tokenfile_error =
    TokenInvalid pairing_error
  | PasswordTooShort
  | PasswordTooLong
  | SaltRandomness
  | NonceRandomness
  | EncryptedCipher
  | EncryptedEncoding
  | EncryptedWithoutPrefix
  | EncryptedBase64
  | EncryptedSize
  | EncryptedCBOR
  | EncryptedNotDeterministic
  | NotNineFields
  | UnknownEncryptedField u64
  | UnsupportedField u64
  | WrongPassword

type_synonym argon2 = "bytes \<Rightarrow> bytes \<Rightarrow> u32 \<Rightarrow> u32 \<Rightarrow> byte \<Rightarrow> nat \<Rightarrow> bytes"

definition validatePassword :: "bytes \<Rightarrow> tokenfile_error option" where
  "validatePassword password =
     (if length password < MinimumPasswordSize then Some PasswordTooShort
      else if MaximumPasswordSize < length password then Some PasswordTooLong
      else None)"

definition deriveKey :: "argon2 \<Rightarrow> bytes \<Rightarrow> bytes \<Rightarrow> bytes" where
  "deriveKey ar password salt = ar password salt (ucast argonTime) (ucast argonMemory) (ucast argonThreads) keySize"

text \<open>\<open>aes.NewCipher\<close> accepts the three key sizes of AES, and \<open>cipher.NewGCM\<close> its blocks.\<close>

definition newAEAD :: "bytes \<Rightarrow> bool" where
  "newAEAD key \<longleftrightarrow> length key \<in> {16, 24, 32}"

definition envelope_map :: "bytes \<Rightarrow> bytes \<Rightarrow> bytes \<Rightarrow> cbor_map" where
  "envelope_map salt nonce ciphertext =
     [(keyVersion, CUint EncryptedVersion),
      (keyKDF, CText kdfName),
      (keyKDFTime, CUint argonTime),
      (keyKDFMemory, CUint argonMemory),
      (keyKDFThreads, CUint argonThreads),
      (keySalt, CBytes salt),
      (keyCipher, CText cipherName),
      (keyNonce, CBytes nonce),
      (keyCiphertext, CBytes ciphertext)]"

definition Encrypt :: "libp2p \<Rightarrow> cbor \<Rightarrow> cryptography \<Rightarrow> argon2 \<Rightarrow> random_source \<Rightarrow> string \<Rightarrow> bytes \<Rightarrow> tokenfile_error + string" where
  "Encrypt lp cb cr ar rnd tokenText password =
     (let tokenText = TrimSpace tokenText
      in case Decode lp cb tokenText of Inl e \<Rightarrow> Inl (TokenInvalid e) | Inr _ \<Rightarrow>
        (case validatePassword password of Some e \<Rightarrow> Inl e | None \<Rightarrow>
        (case rnd saltSize of None \<Rightarrow> Inl SaltRandomness | Some salt \<Rightarrow>
        (case rnd nonceSize of None \<Rightarrow> Inl NonceRandomness | Some nonce \<Rightarrow>
          let key = deriveKey ar password salt
          in if \<not> newAEAD key then Inl EncryptedCipher
             else let ciphertext = gcm_Seal cr key nonce (string_bytes tokenText) additionalData
                  in case Marshal cb (envelope_map salt nonce ciphertext) of
                       None \<Rightarrow> Inl EncryptedEncoding
                     | Some payload \<Rightarrow> Inr (EncryptedPrefix @ EncodeToString payload)))))"

definition decodeEnvelope :: "cbor \<Rightarrow> string \<Rightarrow> tokenfile_error + bytes \<times> cbor_map" where
  "decodeEnvelope cb text =
     (let text = TrimSpace text
      in if \<not> HasPrefix text EncryptedPrefix then Inl EncryptedWithoutPrefix
         else case DecodeString (TrimPrefix text EncryptedPrefix) of
                None \<Rightarrow> Inl EncryptedBase64
              | Some payload \<Rightarrow>
                  if payload = [] \<or> MaxEnvelopeSize < length payload then Inl EncryptedSize
                  else case UnmarshalAny cb payload of
                         None \<Rightarrow> Inl EncryptedCBOR
                       | Some entries \<Rightarrow> Inr (payload, entries))"

fun unsignedInteger :: "cbor_value option \<Rightarrow> u64 option" where
  "unsignedInteger (Some (CUint number)) = Some number"
| "unsignedInteger (Some (CInt number)) = (if 0 \<le> number then Some (word_of_int number) else None)"
| "unsignedInteger _ = None"

fun bytes_field :: "cbor_value option \<Rightarrow> bytes option" where
  "bytes_field (Some (CBytes bs)) = Some bs"
| "bytes_field _ = None"

definition sized_bytes :: "cbor_value option \<Rightarrow> (nat \<Rightarrow> bool) \<Rightarrow> bool" where
  "sized_bytes v ok \<longleftrightarrow> (case bytes_field v of None \<Rightarrow> False | Some bs \<Rightarrow> ok (length bs))"

definition validateEnvelopeFields :: "cbor_map \<Rightarrow> tokenfile_error option" where
  "validateEnvelopeFields entries =
     (if length entries \<noteq> unat (keyCiphertext + 1) then Some NotNineFields
      else case find (\<lambda>key. keyCiphertext < key) (map fst entries) of Some key \<Rightarrow> Some (UnknownEncryptedField key) | None \<Rightarrow>
        if unsignedInteger (map_of entries keyVersion) \<noteq> Some EncryptedVersion then Some (UnsupportedField keyVersion)
        else if map_of entries keyKDF \<noteq> Some (CText kdfName) then Some (UnsupportedField keyKDF)
        else if unsignedInteger (map_of entries keyKDFTime) \<noteq> Some argonTime then Some (UnsupportedField keyKDFTime)
        else if unsignedInteger (map_of entries keyKDFMemory) \<noteq> Some argonMemory then Some (UnsupportedField keyKDFMemory)
        else if unsignedInteger (map_of entries keyKDFThreads) \<noteq> Some argonThreads then Some (UnsupportedField keyKDFThreads)
        else if \<not> sized_bytes (map_of entries keySalt) (\<lambda>n. n = saltSize) then Some (UnsupportedField keySalt)
        else if map_of entries keyCipher \<noteq> Some (CText cipherName) then Some (UnsupportedField keyCipher)
        else if \<not> sized_bytes (map_of entries keyNonce) (\<lambda>n. n = nonceSize) then Some (UnsupportedField keyNonce)
        else if \<not> sized_bytes (map_of entries keyCiphertext) (\<lambda>n. 16 \<le> n) then Some (UnsupportedField keyCiphertext)
        else None)"

definition Decrypt :: "libp2p \<Rightarrow> cbor \<Rightarrow> cryptography \<Rightarrow> argon2 \<Rightarrow> string \<Rightarrow> bytes \<Rightarrow> tokenfile_error + string" where
  "Decrypt lp cb cr ar encryptedText password =
     (case validatePassword password of Some e \<Rightarrow> Inl e | None \<Rightarrow>
     (case decodeEnvelope cb encryptedText of Inl e \<Rightarrow> Inl e | Inr (payload, entries) \<Rightarrow>
      if Marshal cb entries \<noteq> Some payload then Inl EncryptedNotDeterministic
      else case validateEnvelopeFields entries of Some e \<Rightarrow> Inl e | None \<Rightarrow>
        (let salt = the (bytes_field (map_of entries keySalt));
             nonce = the (bytes_field (map_of entries keyNonce));
             ciphertext = the (bytes_field (map_of entries keyCiphertext));
             key = deriveKey ar password salt
         in if \<not> newAEAD key then Inl EncryptedCipher
            else case gcm_Open cr key nonce ciphertext additionalData of None \<Rightarrow> Inl WrongPassword | Some plaintext \<Rightarrow>
              (case Decode lp cb (bytes_string plaintext) of
                 Inl e \<Rightarrow> Inl (TokenInvalid e)
               | Inr _ \<Rightarrow> Inr (bytes_string plaintext)))))"

text \<open>
  Decoding into \<open>any\<close> gives the encoded values back, unsigned integers as signed ones, and these
  encode to the same bytes (an encoder writes a non-negative integer in one way).
\<close>

fun any_value :: "cbor_value \<Rightarrow> cbor_value" where
  "any_value (CUint n) = (if n < 2 ^ 63 then CInt (uint n) else CUint n)"
| "any_value v = v"

definition any_map :: "cbor_map \<Rightarrow> cbor_map" where
  "any_map m = map (\<lambda>(k, v). (k, any_value v)) m"

definition any_scalar :: "cbor_value \<Rightarrow> bool" where
  "any_scalar v \<longleftrightarrow> (case v of CUint n \<Rightarrow> n < 2 ^ 63 | CText s \<Rightarrow> ascii s | CBytes bs \<Rightarrow> True | _ \<Rightarrow> False)"

definition cbor_any_ok :: "cbor \<Rightarrow> bool" where
  "cbor_any_ok cb \<longleftrightarrow>
     (\<forall>m bs. distinct (map fst m) \<longrightarrow> length m \<le> 16 \<longrightarrow> list_all (\<lambda>(k, v). any_scalar v) m \<longrightarrow> Marshal cb m = Some bs \<longrightarrow>
        bs \<noteq> [] \<and> UnmarshalAny cb bs = Some (any_map m) \<and> Marshal cb (any_map m) = Some bs)"

section \<open>Envelopes\<close>

lemmas envelope_keys = keyVersion_def keyKDF_def keyKDFTime_def keyKDFMemory_def keyKDFThreads_def keySalt_def
  keyCipher_def keyNonce_def keyCiphertext_def

lemma any_envelope_map:
  "any_map (envelope_map salt nonce ciphertext) =
     [(0, CInt 1), (1, CText kdfName), (2, CInt 3), (3, CInt 65536), (4, CInt 4), (5, CBytes salt),
      (6, CText cipherName), (7, CBytes nonce), (8, CBytes ciphertext)]"
  by (simp add: any_map_def envelope_map_def envelope_keys EncryptedVersion_def argonTime_def argonMemory_def argonThreads_def)

lemma envelope_map_ok:
  "distinct (map fst (envelope_map salt nonce ciphertext))" "length (envelope_map salt nonce ciphertext) \<le> 16"
  "list_all (\<lambda>(k, v). any_scalar v) (envelope_map salt nonce ciphertext)"
  by (simp_all add: envelope_map_def envelope_keys any_scalar_def EncryptedVersion_def argonTime_def argonMemory_def
      argonThreads_def kdfName_def cipherName_def ascii_def)

lemma validate_envelope:
  assumes "length salt = 16" and "length nonce = 12" and "16 \<le> length ciphertext"
  shows "validateEnvelopeFields (any_map (envelope_map salt nonce ciphertext)) = None"
  using assms unfolding any_envelope_map
  by (simp add: validateEnvelopeFields_def envelope_keys sized_bytes_def EncryptedVersion_def argonTime_def argonMemory_def
      argonThreads_def saltSize_def nonceSize_def)

lemma EncryptedPrefix_visible: "list_all visible_char EncryptedPrefix"
  by (simp add: EncryptedPrefix_def visible_char_def)

lemma TrimSpace_encrypted: "TrimSpace (EncryptedPrefix @ EncodeToString payload) = EncryptedPrefix @ EncodeToString payload"
  using EncryptedPrefix_visible alphabet_visible [OF EncodeToString_alphabet] by (intro TrimSpace_visible) simp

lemma Decrypt_Encrypt:
  assumes "cbor_any_ok cb" and "gcm_ok cr" and "length (ar password salt 3 65536 4 32) = 32"
    and "rnd 16 = Some salt" and "length salt = 16" and "rnd 12 = Some nonce" and "length nonce = 12"
    and "Encrypt lp cb cr ar rnd tokenText password = Inr (EncryptedPrefix @ EncodeToString payload)"
    and "length payload \<le> MaxEnvelopeSize"
  shows "Decrypt lp cb cr ar (EncryptedPrefix @ EncodeToString payload) password = Inr (TrimSpace tokenText)"
proof -
  define key where "key = deriveKey ar password salt"
  define ciphertext where "ciphertext = gcm_Seal cr key nonce (string_bytes (TrimSpace tokenText)) additionalData"
  have key: "length key = 32"
    using assms(3) by (simp add: key_def deriveKey_def argonTime_def argonMemory_def argonThreads_def keySize_def)
  obtain t where E: "Decode lp cb (TrimSpace tokenText) = Inr t" "validatePassword password = None"
      "Marshal cb (envelope_map salt nonce ciphertext) = Some payload"
    using assms(4,6,8) by (auto simp: Encrypt_def Let_def saltSize_def nonceSize_def key_def ciphertext_def
        split: sum.splits option.splits if_splits)
  have A: "payload \<noteq> []" "UnmarshalAny cb payload = Some (any_map (envelope_map salt nonce ciphertext))"
      "Marshal cb (any_map (envelope_map salt nonce ciphertext)) = Some payload"
    using assms(1) envelope_map_ok E(3) unfolding cbor_any_ok_def by blast+
  have D: "decodeEnvelope cb (EncryptedPrefix @ EncodeToString payload) = Inr (payload, any_map (envelope_map salt nonce ciphertext))"
    using A(1,2) assms(9) by (simp add: decodeEnvelope_def TrimSpace_encrypted)
  have G: "length ciphertext = length (TrimSpace tokenText) + 16"
      "gcm_Open cr key nonce ciphertext additionalData = Some (string_bytes (TrimSpace tokenText))"
    using assms(2,7) by (simp_all add: gcm_ok_def ciphertext_def)
  have V: "validateEnvelopeFields (any_map (envelope_map salt nonce ciphertext)) = None"
    by (rule validate_envelope) (use assms(5,7) G(1) in simp_all)
  have B: "bytes_field (map_of (any_map (envelope_map salt nonce ciphertext)) keySalt) = Some salt"
    "bytes_field (map_of (any_map (envelope_map salt nonce ciphertext)) keyNonce) = Some nonce"
    "bytes_field (map_of (any_map (envelope_map salt nonce ciphertext)) keyCiphertext) = Some ciphertext"
    unfolding any_envelope_map by (simp_all add: envelope_keys)
  show ?thesis unfolding Decrypt_def
    using E(1,2) D A(3) V B G(2) key by (simp add: Let_def newAEAD_def flip: key_def)
qed

text \<open>
  a token encrypted under a password comes back, without the white space around it, when it
  is decrypted with the same password, and decodes to the same token.
\<close>

theorem token_encryption_roundtrip:
  assumes "cbor_any_ok cb" and "gcm_ok cr" and "length (ar password salt 3 65536 4 32) = 32"
    and "rnd 16 = Some salt" and "length salt = 16" and "rnd 12 = Some nonce" and "length nonce = 12"
    and "Encrypt lp cb cr ar rnd tokenText password = Inr (EncryptedPrefix @ EncodeToString payload)"
    and "length payload \<le> MaxEnvelopeSize"
  shows "\<exists>text t. Decrypt lp cb cr ar (EncryptedPrefix @ EncodeToString payload) password = Inr text \<and>
    text = TrimSpace tokenText \<and> Decode lp cb text = Inr t \<and> Decode lp cb tokenText = Inr t"
proof -
  obtain t where "Decode lp cb (TrimSpace tokenText) = Inr t"
    using assms(8) by (auto simp: Encrypt_def Let_def split: sum.splits)
  moreover from this have "Decode lp cb tokenText = Inr t" by (simp add: Decode_def Let_def)
  ultimately show ?thesis using Decrypt_Encrypt [OF assms] by blast
qed


lemma sample_any_value:
  assumes "any_scalar v" and "sample_size_ok v"
  shows "map_option signed_value (sample_value (sample_raw v)) = Some (any_value v)"
    and "sample_raw (any_value v) = sample_raw v" and "sample_size_ok (any_value v)"
proof -
  have "sample_value (sample_raw v) = Some v" using assms by (intro sample_value_raw) (auto simp: any_scalar_def)
  then show "map_option signed_value (sample_value (sample_raw v)) = Some (any_value v)"
    using assms(1) by (cases v) (simp_all add: any_scalar_def del: sample_raw.simps sample_value.simps)
  show "sample_raw (any_value v) = sample_raw v"
    using assms(1) by (cases v) (simp_all add: any_scalar_def)
  show "sample_size_ok (any_value v)"
    using assms by (cases v) (simp_all add: any_scalar_def be64.width_enc)
qed

lemma sample_cbor_any_ok: "cbor_any_ok sample_cbor"
proof -
  have "bs \<noteq> [] \<and> UnmarshalAny sample_cbor bs = Some (any_map m) \<and> Marshal sample_cbor (any_map m) = Some bs"
    if sc: "list_all (\<lambda>(k, v). any_scalar v) m" and M: "Marshal sample_cbor m = Some bs" for m bs
  proof -
    have M': "sample_Marshal m = Some bs" using M by (simp add: sample_cbor_def)
    have ok: "list_all (\<lambda>(k, v). sample_size_ok v) m"
      and bs: "bs = 160 # concat (map (\<lambda>(k, v). blob (put_uint64 k) @ blob (sample_raw v)) m)"
      using M' by (auto simp: sample_Marshal_def split: if_splits)
    have "those (map (\<lambda>(k, r). map_option (\<lambda>v. (k, signed_value v)) (sample_value r)) (map (\<lambda>(k, v). (k, sample_raw v)) m)) = Some (any_map m)"
      using sc ok
    proof (induction m)
      case (Cons x m)
      obtain k v where x: "x = (k, v)" by fastforce
      obtain w where w: "sample_value (sample_raw v) = Some w" "signed_value w = any_value v"
        using sample_any_value(1) [of v] Cons.prems x by auto
      show ?case using Cons w by (simp add: x any_map_def)
    qed (simp add: any_map_def)
    moreover have "sample_UnmarshalMap bs = Some (map (\<lambda>(k, v). (k, sample_raw v)) m)" by (rule sample_UnmarshalMap_Marshal [OF M'])
    moreover have "concat (map (\<lambda>(k, v). blob (put_uint64 k) @ blob (sample_raw v)) (any_map m)) =
        concat (map (\<lambda>(k, v). blob (put_uint64 k) @ blob (sample_raw v)) m)" "list_all (\<lambda>(k, v). sample_size_ok v) (any_map m)"
      using sc ok by (induction m) (auto simp: any_map_def sample_any_value)
    ultimately show ?thesis using bs by (simp add: sample_cbor_def sample_Marshal_def)
  qed
  then show ?thesis unfolding cbor_any_ok_def by blast
qed

definition sample_argon2 :: argon2 where
  "sample_argon2 password salt t m p n = array_of n (salt @ password)"

definition sample_salt :: bytes where "sample_salt = replicate 16 5"
definition sample_nonce :: bytes where "sample_nonce = replicate 12 6"
definition sample_password :: bytes where "sample_password = replicate 8 1"

lemma sample_lengths [simp]: "length sample_salt = 16" "length sample_nonce = 12" "length sample_password = 8"
  unfolding sample_salt_def sample_nonce_def sample_password_def length_replicate by (rule refl)+

definition sample_random :: random_source where
  "sample_random n = Some (if n = 16 then sample_salt else sample_nonce)"

definition sample_text :: string where
  "sample_text = TokenPrefix @ EncodeToString sample_payload"

lemma sample_encrypted:
  obtains payload where "length payload \<le> MaxEnvelopeSize"
    and "Encrypt sample_libp2p sample_cbor sample_cryptography sample_argon2 sample_random sample_text sample_password =
      Inr (EncryptedPrefix @ EncodeToString payload)"
proof -
  define key where "key = deriveKey sample_argon2 sample_password sample_salt"
  define ct where "ct = gcm_Seal sample_cryptography key sample_nonce (string_bytes sample_text) additionalData"
  have key: "length key = 32" by (simp add: key_def deriveKey_def sample_argon2_def keySize_def)
  have "length sample_text \<le> 30000"
    using sample_payload_length by (simp add: sample_text_def MaxTokenSize_def length_EncodeToString TokenPrefix_def)
  moreover have "length ct = length sample_text + 16"
    using sample_gcm_ok by (simp add: gcm_ok_def ct_def)
  ultimately have ct: "length ct \<le> 30016" by simp
  obtain payload where P: "Marshal sample_cbor (envelope_map sample_salt sample_nonce ct) = Some payload" "length payload \<le> MaxEnvelopeSize"
    using ct by (simp add: sample_cbor_def sample_Marshal_def envelope_map_def blob_def be64.width_enc kdfName_def cipherName_def
        MaxEnvelopeSize_def)
  have "validatePassword sample_password = None"
    by (simp add: validatePassword_def MinimumPasswordSize_def MaximumPasswordSize_def)
  moreover have "sample_random saltSize = Some sample_salt" "sample_random nonceSize = Some sample_nonce"
    by (simp_all add: sample_random_def saltSize_def nonceSize_def)
  moreover have "newAEAD key" using key by (simp add: newAEAD_def)
  moreover have "TrimSpace sample_text = sample_text" by (simp add: sample_text_def TrimSpace_token)
  moreover have "Decode sample_libp2p sample_cbor sample_text = Inr (canonical_token sample_libp2p sample_token)"
    by (simp add: sample_text_def sample_token_Decode)
  ultimately have "Encrypt sample_libp2p sample_cbor sample_cryptography sample_argon2 sample_random sample_text sample_password =
      Inr (EncryptedPrefix @ EncodeToString payload)"
    using P(1) by (simp add: Encrypt_def flip: key_def ct_def)
  with P(2) show ?thesis by (rule that)
qed

lemma sample_argon2_length: "length (sample_argon2 sample_password sample_salt 3 65536 4 32) = 32"
  by (simp only: sample_argon2_def length_array_of)

lemma sample_random_values: "sample_random 16 = Some sample_salt" "sample_random 12 = Some sample_nonce"
  by (simp_all add: sample_random_def)

lemmas sample_encryption = sample_cbor_any_ok sample_gcm_ok sample_argon2_length sample_random_values(1) sample_lengths(1)
  sample_random_values(2) sample_lengths(2)

theorem token_encryption_roundtrip_witness:
  "\<exists>payload text t. Encrypt sample_libp2p sample_cbor sample_cryptography sample_argon2 sample_random sample_text sample_password =
       Inr (EncryptedPrefix @ EncodeToString payload) \<and>
     Decrypt sample_libp2p sample_cbor sample_cryptography sample_argon2 (EncryptedPrefix @ EncodeToString payload) sample_password =
       Inr text \<and> Decode sample_libp2p sample_cbor text = Inr t \<and> Decode sample_libp2p sample_cbor sample_text = Inr t"
proof -
  obtain payload where P: "length payload \<le> MaxEnvelopeSize"
      "Encrypt sample_libp2p sample_cbor sample_cryptography sample_argon2 sample_random sample_text sample_password =
        Inr (EncryptedPrefix @ EncodeToString payload)"
    by (rule sample_encrypted)
  from token_encryption_roundtrip [OF sample_encryption P(2,1)] P(2) show ?thesis by blast
qed


end
