(* ===== verification/Go_Net.thy ===== *)
theory Go_Net
  imports Go_Text
begin

text \<open>
  What the program uses of Go's \<open>net\<close> package on host and port strings: \<open>net.SplitHostPort\<close> and
  \<open>net.JoinHostPort\<close>, as the standard library defines them.
\<close>

datatype addr_error = MissingPort | TooManyColons | MissingBracket | UnexpectedOpen | UnexpectedClose

fun index_of :: "char \<Rightarrow> string \<Rightarrow> nat option" where
  "index_of c [] = None"
| "index_of c (x # xs) = (if x = c then Some 0 else map_option Suc (index_of c xs))"

fun last_index_of :: "char \<Rightarrow> string \<Rightarrow> nat option" where
  "last_index_of c [] = None"
| "last_index_of c (x # xs) =
     (case last_index_of c xs of Some i \<Rightarrow> Some (Suc i) | None \<Rightarrow> if x = c then Some 0 else None)"

definition split_rest :: "string \<Rightarrow> string \<Rightarrow> nat \<Rightarrow> nat \<Rightarrow> nat \<Rightarrow> addr_error + string \<times> string" where
  "split_rest hostport host i j k =
     (if CHR ''['' \<in> set (drop j hostport) then Inl UnexpectedOpen
      else if CHR '']'' \<in> set (drop k hostport) then Inl UnexpectedClose
      else Inr (host, drop (i + 1) hostport))"

definition SplitHostPort :: "string \<Rightarrow> addr_error + string \<times> string" where
  "SplitHostPort hostport =
     (case last_index_of (CHR '':'') hostport of
        None \<Rightarrow> Inl MissingPort
      | Some i \<Rightarrow>
          if hd hostport = CHR ''['' then
            (case index_of (CHR '']'') hostport of
               None \<Rightarrow> Inl MissingBracket
             | Some end_at \<Rightarrow>
                 if end_at + 1 = length hostport then Inl MissingPort
                 else if end_at + 1 = i then split_rest hostport (take (end_at - 1) (drop 1 hostport)) i 1 (end_at + 1)
                 else if hostport ! (end_at + 1) = CHR '':'' then Inl TooManyColons
                 else Inl MissingPort)
          else let host = take i hostport
               in if CHR '':'' \<in> set host then Inl TooManyColons else split_rest hostport host i 0 0)"

definition JoinHostPort :: "string \<Rightarrow> string \<Rightarrow> string" where
  "JoinHostPort host port =
     (if CHR '':'' \<in> set host then ''['' @ host @ '']:'' @ port else host @ '':'' @ port)"

lemma index_of_append: "c \<notin> set xs \<Longrightarrow> index_of c (xs @ c # ys) = Some (length xs)"
  by (induction xs) auto

lemma last_index_of_None: "last_index_of c xs = None \<longleftrightarrow> c \<notin> set xs"
  by (induction xs) (auto split: option.splits)

lemma last_index_of_append: "c \<notin> set ys \<Longrightarrow> last_index_of c (xs @ c # ys) = Some (length xs)"
proof (induction xs)
  case Nil
  then show ?case using last_index_of_None [of c ys] by simp
qed simp

lemma last_index_ofD: "last_index_of c xs = Some i \<Longrightarrow> \<exists>ys zs. xs = ys @ c # zs \<and> length ys = i \<and> c \<notin> set zs"
proof (induction xs arbitrary: i)
  case (Cons x xs)
  show ?case
  proof (cases "last_index_of c xs")
    case None
    have "c \<notin> set xs" using None by (simp add: last_index_of_None)
    moreover have "x = c" "i = 0" using Cons.prems None by (simp_all split: if_splits)
    ultimately have "x # xs = [] @ c # xs \<and> length ([] :: string) = i \<and> c \<notin> set xs" by simp
    then show ?thesis by blast
  next
    case (Some j)
    then obtain ys zs where "xs = ys @ c # zs" "length ys = j" "c \<notin> set zs" using Cons.IH by blast
    then have "x # xs = (x # ys) @ c # zs \<and> length (x # ys) = i \<and> c \<notin> set zs" using Cons.prems Some by simp
    then show ?thesis by blast
  qed
qed simp

lemma split_join:
  assumes "CHR ''['' \<notin> set host" and "CHR '']'' \<notin> set host"
    and "CHR '':'' \<notin> set port" and "CHR ''['' \<notin> set port" and "CHR '']'' \<notin> set port"
  shows "SplitHostPort (JoinHostPort host port) = Inr (host, port)"
proof (cases "CHR '':'' \<in> set host")
  case True
  let ?s = "CHR ''['' # host @ CHR '']'' # CHR '':'' # port"
  have l: "last_index_of (CHR '':'') ?s = Some (Suc (Suc (length host)))"
    using last_index_of_append [OF assms(3), of "CHR ''['' # host @ [CHR '']'']"] by simp
  have i: "index_of (CHR '']'') ?s = Some (Suc (length host))"
    using index_of_append [of "CHR '']''" "CHR ''['' # host" "CHR '':'' # port"] assms(2) by simp
  show ?thesis using True assms l i by (simp add: JoinHostPort_def SplitHostPort_def split_rest_def)
next
  case False
  have "last_index_of (CHR '':'') (host @ CHR '':'' # port) = Some (length host)"
    by (rule last_index_of_append [OF assms(3)])
  moreover have "hd (host @ CHR '':'' # port) \<noteq> CHR ''[''" using assms(1) by (cases host) auto
  ultimately show ?thesis using False assms by (simp add: JoinHostPort_def SplitHostPort_def split_rest_def)
qed

end
