(* ===== verification/Go_Paths.thy ===== *)
theory Go_Paths
  imports Go_Net
begin

text \<open>
  What the program uses of \<open>path/filepath\<close> on a Unix system: lexical cleaning, joining and
  taking apart of slash-separated names.
\<close>

fun split_on :: "char \<Rightarrow> string \<Rightarrow> string list" where
  "split_on c [] = [[]]"
| "split_on c (x # xs) =
     (if x = c then [] # split_on c xs
      else case split_on c xs of [] \<Rightarrow> [[x]] | y # ys \<Rightarrow> (x # y) # ys)"

fun join_with :: "string \<Rightarrow> string list \<Rightarrow> string" where
  "join_with sep [] = []"
| "join_with sep [x] = x"
| "join_with sep (x # y # ys) = x @ sep @ join_with sep (y # ys)"

fun clean_elements :: "bool \<Rightarrow> string list \<Rightarrow> string list \<Rightarrow> string list" where
  "clean_elements rooted out [] = rev out"
| "clean_elements rooted out (e # es) =
     (if e = [] \<or> e = ''.'' then clean_elements rooted out es
      else if e = ''..'' then
        (if out \<noteq> [] \<and> hd out \<noteq> ''..'' then clean_elements rooted (tl out) es
         else if rooted then clean_elements rooted out es
         else clean_elements rooted (e # out) es)
      else clean_elements rooted (e # out) es)"

definition IsAbs :: "string \<Rightarrow> bool" where
  "IsAbs p \<longleftrightarrow> HasPrefix p ''/''"

definition Clean :: "string \<Rightarrow> string" where
  "Clean p =
     (let out = join_with ''/'' (clean_elements (IsAbs p) [] (split_on (CHR ''/'') p))
      in if IsAbs p then ''/'' @ out else if out = [] then ''.'' else out)"

definition Join :: "string list \<Rightarrow> string" where
  "Join elements =
     (case dropWhile (\<lambda>e. e = []) elements of [] \<Rightarrow> [] | es \<Rightarrow> Clean (join_with ''/'' es))"

definition Dir :: "string \<Rightarrow> string" where
  "Dir p = Clean (case last_index_of (CHR ''/'') p of None \<Rightarrow> [] | Some i \<Rightarrow> take (i + 1) p)"

definition Base :: "string \<Rightarrow> string" where
  "Base p =
     (if p = [] then ''.''
      else let q = rev (dropWhile (\<lambda>c. c = CHR ''/'') (rev p));
               b = (case last_index_of (CHR ''/'') q of None \<Rightarrow> q | Some i \<Rightarrow> drop (i + 1) q)
           in if b = [] then ''/'' else b)"

definition Ext :: "string \<Rightarrow> string" where
  "Ext p =
     (let b = (case last_index_of (CHR ''/'') p of None \<Rightarrow> p | Some i \<Rightarrow> drop (i + 1) p)
      in case last_index_of (CHR ''.'') b of None \<Rightarrow> [] | Some i \<Rightarrow> drop i b)"

definition Abs :: "string option \<Rightarrow> string \<Rightarrow> string option" where
  "Abs cwd p = (if IsAbs p then Some (Clean p) else map_option (\<lambda>wd. Join [wd, p]) cwd)"

section \<open>Elements of a clean name\<close>

definition plain_element :: "string \<Rightarrow> bool" where
  "plain_element e \<longleftrightarrow> e \<noteq> [] \<and> e \<noteq> ''.'' \<and> e \<noteq> ''..'' \<and> CHR ''/'' \<notin> set e"

lemma split_on_not_Nil [simp]: "split_on c s \<noteq> []"
  by (induction s) (auto split: list.split)

lemma split_on_sep: "c \<notin> set a \<Longrightarrow> split_on c (a @ c # b) = a # split_on c b"
  by (induction a) auto

lemma split_on_single: "c \<notin> set a \<Longrightarrow> split_on c a = [a]"
  by (induction a) auto

lemma split_on_join:
  "es \<noteq> [] \<Longrightarrow> list_all (\<lambda>e. c \<notin> set e) es \<Longrightarrow> split_on c (join_with [c] es) = es"
  by (induction "[c]" es rule: join_with.induct) (simp_all add: split_on_single split_on_sep)

lemma split_on_elements: "e \<in> set (split_on c s) \<Longrightarrow> c \<notin> set e"
  by (induction s arbitrary: e) (auto split: if_splits list.splits)

lemma clean_elements_plain: "list_all plain_element es \<Longrightarrow> clean_elements rooted out es = rev out @ es"
  by (induction es arbitrary: out) (auto simp: plain_element_def)

lemma clean_elements_rooted:
  "list_all plain_element out \<Longrightarrow> (\<And>e. e \<in> set es \<Longrightarrow> CHR ''/'' \<notin> set e) \<Longrightarrow>
   list_all plain_element (clean_elements True out es)"
proof (induction es arbitrary: out)
  case (Cons e es)
  have "list_all plain_element (tl out)" using Cons.prems(1) by (cases out) simp_all
  moreover have "plain_element e" if "e \<noteq> []" "e \<noteq> ''.''" "e \<noteq> ''..''"
    using that Cons.prems(2) [of e] by (simp add: plain_element_def)
  ultimately show ?case using Cons by (auto simp del: list_all_rev)
qed (simp add: list_all_rev)

text \<open>An absolute clean name is a slash before its plain elements.\<close>

definition abs_name :: "string list \<Rightarrow> string" where
  "abs_name es = ''/'' @ join_with ''/'' es"

lemma Clean_abs: "IsAbs p \<Longrightarrow> \<exists>es. list_all plain_element es \<and> Clean p = abs_name es"
  using clean_elements_rooted [of "[]" "split_on (CHR ''/'') p"] split_on_elements
  by (fastforce simp: Clean_def abs_name_def Let_def)

lemma split_abs_name:
  assumes "list_all plain_element es" and "es \<noteq> []"
  shows "split_on (CHR ''/'') (abs_name es) = [] # es"
  using split_on_join [OF assms(2), of "CHR ''/''"] assms(1)
  by (simp add: abs_name_def plain_element_def list_all_iff)

lemma Clean_abs_name:
  assumes "list_all plain_element es"
  shows "Clean (abs_name es) = abs_name es"
proof (cases "es = []")
  case True
  show ?thesis by (simp add: True abs_name_def) code_simp
next
  case False
  have "IsAbs (abs_name es)" by (simp add: abs_name_def IsAbs_def HasPrefix_iff)
  then show ?thesis
    using split_abs_name [OF assms False] clean_elements_plain [OF assms, of True "[]"]
    by (simp add: Clean_def Let_def) (simp add: abs_name_def)
qed

lemma join_with_append:
  "xs \<noteq> [] \<Longrightarrow> ys \<noteq> [] \<Longrightarrow> join_with sep (xs @ ys) = join_with sep xs @ sep @ join_with sep ys"
proof (induction sep xs rule: join_with.induct)
  case (2 sep x)
  then show ?case by (cases ys) simp_all
qed simp_all

lemma Join_abs:
  assumes "list_all plain_element es" and "list_all plain_element fs" and "fs \<noteq> []"
  shows "Join [abs_name es, join_with ''/'' fs] = abs_name (es @ fs)"
proof -
  have p: "list_all plain_element (es @ fs)" using assms by simp
  have j: "join_with ''/'' [abs_name es, join_with ''/'' fs] = abs_name es @ ''/'' @ join_with ''/'' fs" by simp
  have "Clean (abs_name es @ ''/'' @ join_with ''/'' fs) = abs_name (es @ fs)"
  proof (cases "es = []")
    case True
    have "split_on (CHR ''/'') (''//'' @ join_with ''/'' fs) = [] # [] # fs"
      using split_on_join [OF assms(3), of "CHR ''/''"] assms(2) by (simp add: plain_element_def list_all_iff)
    then show ?thesis using True clean_elements_plain [OF assms(2), of True "[]"]
      by (simp add: abs_name_def Clean_def Let_def IsAbs_def HasPrefix_iff)
  next
    case False
    have "abs_name es @ ''/'' @ join_with ''/'' fs = abs_name (es @ fs)"
      using join_with_append [OF False assms(3), of "''/''"] by (simp add: abs_name_def)
    then show ?thesis using Clean_abs_name [OF p] by simp
  qed
  moreover have "abs_name es \<noteq> []" by (simp add: abs_name_def)
  ultimately show ?thesis using j by (simp add: Join_def)
qed

lemma Abs_clean:
  assumes "Abs cwd p = Some q" and "\<And>wd. cwd = Some wd \<Longrightarrow> IsAbs wd"
  shows "\<exists>es. list_all plain_element es \<and> q = abs_name es"
proof (cases "IsAbs p")
  case True
  then show ?thesis using assms(1) Clean_abs by (auto simp: Abs_def)
next
  case False
  then obtain wd where wd: "cwd = Some wd" "q = Join [wd, p]" using assms(1) by (auto simp: Abs_def)
  have "wd \<noteq> []" and "IsAbs (join_with ''/'' [wd, p])" using assms(2) [OF wd(1)] by (auto simp: IsAbs_def HasPrefix_iff)
  then show ?thesis using Clean_abs [of "join_with ''/'' [wd, p]"] wd by (simp add: Join_def)
qed

lemma Abs_idem:
  assumes "Abs cwd p = Some q" and "\<And>wd. cwd = Some wd \<Longrightarrow> IsAbs wd"
  shows "Abs cwd q = Some q" and "q \<noteq> []"
proof -
  obtain es where es: "list_all plain_element es" "q = abs_name es" using Abs_clean [OF assms] by blast
  have "IsAbs q" by (simp add: es(2) abs_name_def IsAbs_def HasPrefix_iff)
  then show "Abs cwd q = Some q" "q \<noteq> []" using Clean_abs_name [OF es(1)] by (auto simp: Abs_def es(2) abs_name_def)
qed

end
