(* ===== verification/Go_Files.thy ===== *)
theory Go_Files
  imports Go_Paths "HOL-Library.Sublist"
begin

text \<open>
  The files the program reads and writes. A file system maps absolute clean names to nodes; a
  symbolic link holds an absolute clean name, and links inside a directory part are not
  followed. Every system call can also fail for reasons outside the model: the record
  \<open>os_faults\<close> says which calls fail, and theorems quantify over it. \<open>os_host\<close> holds what the
  process learns from its environment.

  The files of the program that guard a secret by its permission bits
  (\<open>src/internal/secretfile/permissions_unix.go\<close>) are \<open>CheckPermissions\<close> and \<open>Protect\<close>.
\<close>

datatype fs_node = Regular u32 bytes | Directory | Special | Symlink string

type_synonym fs = "string \<rightharpoonup> fs_node"

datatype os_error = ErrNotExist | ErrExist | ErrIO

record os_host =
  os_Getenv :: "string \<Rightarrow> string"
  os_GOOS :: string
  os_Executable :: "string option"
  os_Getwd :: "string option"
  os_UserHomeDir :: "string option"
  os_UserCacheDir :: "string option"
  os_TempDir :: string
  os_EvalSymlinks :: "string \<Rightarrow> string option"

record os_faults =
  ft_open :: bool
  ft_stat :: bool
  ft_read :: bool
  ft_mkdir :: bool
  ft_create :: bool
  ft_write :: "nat option"
  ft_chmod :: bool
  ft_close :: bool
  ft_remove :: bool
  ft_umask :: u32

definition no_faults :: os_faults where
  "no_faults = \<lparr>ft_open = False, ft_stat = False, ft_read = False, ft_mkdir = False, ft_create = False,
     ft_write = None, ft_chmod = False, ft_close = False, ft_remove = False, ft_umask = 0x12\<rparr>"

fun follow :: "nat \<Rightarrow> fs \<Rightarrow> string \<Rightarrow> os_error + fs_node" where
  "follow 0 fs p = Inl ErrIO"
| "follow (Suc n) fs p =
     (case fs p of
        None \<Rightarrow> Inl ErrNotExist
      | Some (Symlink q) \<Rightarrow> follow n fs q
      | Some node \<Rightarrow> Inr node)"

definition max_links :: nat where "max_links = 40"

definition os_Open :: "os_faults \<Rightarrow> fs \<Rightarrow> string \<Rightarrow> os_error + fs_node" where
  "os_Open ft fs p = (if ft_open ft then Inl ErrIO else follow (Suc max_links) fs p)"

definition os_Stat :: "os_faults \<Rightarrow> fs \<Rightarrow> string \<Rightarrow> os_error + fs_node" where
  "os_Stat ft fs p = (if ft_stat ft then Inl ErrIO else follow (Suc max_links) fs p)"

fun IsRegular :: "fs_node \<Rightarrow> bool" where
  "IsRegular (Regular perm data) \<longleftrightarrow> True"
| "IsRegular _ \<longleftrightarrow> False"

fun node_perm :: "fs_node \<Rightarrow> u32" where
  "node_perm (Regular perm data) = perm"
| "node_perm _ = 0"

fun node_data :: "fs_node \<Rightarrow> bytes" where
  "node_data (Regular perm data) = data"
| "node_data _ = []"

text \<open>\<open>io.ReadAll(io.LimitReader(file, n))\<close>.\<close>

definition ReadAll_limit :: "os_faults \<Rightarrow> fs_node \<Rightarrow> nat \<Rightarrow> bytes option" where
  "ReadAll_limit ft file n = (if ft_read ft then None else Some (take n (node_data file)))"

definition CheckPermissions :: "fs_node \<Rightarrow> bool" where
  "CheckPermissions info \<longleftrightarrow> node_perm info AND 0x3F = 0"

section \<open>Calls that change the file system\<close>

fun mkdirs :: "fs \<Rightarrow> string list \<Rightarrow> os_error + fs" where
  "mkdirs fs [] = Inr fs"
| "mkdirs fs (p # ps) =
     (case follow (Suc max_links) fs p of
        Inr Directory \<Rightarrow> mkdirs fs ps
      | Inr _ \<Rightarrow> Inl ErrIO
      | Inl ErrNotExist \<Rightarrow> if fs p = None then mkdirs (fs(p \<mapsto> Directory)) ps else Inl ErrExist
      | Inl e \<Rightarrow> Inl e)"

definition path_elements :: "string \<Rightarrow> string list" where
  "path_elements p = filter (\<lambda>e. e \<noteq> []) (split_on (CHR ''/'') p)"

definition MkdirAll :: "os_faults \<Rightarrow> fs \<Rightarrow> string \<Rightarrow> os_error + fs" where
  "MkdirAll ft fs p = (if ft_mkdir ft then Inl ErrIO else mkdirs fs (map abs_name (prefixes (path_elements p))))"

definition OpenFile_excl :: "os_faults \<Rightarrow> fs \<Rightarrow> string \<Rightarrow> u32 \<Rightarrow> os_error + fs" where
  "OpenFile_excl ft fs p perm =
     (if ft_create ft then Inl ErrIO
      else if fs p \<noteq> None then Inl ErrExist
      else Inr (fs(p \<mapsto> Regular (perm AND NOT (ft_umask ft)) [])))"

definition WriteFile :: "os_faults \<Rightarrow> fs \<Rightarrow> string \<Rightarrow> bytes \<Rightarrow> fs \<times> bool" where
  "WriteFile ft fs p data =
     (case fs p of
        Some (Regular perm old) \<Rightarrow>
          (case ft_write ft of
             None \<Rightarrow> (fs(p \<mapsto> Regular perm (old @ data)), True)
           | Some n \<Rightarrow> (fs(p \<mapsto> Regular perm (old @ take n data)), False))
      | _ \<Rightarrow> (fs, False))"

definition Protect :: "os_faults \<Rightarrow> fs \<Rightarrow> string \<Rightarrow> fs \<times> bool" where
  "Protect ft fs p =
     (if ft_chmod ft then (fs, False)
      else case fs p of
             Some (Regular perm data) \<Rightarrow> (fs(p \<mapsto> Regular 0x180 data), True)
           | _ \<Rightarrow> (fs, False))"

definition os_Remove :: "os_faults \<Rightarrow> fs \<Rightarrow> string \<Rightarrow> fs" where
  "os_Remove ft fs p = (if ft_remove ft then fs else fs(p := None))"

text \<open>
  \<open>os.WriteFile\<close>: the file behind links is created or truncated and then written. Devices and
  pipes are outside the model.
\<close>

fun link_target :: "nat \<Rightarrow> fs \<Rightarrow> string \<Rightarrow> string option" where
  "link_target 0 fs p = None"
| "link_target (Suc n) fs p = (case fs p of Some (Symlink q) \<Rightarrow> link_target n fs q | _ \<Rightarrow> Some p)"

definition os_WriteFile :: "os_faults \<Rightarrow> fs \<Rightarrow> string \<Rightarrow> u32 \<Rightarrow> bytes \<Rightarrow> fs \<times> bool" where
  "os_WriteFile ft fs p perm data =
     (if ft_create ft then (fs, False)
      else case link_target (Suc max_links) fs p of None \<Rightarrow> (fs, False) | Some q \<Rightarrow>
        (case (case fs q of None \<Rightarrow> Some (Regular (perm AND NOT (ft_umask ft)) [])
                | Some (Regular old bs) \<Rightarrow> Some (Regular old [])
                | _ \<Rightarrow> None) of
           None \<Rightarrow> (fs, False)
         | Some blank \<Rightarrow> (case WriteFile ft (fs(q \<mapsto> blank)) q data of (fs', ok) \<Rightarrow> (fs', ok \<and> \<not> ft_close ft))))"

definition os_ReadFile :: "os_faults \<Rightarrow> fs \<Rightarrow> string \<Rightarrow> bytes option" where
  "os_ReadFile ft fs path =
     (case os_Open ft fs path of Inl e \<Rightarrow> None | Inr node \<Rightarrow> if ft_read ft \<or> \<not> IsRegular node then None else Some (node_data node))"

section \<open>Laws\<close>

lemma follow_extends:
  assumes "\<And>q node. fs q = Some node \<Longrightarrow> fs' q = Some node"
  shows "follow n fs p = Inr node \<Longrightarrow> follow n fs' p = Inr node"
proof (induction n arbitrary: p)
  case (Suc n)
  then obtain m where "fs p = Some m" by (auto simp: follow.simps split: option.splits)
  with Suc assms [OF this] show ?case by (auto simp: follow.simps split: fs_node.splits)
qed (simp add: follow.simps)

declare follow.simps [simp del]

lemma follow_Some [simp]:
  "fs p = None \<Longrightarrow> follow (Suc n) fs p = Inl ErrNotExist"
  "fs p = Some (Regular perm data) \<Longrightarrow> follow (Suc n) fs p = Inr (Regular perm data)"
  "fs p = Some Directory \<Longrightarrow> follow (Suc n) fs p = Inr Directory"
  by (simp_all add: follow.simps)

lemma os_Open_no_faults: "os_Open ft fs p = Inr file \<Longrightarrow> os_Open no_faults fs p = Inr file"
  by (simp add: os_Open_def no_faults_def split: if_splits)

lemma mkdirs_frame:
  "mkdirs fs ps = Inr fs' \<Longrightarrow> fs' q = fs q \<or> fs q = None \<and> fs' q = Some Directory \<and> q \<in> set ps"
proof (induction ps arbitrary: fs)
  case (Cons p ps)
  then show ?case
    by (fastforce split: sum.splits fs_node.splits os_error.splits if_splits)
qed simp

lemma MkdirAll_frame:
  "MkdirAll ft fs p = Inr fs' \<Longrightarrow> fs' q = fs q \<or> fs q = None \<and> fs' q = Some Directory"
  using mkdirs_frame by (auto simp: MkdirAll_def split: if_splits)

end
