(* ===== verification/App_Dir.thy ===== *)
theory App_Dir
  imports Go_Files
begin

text \<open>
  \<open>src/internal/appdir/appdir.go\<close>: the program's own folder next to the executable, and the
  resolution of paths from a configuration. The operations may create the folder, so they
  return the file system with their result.
\<close>

definition DirName :: string where "DirName = ''oobe''"
definition OverrideEnvironment :: string where "OverrideEnvironment = ''P2P_NETCAT_APPDIR''"

datatype appdir_error = ExecutableUnknown | NoWorkingDirectory | HomeUnknown | CreateDirectory os_error

definition ensureDir :: "os_host \<Rightarrow> os_faults \<Rightarrow> fs \<Rightarrow> string \<Rightarrow> fs \<times> (appdir_error + string)" where
  "ensureDir h ft fs dir =
     (case Abs (os_Getwd h) dir of
        None \<Rightarrow> (fs, Inl NoWorkingDirectory)
      | Some absolute \<Rightarrow>
          (case MkdirAll ft fs absolute of
             Inl e \<Rightarrow> (fs, Inl (CreateDirectory e))
           | Inr fs' \<Rightarrow> (fs', Inr absolute)))"

definition AppDir :: "os_host \<Rightarrow> os_faults \<Rightarrow> fs \<Rightarrow> fs \<times> (appdir_error + string)" where
  "AppDir h ft fs =
     (let override = os_Getenv h OverrideEnvironment
      in if override \<noteq> [] then ensureDir h ft fs override
         else case os_Executable h of
                None \<Rightarrow>
                  (case os_Getwd h of
                     None \<Rightarrow> (fs, Inl ExecutableUnknown)
                   | Some cwd \<Rightarrow> ensureDir h ft fs (Join [cwd, DirName]))
              | Some exePath \<Rightarrow>
                  let exePath' = (case os_EvalSymlinks h exePath of Some resolved \<Rightarrow> resolved | None \<Rightarrow> exePath)
                  in ensureDir h ft fs (Join [Dir exePath', DirName]))"

definition ResolvePath :: "os_host \<Rightarrow> os_faults \<Rightarrow> fs \<Rightarrow> string \<Rightarrow> fs \<times> (appdir_error + string)" where
  "ResolvePath h ft fs path =
     (if path = [] then (fs, Inr [])
      else if path = ''~'' then
        (case os_UserHomeDir h of None \<Rightarrow> (fs, Inl HomeUnknown) | Some home \<Rightarrow> (fs, Inr home))
      else if HasPrefix path ''~/'' \<or> HasPrefix path [CHR ''~'', CHR 0x5C] then
        (case os_UserHomeDir h of None \<Rightarrow> (fs, Inl HomeUnknown) | Some home \<Rightarrow> (fs, Inr (Join [home, drop 2 path])))
      else if IsAbs path then (fs, Inr path)
      else case AppDir h ft fs of
             (fs', Inl e) \<Rightarrow> (fs', Inl e)
           | (fs', Inr dir) \<Rightarrow> (fs', Inr (Join [dir, path])))"

text \<open>\<open>identity.DefaultPath\<close> of \<open>src/internal/identity/identity.go\<close>.\<close>

definition DefaultPath :: "os_host \<Rightarrow> os_faults \<Rightarrow> fs \<Rightarrow> fs \<times> string" where
  "DefaultPath h ft fs =
     (case AppDir h ft fs of
        (fs', Inr dir) \<Rightarrow> (fs', Join [dir, ''identity.key''])
      | (fs', Inl e) \<Rightarrow>
          (fs', let base = os_Getenv h ''XDG_CONFIG_HOME''
                in if base \<noteq> [] then Join [base, ''p2p-netcat'', ''identity.key'']
                   else case os_UserHomeDir h of
                          None \<Rightarrow> Join [''.'', ''.p2p-netcat'', ''identity.key'']
                        | Some home \<Rightarrow> Join [Join [home, ''.config''], ''p2p-netcat'', ''identity.key'']))"

section \<open>What the operations leave alone\<close>

definition only_directories :: "fs \<Rightarrow> fs \<Rightarrow> bool" where
  "only_directories fs fs' \<longleftrightarrow> (\<forall>q. fs' q = fs q \<or> fs q = None \<and> fs' q = Some Directory)"

lemma only_directories_refl [simp]: "only_directories fs fs"
  by (simp add: only_directories_def)

lemma only_directoriesD: "only_directories fs fs' \<Longrightarrow> fs q = Some node \<Longrightarrow> fs' q = Some node"
  by (metis only_directories_def option.distinct(1))

lemma ensureDir_frame: "only_directories fs (fst (ensureDir h ft fs dir))"
  using MkdirAll_frame [of ft fs] by (auto simp: ensureDir_def only_directories_def split: option.split sum.split)

lemma AppDir_frame: "only_directories fs (fst (AppDir h ft fs))"
  using ensureDir_frame by (auto simp: AppDir_def Let_def split: option.split)

lemma ResolvePath_frame: "only_directories fs (fst (ResolvePath h ft fs path))"
  using AppDir_frame [of fs h ft]
  by (auto simp: ResolvePath_def split: option.split sum.split prod.split)

lemma ensureDir_Inr:
  assumes "ensureDir h ft fs dir = (fs', Inr p)" and "\<And>wd. os_Getwd h = Some wd \<Longrightarrow> IsAbs wd"
  shows "\<exists>es. list_all plain_element es \<and> p = abs_name es"
proof -
  have "Abs (os_Getwd h) dir = Some p" using assms(1) by (auto simp: ensureDir_def split: option.splits sum.splits)
  then show ?thesis using Abs_clean assms(2) by blast
qed

lemma AppDir_Inr:
  assumes "AppDir h ft fs = (fs', Inr p)" and "\<And>wd. os_Getwd h = Some wd \<Longrightarrow> IsAbs wd"
  shows "\<exists>es. list_all plain_element es \<and> p = abs_name es"
  using assms(1) by (auto simp: AppDir_def Let_def intro: ensureDir_Inr [OF _ assms(2)] split: if_splits option.splits)

text \<open>
  a relative path of plain elements from a configuration resolves into the program's own
  folder, whatever the working directory is, and resolving changes nothing in the file system
  but the creation of directories that were missing.
\<close>

theorem ResolvePath_relative:
  assumes "\<And>wd. os_Getwd h = Some wd \<Longrightarrow> IsAbs wd" and "list_all plain_element fs_names" and "fs_names \<noteq> []"
    and "hd (join_with ''/'' fs_names) \<noteq> CHR ''~''"
  shows "(case ResolvePath h ft fs (join_with ''/'' fs_names) of
            (fs', Inl e) \<Rightarrow> AppDir h ft fs = (fs', Inl e) \<and> only_directories fs fs'
          | (fs', Inr p) \<Rightarrow> only_directories fs fs' \<and>
              (\<exists>es. list_all plain_element es \<and> AppDir h ft fs = (fs', Inr (abs_name es)) \<and> p = abs_name (es @ fs_names)))"
proof -
  let ?p = "join_with ''/'' fs_names"
  obtain f fs'' where f: "fs_names = f # fs''" "plain_element f" using assms(2,3) by (cases fs_names) auto
  then obtain c f' where c: "f = c # f'" "c \<noteq> CHR ''/''" by (cases f) (auto simp: plain_element_def)
  have p: "hd ?p = c" "?p \<noteq> []" using f(1) c(1) by (cases fs''; simp)+
  then have "?p \<noteq> ''~''" "\<not> HasPrefix ?p ''~/''" "\<not> HasPrefix ?p [CHR ''~'', CHR 0x5C]" "\<not> IsAbs ?p"
    using assms(4) c(2) by (auto simp: HasPrefix_iff IsAbs_def)
  then have R: "ResolvePath h ft fs ?p = (case AppDir h ft fs of (fs', Inl e) \<Rightarrow> (fs', Inl e) | (fs', Inr dir) \<Rightarrow> (fs', Inr (Join [dir, ?p])))"
    using p(2) by (simp add: ResolvePath_def)
  obtain fs' r where A: "AppDir h ft fs = (fs', r)" by fastforce
  then have F: "only_directories fs fs'" using AppDir_frame [of fs h ft] by simp
  show ?thesis
  proof (cases r)
    case (Inr dir)
    then obtain es where es: "list_all plain_element es" "dir = abs_name es" using AppDir_Inr A assms(1) by blast
    show ?thesis unfolding R using A F Inr es Join_abs [OF es(1) assms(2,3)] by auto
  qed (use R A F in auto)
qed

definition sample_host :: os_host where
  "sample_host =
     \<lparr>os_Getenv = \<lambda>name. [], os_GOOS = ''linux'', os_Executable = Some ''/opt/p2p/p2p-nc'', os_Getwd = Some ''/home/u'',
      os_UserHomeDir = Some ''/home/u'', os_UserCacheDir = Some ''/home/u/.cache'', os_TempDir = ''/tmp'',
      os_EvalSymlinks = Some\<rparr>"

lemma sample_AppDir: "snd (AppDir sample_host no_faults Map.empty) = Inr ''/opt/p2p/oobe''"
proof -
  have "Join [Dir ''/opt/p2p/p2p-nc'', DirName] = ''/opt/p2p/oobe''" by code_simp
  moreover have "IsAbs ''/opt/p2p/oobe''" "Clean ''/opt/p2p/oobe'' = ''/opt/p2p/oobe''" by code_simp+
  moreover have "map abs_name (prefixes (path_elements ''/opt/p2p/oobe'')) = [''/'', ''/opt'', ''/opt/p2p'', ''/opt/p2p/oobe'']"
    by code_simp
  ultimately show ?thesis
    by (simp add: AppDir_def sample_host_def OverrideEnvironment_def ensureDir_def Abs_def MkdirAll_def no_faults_def)
qed

theorem ResolvePath_relative_witness:
  "snd (ResolvePath sample_host no_faults Map.empty ''tokens/a.token'') = Inr ''/opt/p2p/oobe/tokens/a.token''"
proof -
  have "(case ResolvePath sample_host no_faults Map.empty (join_with ''/'' [''tokens'', ''a.token'']) of
            (fs', Inl e) \<Rightarrow> AppDir sample_host no_faults Map.empty = (fs', Inl e) \<and> only_directories Map.empty fs'
          | (fs', Inr p) \<Rightarrow> only_directories Map.empty fs' \<and>
              (\<exists>es. list_all plain_element es \<and> AppDir sample_host no_faults Map.empty = (fs', Inr (abs_name es)) \<and>
                 p = abs_name (es @ [''tokens'', ''a.token''])))"
    by (rule ResolvePath_relative) (simp_all add: sample_host_def plain_element_def IsAbs_def HasPrefix_def)
  then obtain p es where "snd (ResolvePath sample_host no_faults Map.empty ''tokens/a.token'') = Inr p"
    and "list_all plain_element es" "abs_name es = ''/opt/p2p/oobe''" "p = abs_name (es @ [''tokens'', ''a.token''])"
    using sample_AppDir by (auto split: prod.splits sum.splits)
  moreover from this have "p = ''/opt/p2p/oobe'' @ ''/tokens/a.token''"
    by (cases "es = []") (auto simp: abs_name_def join_with_append)
  ultimately show ?thesis by simp
qed

end
