(* ===== verification/Token_Store.thy ===== *)
theory Token_Store
  imports Token_File App_Dir
begin

text \<open>
  Tokens and passwords on disk: \<open>src/internal/cli/token_files.go\<close> and the daemon's own reader in
  \<open>src/internal/daemon/token.go\<close>. Files are those of \<open>Go_Files\<close>. The terminal is a parameter:
  whether standard input is one, and what each prompt returns.
\<close>

datatype store_error =
    OpenFailed os_error
  | InspectFailed
  | NotRegular
  | NotPrivate
  | ReadFailed
  | FileTooLarge
  | PasswordInvalid tokenfile_error
  | TerminalRequired
  | PromptFailed
  | PasswordsDiffer
  | OutputPathRequired
  | OutputPath
  | OutputDirectory os_error
  | OutputCreate os_error
  | OutputWrite
  | OutputProtect
  | OutputClose
  | StoreAppDir appdir_error
  | StoreToken pairing_error

definition open_secret :: "os_faults \<Rightarrow> fs \<Rightarrow> string \<Rightarrow> store_error + fs_node" where
  "open_secret ft fs path =
     (case os_Open ft fs path of
        Inl e \<Rightarrow> Inl (OpenFailed e)
      | Inr file \<Rightarrow>
          if ft_stat ft then Inl InspectFailed
          else if \<not> IsRegular file then Inl NotRegular
          else if \<not> CheckPermissions file then Inl NotPrivate
          else Inr file)"

definition token_file_maximum :: nat where
  "token_file_maximum = length TokenPrefix + (MaxTokenSize * 8 + 5) div 6 + 2"

definition readPairingTokenFile :: "os_faults \<Rightarrow> fs \<Rightarrow> string \<Rightarrow> store_error + string" where
  "readPairingTokenFile ft fs path =
     (case open_secret ft fs path of Inl e \<Rightarrow> Inl e | Inr file \<Rightarrow>
      let maximum = token_file_maximum
      in case ReadAll_limit ft file (maximum + 1) of None \<Rightarrow> Inl ReadFailed | Some data \<Rightarrow>
           if maximum < length data then Inl FileTooLarge else Inr (bytes_string data))"

definition readPasswordFile :: "os_faults \<Rightarrow> fs \<Rightarrow> string \<Rightarrow> store_error + bytes" where
  "readPasswordFile ft fs path =
     (case open_secret ft fs path of Inl e \<Rightarrow> Inl e | Inr file \<Rightarrow>
      (case ReadAll_limit ft file (MaximumPasswordSize + 3) of None \<Rightarrow> Inl ReadFailed | Some data \<Rightarrow>
       let data1 = (if data \<noteq> [] \<and> last data = 10 then butlast data else data);
           data2 = (if data1 \<noteq> [] \<and> last data1 = 13 then butlast data1 else data1)
       in if MaximumPasswordSize < length data2 then Inl (PasswordInvalid PasswordTooLong) else Inr data2))"

definition validateTokenPasswordSize :: "bytes \<Rightarrow> store_error option" where
  "validateTokenPasswordSize password =
     (if length password < MinimumPasswordSize then Some (PasswordInvalid PasswordTooShort)
      else if MaximumPasswordSize < length password then Some (PasswordInvalid PasswordTooLong)
      else None)"

definition readTokenPassword ::
  "os_faults \<Rightarrow> fs \<Rightarrow> bool \<Rightarrow> bytes option \<Rightarrow> bytes option \<Rightarrow> string \<Rightarrow> bool \<Rightarrow> store_error + bytes" where
  "readTokenPassword ft fs isTerminal first second path confirm =
     (if path \<noteq> [] then
        (case readPasswordFile ft fs path of Inl e \<Rightarrow> Inl e | Inr password \<Rightarrow>
         (case validateTokenPasswordSize password of Some e \<Rightarrow> Inl e | None \<Rightarrow> Inr password))
      else if \<not> isTerminal then Inl TerminalRequired
      else case first of None \<Rightarrow> Inl PromptFailed | Some password \<Rightarrow>
        (case validateTokenPasswordSize password of Some e \<Rightarrow> Inl e | None \<Rightarrow>
         if \<not> confirm then Inr password
         else case second of None \<Rightarrow> Inl PromptFailed | Some repeated \<Rightarrow>
           if password \<noteq> repeated then Inl PasswordsDiffer else Inr password))"

definition readEncryptedTokenFile :: "os_faults \<Rightarrow> fs \<Rightarrow> string \<Rightarrow> store_error + string" where
  "readEncryptedTokenFile ft fs path =
     (case open_secret ft fs path of Inl e \<Rightarrow> Inl e | Inr file \<Rightarrow>
      (case ReadAll_limit ft file (MaxEnvelopeSize * 2 + 1) of None \<Rightarrow> Inl ReadFailed | Some data \<Rightarrow>
       if MaxEnvelopeSize * 2 < length data then Inl FileTooLarge else Inr (bytes_string data)))"

definition writeExclusiveTokenFile ::
  "os_host \<Rightarrow> os_faults \<Rightarrow> fs \<Rightarrow> string \<Rightarrow> string \<Rightarrow> fs \<times> store_error option" where
  "writeExclusiveTokenFile h ft fs path value =
     (if path = [] then (fs, Some OutputPathRequired)
      else case Abs (os_Getwd h) path of
             None \<Rightarrow> (fs, Some OutputPath)
           | Some absolute \<Rightarrow>
               (case MkdirAll ft fs (Dir absolute) of
                  Inl e \<Rightarrow> (fs, Some (OutputDirectory e))
                | Inr fs1 \<Rightarrow>
                    (case OpenFile_excl ft fs1 absolute 0x180 of
                       Inl e \<Rightarrow> (fs1, Some (OutputCreate e))
                     | Inr fs2 \<Rightarrow>
                         (case WriteFile ft fs2 absolute (string_bytes (value @ [CHR 0x0A])) of
                            (fs3, False) \<Rightarrow> (os_Remove ft fs3 absolute, Some OutputWrite)
                          | (fs3, True) \<Rightarrow>
                              (case Protect ft fs3 absolute of
                                 (fs4, False) \<Rightarrow> (os_Remove ft fs4 absolute, Some OutputProtect)
                               | (fs4, True) \<Rightarrow>
                                   if ft_close ft then (os_Remove ft fs4 absolute, Some OutputClose)
                                   else (fs4, None))))))"

section \<open>The daemon's reader\<close>

definition readTokenFile :: "os_faults \<Rightarrow> fs \<Rightarrow> string \<Rightarrow> store_error + string" where
  "readTokenFile ft fs path =
     (case open_secret ft fs path of Inl e \<Rightarrow> Inl e | Inr file \<Rightarrow>
      let maximum = token_file_maximum
      in case ReadAll_limit ft file (maximum + 1) of None \<Rightarrow> Inl ReadFailed | Some data \<Rightarrow>
           if maximum < length data then Inl FileTooLarge else Inr (bytes_string data))"

text \<open>The token file a tunnel names, loaded at time \<open>now\<close>; no file means no token.\<close>

definition loadTunnelToken ::
  "libp2p \<Rightarrow> cbor \<Rightarrow> os_host \<Rightarrow> os_faults \<Rightarrow> go_time \<Rightarrow> fs \<Rightarrow> string \<Rightarrow> fs \<times> (store_error + Token option)" where
  "loadTunnelToken lp cb h ft now fs tokenFile =
     (if tokenFile = [] then (fs, Inr None)
      else case ResolvePath h ft fs tokenFile of
             (fs', Inl e) \<Rightarrow> (fs', Inl (StoreAppDir e))
           | (fs', Inr path) \<Rightarrow>
               (fs', case readTokenFile ft fs' path of Inl e \<Rightarrow> Inl e | Inr raw \<Rightarrow>
                 (case Decode lp cb (TrimSpace raw) of Inl e \<Rightarrow> Inl (StoreToken e) | Inr token \<Rightarrow>
                  (case Validate lp (Some token) now of Some e \<Rightarrow> Inl (StoreToken e) | None \<Rightarrow> Inr (Some token)))))"

lemma OpenFile_exclD:
  "OpenFile_excl ft fs p perm = Inr fs' \<Longrightarrow> fs p = None \<and> fs' = fs(p \<mapsto> Regular (perm AND NOT (ft_umask ft)) [])"
  by (auto simp: OpenFile_excl_def split: if_splits)

text \<open>
  writing a token file is all or nothing. On success the path was free and now holds the
  text and a newline, readable by the owner only; on failure no file is left behind; in both
  cases nothing else changed but directories that were missing.
\<close>

theorem token_file_write:
  assumes "Abs (os_Getwd h) path = Some p" and "\<not> ft_remove ft"
    and "writeExclusiveTokenFile h ft fs path v = (fs', r)"
  shows "(r = None \<longrightarrow> fs p = None \<and> fs' p = Some (Regular 0x180 (string_bytes (v @ [CHR 0x0A]))) \<and>
            only_directories fs (fs'(p := None))) \<and>
         (r \<noteq> None \<longrightarrow> only_directories fs fs')"
proof (cases "path = []")
  case True
  then show ?thesis using assms by (auto simp: writeExclusiveTokenFile_def)
next
  case False
  show ?thesis
  proof (cases "MkdirAll ft fs (Dir p)")
    case (Inl e)
    then show ?thesis using False assms by (auto simp: writeExclusiveTokenFile_def)
  next
    case (Inr fs1)
    then have d: "only_directories fs fs1" using MkdirAll_frame by (simp add: only_directories_def)
    show ?thesis
    proof (cases "OpenFile_excl ft fs1 p 0x180")
      case (Inl e)
      then show ?thesis using False assms Inr d by (auto simp: writeExclusiveTokenFile_def)
    next
      case (Inr fs2)
      note o = OpenFile_exclD [OF Inr]
      have n: "fs p = None" using o only_directoriesD [OF d] by (cases "fs p") auto
      have same: "fs1(p := None) = fs1" using o by (simp add: fun_upd_idem)
      show ?thesis using False assms \<open>MkdirAll ft fs (Dir p) = Inr fs1\<close> Inr o d n same
        by (auto simp: writeExclusiveTokenFile_def WriteFile_def Protect_def os_Remove_def split: option.splits if_splits)
    qed
  qed
qed

lemma open_secret_Regular:
  assumes "fs p = Some (Regular 0x180 data)"
  shows "open_secret no_faults fs p = Inr (Regular 0x180 data)"
  using assms by (simp add: open_secret_def os_Open_def no_faults_def CheckPermissions_def)

lemma readTokenFile_Regular:
  assumes "fs p = Some (Regular 0x180 data)" and "length data \<le> token_file_maximum"
  shows "readTokenFile no_faults fs p = Inr (bytes_string data)" and "readPairingTokenFile no_faults fs p = Inr (bytes_string data)"
  using open_secret_Regular [of fs p, OF assms(1)] assms(2)
  by (simp_all add: readTokenFile_def readPairingTokenFile_def ReadAll_limit_def no_faults_def)

lemma readEncryptedTokenFile_Regular:
  assumes "fs p = Some (Regular 0x180 data)" and "length data \<le> MaxEnvelopeSize * 2"
  shows "readEncryptedTokenFile no_faults fs p = Inr (bytes_string data)"
  using open_secret_Regular [of fs p, OF assms(1)] assms(2) by (simp add: readEncryptedTokenFile_def ReadAll_limit_def no_faults_def)

lemma written_token_file:
  assumes "Abs (os_Getwd h) path = Some p" and "writeExclusiveTokenFile h no_faults fs path v = (fs', None)"
  shows "fs' p = Some (Regular 0x180 (string_bytes (v @ [CHR 0x0A])))" and "fs q = Some node \<Longrightarrow> fs' q = Some node"
  subgoal
    using assms by (auto simp: writeExclusiveTokenFile_def OpenFile_excl_def WriteFile_def Protect_def no_faults_def
        split: sum.splits option.splits if_splits)
  subgoal premises q
  proof -
    from assms obtain fs1 where fs1: "MkdirAll no_faults fs (Dir p) = Inr fs1" and "fs1 p = None"
      and fs': "fs' = fs1(p \<mapsto> Regular 0x180 (string_bytes (v @ [CHR 0x0A])))"
      by (auto simp: writeExclusiveTokenFile_def OpenFile_excl_def WriteFile_def Protect_def no_faults_def
          split: sum.splits option.splits if_splits)
    have "only_directories fs fs1" using MkdirAll_frame [OF fs1] by (simp add: only_directories_def)
    then have "fs1 q = Some node" using q only_directoriesD by metis
    with \<open>fs1 p = None\<close> fs' q show ?thesis by auto
  qed
  done

lemma ResolvePath_abs: "IsAbs p \<Longrightarrow> ResolvePath h ft fs p = (fs, Inr p)"
  by (auto simp: ResolvePath_def IsAbs_def HasPrefix_iff)

lemma TrimSpace_newline:
  assumes "list_all visible_char s" and "s \<noteq> []"
  shows "TrimSpace (s @ [CHR 0x0A]) = s"
proof -
  obtain c s' where s: "s = c # s'" "visible_char c" using assms by (cases s) auto
  have "stripped space_runes (s @ [CHR 0x0A])"
    using s(2) by (auto simp: stripped_def s(1) HasPrefix_iff space_runes_def visible_char_def)
  then have 1: "strip space_runes (s @ [CHR 0x0A]) = s @ [CHR 0x0A]" by (rule strip_id)
  have f: "find (\<lambda>w. w \<noteq> [] \<and> HasPrefix (CHR 0x0A # rev s) w) (map rev space_runes) = Some [CHR 0x0A]"
    by (simp add: space_runes_def HasPrefix_def)
  have "stripped (map rev space_runes) (rev s)"
    by (rule stripped_visible) (use assms(1) in \<open>auto simp: space_runes_def visible_char_def list_all_iff\<close>)
  then have "strip (map rev space_runes) (CHR 0x0A # rev s) = rev s"
    using f by (subst strip.simps) (simp add: strip_id)
  then show ?thesis by (simp add: TrimSpace_def 1)
qed

text \<open>
  a token written to a file serves a tunnel. After a pairing token's text was stored without
  failures, a tunnel that names the file loads the token, with its relay hints in the order of
  the text form, at every time at which the token is valid.
\<close>

theorem token_store_roundtrip:
  assumes "libp2p_ok lp" and "cbor_ok cb" and "Encode lp cb t = Inr value"
    and "length (tok_Secret t) = 32" and "list_all ascii (hint_strings lp t)"
    and "\<And>payload. Marshal cb (token_fields lp t) = Some payload \<Longrightarrow> length payload \<le> MaxTokenSize"
    and "\<And>wd. os_Getwd h = Some wd \<Longrightarrow> IsAbs wd" and "Abs (os_Getwd h) path = Some p"
    and "writeExclusiveTokenFile h no_faults fs path value = (fs', None)" and "Validate lp (Some t) now = None"
  shows "loadTunnelToken lp cb h no_faults now fs' p = (fs', Inr (Some (canonical_token lp t)))"
proof -
  obtain payload where payload: "Marshal cb (token_fields lp t) = Some payload" and v: "value = TokenPrefix @ EncodeToString payload"
    using assms(3) by (auto simp: Encode_def split: option.splits)
  note stored = written_token_file(1) [OF assms(8,9)]
  have "length (EncodeToString payload) \<le> (MaxTokenSize * 8 + 5) div 6"
    using assms(6) [OF payload] by (simp add: length_EncodeToString MaxTokenSize_def)
  then have "readTokenFile no_faults fs' p = Inr (value @ [CHR 0x0A])"
    using readTokenFile_Regular(1) [of fs' p, OF stored] by (simp add: v token_file_maximum_def)
  moreover have "TrimSpace (value @ [CHR 0x0A]) = value"
    by (rule TrimSpace_newline)
      (use TokenPrefix_visible alphabet_visible [OF EncodeToString_alphabet, of payload] in \<open>simp_all add: v TokenPrefix_def\<close>)
  moreover have "Decode lp cb value = Inr (canonical_token lp t)" by (rule Decode_Encode [OF assms(1-6)])
  moreover have "IsAbs p" "p \<noteq> []" using Abs_clean [OF assms(8,7)] by (auto simp: abs_name_def IsAbs_def HasPrefix_iff)
  ultimately show ?thesis using Validate_canonical [OF assms(10)] by (simp add: loadTunnelToken_def ResolvePath_abs)
qed

section \<open>Instances\<close>

definition store_fs :: fs where
  "store_fs = [''/'' \<mapsto> Directory]"

lemma store_sample:
  "Abs (os_Getwd sample_host) ''/t'' = Some ''/t''" "map abs_name (prefixes (path_elements (Dir ''/t''))) = [''/'']"
  "IsAbs (the (os_Getwd sample_host))"
  by code_simp+

lemma store_written: "\<exists>fs'. writeExclusiveTokenFile sample_host no_faults store_fs ''/t'' v = (fs', None)"
proof -
  have "MkdirAll no_faults store_fs (Dir ''/t'') = Inr store_fs"
    by (simp add: MkdirAll_def store_sample) (simp add: no_faults_def store_fs_def)
  then show ?thesis
    by (simp add: writeExclusiveTokenFile_def store_sample)
      (simp add: no_faults_def store_fs_def OpenFile_excl_def WriteFile_def Protect_def)
qed

theorem token_file_write_witness:
  "\<exists>fs'. writeExclusiveTokenFile sample_host no_faults store_fs ''/t'' ''pnc'' = (fs', None) \<and>
     fs' ''/t'' = Some (Regular 0x180 (string_bytes (''pnc'' @ [CHR 0x0A])))"
proof -
  obtain fs' where "writeExclusiveTokenFile sample_host no_faults store_fs ''/t'' ''pnc'' = (fs', None)"
    using store_written by blast
  with token_file_write [OF store_sample(1) _ this] show ?thesis by (simp add: no_faults_def)
qed

theorem token_store_roundtrip_witness:
  "\<exists>fs'. writeExclusiveTokenFile sample_host no_faults store_fs ''/t'' sample_text = (fs', None) \<and>
     loadTunnelToken sample_libp2p sample_cbor sample_host no_faults 0 fs' ''/t'' =
       (fs', Inr (Some (canonical_token sample_libp2p sample_token)))"
proof -
  obtain fs' where W: "writeExclusiveTokenFile sample_host no_faults store_fs ''/t'' sample_text = (fs', None)"
    using store_written by blast
  have "loadTunnelToken sample_libp2p sample_cbor sample_host no_faults 0 fs' ''/t'' =
      (fs', Inr (Some (canonical_token sample_libp2p sample_token)))"
  proof (rule token_store_roundtrip [OF sample_libp2p_ok sample_cbor_ok _ _ sample_token_ascii _ _ store_sample(1) W sample_token_valid])
    show "Encode sample_libp2p sample_cbor sample_token = Inr sample_text" by (simp add: sample_token_Encode sample_text_def)
    show "length (tok_Secret sample_token) = 32" by (simp add: sample_token_def)
  qed (use store_sample(3) sample_payload_length in \<open>simp_all add: sample_token_Marshal\<close>)
  with W show ?thesis by blast
qed

end
