(* ===== verification/Node.thy ===== *)
theory Node
  imports Pairing Go_Net
begin

text \<open>
  \<open>src/p2p/node.go\<close>: the libp2p host of the program. The options handed to libp2p are values of
  a datatype, in the order the code appends them; what libp2p, the DHT and the network answer
  is the parameter \<open>swarm\<close>. The peerstore maps a peer to the addresses added for it, and the
  keys under which the DHT is queried or written are recorded.
\<close>

definition ProtocolPrefix :: string where "ProtocolPrefix = ''/p2p-netcat/1.0.0''"
definition DatagramProtocolPrefix :: string where "DatagramProtocolPrefix = ''/p2p-netcat/udp/1.0.0''"
definition DefaultService :: u16 where "DefaultService = 31337"

type_synonym addr_info = "peer_id \<times> multiaddr list"

record node_config =
  nc_PrivateKey :: "bytes option"
  nc_TransportPort :: int
  nc_WebsocketPort :: int
  nc_IPVersion :: int
  nc_Announce :: "string list"
  nc_Relays :: "string list"
  nc_Bootstrap :: "string list"
  nc_EnableDHT :: bool
  nc_EnableMDNS :: bool
  nc_EnablePubSub :: bool
  nc_PubSubDiscover :: bool
  nc_PubSubInterval :: duration
  nc_EnableQUIC :: bool
  nc_EnableWebRTC :: bool
  nc_Listen :: bool
  nc_DHTServer :: bool
  nc_RelayServer :: bool
  nc_Verbose :: bool
  nc_UpstreamSOCKS :: string

datatype node_option =
    OptIdentity bytes
  | OptUserAgent string
  | OptProtocolVersion string
  | OptNoTransports
  | OptDialRanker
  | OptTCP
  | OptTCPThrough string
  | OptWebsocket
  | OptQUIC
  | OptWebRTC
  | OptListen "string list"
  | OptNoListen
  | OptAddrsFactory "multiaddr list"
  | OptRelayService duration nat nat
  | OptForcePublic
  | OptStaticRelays "addr_info list"
  | OptForcePrivate
  | OptAutoRelay nat nat duration

datatype node_error =
    KeyRequired
  | BadIPVersion
  | BadUpstream addr_error
  | BadRelay string
  | RelayWithoutPeer string
  | BadAnnounce string
  | CreateHost
  | ReserveFailed peer_id
  | CreateDHT
  | StartBootstrap
  | StartMDNS
  | StartPubSub
  | BadTarget
  | TargetWithoutPeer
  | BadPeerId string
  | BuildRoute
  | DHTDisabled
  | Rendezvous pairing_error
  | PeerNotFound peer_id

record swarm =
  ma_Encapsulate :: "multiaddr \<Rightarrow> multiaddr \<Rightarrow> multiaddr"
  sw_NewHost :: "node_option list \<Rightarrow> bool"
  sw_Connect :: "peer_id \<Rightarrow> bool"
  sw_Reserve :: "peer_id \<Rightarrow> bool"
  sw_DefaultBootstrap :: "addr_info list"
  sw_NewDHT :: bool
  sw_Bootstrap :: bool
  sw_StartMDNS :: bool
  sw_StartPubSub :: "addr_info list \<Rightarrow> bool \<Rightarrow> bool \<Rightarrow> duration \<Rightarrow> bool"
  sw_ToCid :: "peer_id \<Rightarrow> bytes"
  sw_FindProviders :: "bytes \<Rightarrow> addr_info list"
  sw_FindPeer :: "peer_id \<Rightarrow> addr_info option"

record node =
  nd_ID :: peer_id
  nd_HostOpen :: bool
  nd_DHT :: bool
  nd_MDNS :: bool
  nd_PubSub :: bool
  nd_Cancelled :: bool
  nd_Closed :: bool
  nd_Peerstore :: "peer_id \<Rightarrow> multiaddr list"
  nd_Queried :: "bytes list"
  nd_Searched :: "peer_id list"

section \<open>Names and addresses\<close>

definition ProtocolForService :: "u16 \<Rightarrow> string" where
  "ProtocolForService service = ProtocolPrefix @ ''/'' @ show_nat (unat service)"

definition DatagramProtocolForService :: "u16 \<Rightarrow> string" where
  "DatagramProtocolForService service = DatagramProtocolPrefix @ ''/'' @ show_nat (unat service)"

definition show_int :: "int \<Rightarrow> string" where
  "show_int i = (if i < 0 then ''-'' @ show_nat (nat (- i)) else show_nat (nat i))"

definition family_addresses :: "string \<Rightarrow> node_config \<Rightarrow> string list" where
  "family_addresses base cfg =
     [base @ ''/tcp/'' @ show_int (nc_TransportPort cfg)] @
     (if nc_EnableQUIC cfg then [base @ ''/udp/'' @ show_int (nc_TransportPort cfg) @ ''/quic-v1''] else []) @
     (if nc_EnableWebRTC cfg then [base @ ''/udp/'' @ show_int (nc_TransportPort cfg) @ ''/webrtc-direct''] else []) @
     (if 0 < nc_WebsocketPort cfg then [base @ ''/tcp/'' @ show_int (nc_WebsocketPort cfg) @ ''/ws''] else [])"

definition listenAddresses :: "node_config \<Rightarrow> string list" where
  "listenAddresses cfg =
     (if nc_IPVersion cfg \<noteq> 6 then family_addresses ''/ip4/0.0.0.0'' cfg else []) @
     (if nc_IPVersion cfg \<noteq> 4 then family_addresses ''/ip6/::'' cfg else [])"

fun parseMultiaddrs :: "libp2p \<Rightarrow> string list \<Rightarrow> string + multiaddr list" where
  "parseMultiaddrs lp [] = Inr []"
| "parseMultiaddrs lp (value # values) =
     (case NewMultiaddr lp value of None \<Rightarrow> Inl value | Some address \<Rightarrow>
      (case parseMultiaddrs lp values of Inl e \<Rightarrow> Inl e | Inr result \<Rightarrow> Inr (address # result)))"

fun parseRelayInfos :: "libp2p \<Rightarrow> string list \<Rightarrow> node_error + addr_info list" where
  "parseRelayInfos lp [] = Inr []"
| "parseRelayInfos lp (value # values) =
     (case NewMultiaddr lp (TrimSuffix value ''/'') of None \<Rightarrow> Inl (BadRelay value) | Some address \<Rightarrow>
      (case AddrInfoFromP2pAddr lp address of None \<Rightarrow> Inl (RelayWithoutPeer value) | Some info \<Rightarrow>
       (case parseRelayInfos lp values of Inl e \<Rightarrow> Inl e | Inr result \<Rightarrow> Inr (info # result))))"

fun relayCircuitAddresses :: "libp2p \<Rightarrow> swarm \<Rightarrow> string list \<Rightarrow> node_error + multiaddr list" where
  "relayCircuitAddresses lp sw [] = Inr []"
| "relayCircuitAddresses lp sw (value # values) =
     (case NewMultiaddr lp (TrimSuffix value ''/'') of None \<Rightarrow> Inl (BadRelay value) | Some address \<Rightarrow>
      (case AddrInfoFromP2pAddr lp address of None \<Rightarrow> Inl (RelayWithoutPeer value) | Some info \<Rightarrow>
       (case relayCircuitAddresses lp sw values of Inl e \<Rightarrow> Inl e | Inr result \<Rightarrow>
          Inr (ma_Encapsulate sw address (the (NewMultiaddr lp ''/p2p-circuit'')) # result))))"

definition bootstrapPeers :: "libp2p \<Rightarrow> swarm \<Rightarrow> string list \<Rightarrow> node_error + addr_info list" where
  "bootstrapPeers lp sw values = (if values = [] then Inr (sw_DefaultBootstrap sw) else parseRelayInfos lp values)"

fun unique_addrs :: "libp2p \<Rightarrow> string list \<Rightarrow> multiaddr list \<Rightarrow> multiaddr list" where
  "unique_addrs lp seen [] = []"
| "unique_addrs lp seen (value # values) =
     (if ma_String lp value \<in> set seen then unique_addrs lp seen values
      else value # unique_addrs lp (ma_String lp value # seen) values)"

definition uniqueAddrs :: "libp2p \<Rightarrow> multiaddr list \<Rightarrow> multiaddr list" where
  "uniqueAddrs lp values = unique_addrs lp [] values"

definition applyUpstreamSOCKSGuard :: "node_config \<Rightarrow> node_config" where
  "applyUpstreamSOCKSGuard cfg =
     (if nc_UpstreamSOCKS cfg \<noteq> [] then cfg\<lparr>nc_EnableQUIC := False, nc_EnableWebRTC := False\<rparr> else cfg)"

definition Addresses :: "libp2p \<Rightarrow> peer_id \<Rightarrow> multiaddr list \<Rightarrow> string list" where
  "Addresses lp self addrs =
     sort (map (\<lambda>address.
        let txt = ma_String lp address; suffix = ''/p2p/'' @ peer_String lp self
        in if HasSuffix txt suffix then txt else txt @ suffix) addrs)"

section \<open>The dial ranker\<close>

definition dialAddressRank :: "libp2p \<Rightarrow> multiaddr \<Rightarrow> int" where
  "dialAddressRank lp address =
     (let v = ma_String lp address
      in if Contains v ''/webrtc-direct'' then 0
         else if Contains v ''/quic-v1'' then 1
         else if Contains v ''/webtransport'' then 2
         else if Contains v ''/wss'' then 3
         else if Contains v ''/ws'' then 4
         else if Contains v ''/tcp/'' \<and> \<not> Contains v ''/p2p-circuit'' then 5
         else if Contains v ''/p2p-circuit'' then 6
         else 7)"

fun rank_delays :: "libp2p \<Rightarrow> int \<Rightarrow> duration \<Rightarrow> multiaddr list \<Rightarrow> (multiaddr \<times> duration) list" where
  "rank_delays lp lastRank delay [] = []"
| "rank_delays lp lastRank delay (address # addresses) =
     (let rank = dialAddressRank lp address;
          delay' = (if 0 \<le> lastRank \<and> rank \<noteq> lastRank then delay + 50 * Millisecond else delay)
      in (address, delay') # rank_delays lp rank delay' addresses)"

definition PreferDialRanker :: "libp2p \<Rightarrow> multiaddr list \<Rightarrow> (multiaddr \<times> duration) list" where
  "PreferDialRanker lp addresses = rank_delays lp (- 1) 0 (sort_key (dialAddressRank lp) addresses)"

section \<open>Starting and closing\<close>

definition transport_options :: "node_config \<Rightarrow> node_option list" where
  "transport_options cfg =
     [OptIdentity (the (nc_PrivateKey cfg)), OptUserAgent ''go-p2p-netcat/0.2.0'', OptProtocolVersion ''p2p-netcat/1.0.0'',
      OptNoTransports, OptDialRanker] @
     (if nc_UpstreamSOCKS cfg \<noteq> [] then [OptTCPThrough (nc_UpstreamSOCKS cfg)] else [OptTCP]) @
     (if nc_UpstreamSOCKS cfg = [] then [OptWebsocket] else []) @
     (if nc_EnableQUIC cfg then [OptQUIC] else []) @
     (if nc_EnableWebRTC cfg then [OptWebRTC] else []) @
     (if nc_Listen cfg then [OptListen (listenAddresses cfg)] else [OptNoListen])"

definition relay_options :: "node_config \<Rightarrow> addr_info list \<Rightarrow> node_option list" where
  "relay_options cfg staticRelays =
     (if nc_RelayServer cfg then [OptRelayService (2 * 60 * Minute) (128 * 1024 * 1024) 128, OptForcePublic]
      else if staticRelays \<noteq> [] then [OptStaticRelays staticRelays, OptForcePrivate]
      else if nc_Listen cfg then [OptAutoRelay 1 1 (15 * Second)]
      else [])"

text \<open>\<open>New\<close> up to the creation of the host: the configuration after the proxy guard, the options
  and the static relays.\<close>

definition node_options :: "libp2p \<Rightarrow> swarm \<Rightarrow> node_config \<Rightarrow> node_error + node_config \<times> node_option list \<times> addr_info list" where
  "node_options lp sw cfg =
     (if nc_PrivateKey cfg = None then Inl KeyRequired
      else if nc_IPVersion cfg \<noteq> 0 \<and> nc_IPVersion cfg \<noteq> 4 \<and> nc_IPVersion cfg \<noteq> 6 then Inl BadIPVersion
      else case (if nc_UpstreamSOCKS cfg \<noteq> [] then SplitHostPort (nc_UpstreamSOCKS cfg) else Inr ([], [])) of
             Inl e \<Rightarrow> Inl (BadUpstream e)
           | Inr _ \<Rightarrow>
               (let cfg = applyUpstreamSOCKSGuard cfg
                in case parseRelayInfos lp (nc_Relays cfg) of Inl e \<Rightarrow> Inl e | Inr staticRelays \<Rightarrow>
                   (case parseMultiaddrs lp (nc_Announce cfg) of Inl v \<Rightarrow> Inl (BadAnnounce v) | Inr announced \<Rightarrow>
                    (case (if nc_DHTServer cfg \<and> \<not> nc_RelayServer cfg then relayCircuitAddresses lp sw (nc_Relays cfg) else Inr []) of
                       Inl e \<Rightarrow> Inl e
                     | Inr circuits \<Rightarrow>
                         let announced' = announced @ circuits
                         in Inr (cfg, transport_options cfg @ (if announced' \<noteq> [] then [OptAddrsFactory announced'] else []) @
                                   relay_options cfg staticRelays, staticRelays)))))"

definition AddAddrs :: "peer_id \<Rightarrow> multiaddr list \<Rightarrow> node \<Rightarrow> node" where
  "AddAddrs p addrs n = n\<lparr>nd_Peerstore := (nd_Peerstore n)(p := nd_Peerstore n p @ addrs)\<rparr>"

definition node_Close :: "node \<Rightarrow> node" where
  "node_Close n =
     (if nd_Closed n then n
      else n\<lparr>nd_Closed := True, nd_Cancelled := True, nd_MDNS := False, nd_PubSub := False, nd_DHT := False, nd_HostOpen := False\<rparr>)"

fun connect_relays :: "swarm \<Rightarrow> node_config \<Rightarrow> node \<Rightarrow> addr_info list \<Rightarrow> node \<times> node_error option" where
  "connect_relays sw cfg n [] = (n, None)"
| "connect_relays sw cfg n ((relay, addrs) # relays) =
     (let n1 = AddAddrs relay addrs n
      in if sw_Connect sw relay \<and> nc_DHTServer cfg \<and> \<not> nc_RelayServer cfg \<and> \<not> sw_Reserve sw relay
         then (n1, Some (ReserveFailed relay))
         else connect_relays sw cfg n1 relays)"

definition add_bootstrap :: "addr_info list \<Rightarrow> node \<Rightarrow> node" where
  "add_bootstrap infos n = fold (\<lambda>(p, addrs). AddAddrs p addrs) infos n"

definition start_dht :: "libp2p \<Rightarrow> swarm \<Rightarrow> node_config \<Rightarrow> node \<Rightarrow> node \<times> node_error option" where
  "start_dht lp sw cfg n =
     (if \<not> nc_EnableDHT cfg then (n, None)
      else case bootstrapPeers lp sw (nc_Bootstrap cfg) of Inl e \<Rightarrow> (n, Some e) | Inr bootstrappers \<Rightarrow>
        if \<not> sw_NewDHT sw then (n, Some CreateDHT)
        else let n1 = add_bootstrap bootstrappers (n\<lparr>nd_DHT := True\<rparr>)
             in if \<not> sw_Bootstrap sw then (n1, Some StartBootstrap) else (n1, None))"

definition start_mdns :: "swarm \<Rightarrow> node_config \<Rightarrow> node \<Rightarrow> node \<times> node_error option" where
  "start_mdns sw cfg n =
     (if \<not> nc_EnableMDNS cfg then (n, None)
      else let n1 = n\<lparr>nd_MDNS := True\<rparr> in if sw_StartMDNS sw then (n1, None) else (n1, Some StartMDNS))"

definition start_pubsub :: "swarm \<Rightarrow> node_config \<Rightarrow> addr_info list \<Rightarrow> node \<Rightarrow> node \<times> node_error option" where
  "start_pubsub sw cfg staticRelays n =
     (if \<not> nc_EnablePubSub cfg then (n, None)
      else if sw_StartPubSub sw staticRelays (nc_PubSubDiscover cfg) (nc_RelayServer cfg) (nc_PubSubInterval cfg)
      then (n\<lparr>nd_PubSub := True\<rparr>, None) else (n\<lparr>nd_PubSub := True\<rparr>, Some StartPubSub))"

definition fail_or :: "node \<times> node_error option \<Rightarrow> (node \<Rightarrow> node \<times> node_error option) \<Rightarrow> node \<times> node_error option" where
  "fail_or r k = (case r of (n, Some e) \<Rightarrow> (node_Close n, Some e) | (n, None) \<Rightarrow> k n)"

definition node_New :: "libp2p \<Rightarrow> swarm \<Rightarrow> peer_id \<Rightarrow> node_config \<Rightarrow> node option \<times> node_error option" where
  "node_New lp sw self cfg =
     (case node_options lp sw cfg of
        Inl e \<Rightarrow> (None, Some e)
      | Inr (cfg, options, staticRelays) \<Rightarrow>
          if \<not> sw_NewHost sw options then (None, Some CreateHost)
          else let n = \<lparr>nd_ID = self, nd_HostOpen = True, nd_DHT = False, nd_MDNS = False, nd_PubSub = False, nd_Cancelled = False,
                        nd_Closed = False, nd_Peerstore = \<lambda>p. [], nd_Queried = [], nd_Searched = []\<rparr>
               in map_prod Some id
                    (fail_or (connect_relays sw cfg n staticRelays) (\<lambda>n.
                     fail_or (start_dht lp sw cfg n) (\<lambda>n.
                     fail_or (start_mdns sw cfg n) (\<lambda>n.
                     fail_or (start_pubsub sw cfg staticRelays n) (\<lambda>n. (n, None)))))))"

section \<open>Finding peers\<close>

fun find_provider :: "swarm \<Rightarrow> peer_id \<Rightarrow> bytes list \<Rightarrow> node \<Rightarrow> node \<times> bool" where
  "find_provider sw targetID [] n = (n, False)"
| "find_provider sw targetID (c # cids) n =
     (let n1 = n\<lparr>nd_Queried := nd_Queried n @ [c]\<rparr>
      in case find (\<lambda>(p, addrs). p = targetID \<and> addrs \<noteq> []) (sw_FindProviders sw c) of
           Some (p, addrs) \<Rightarrow> (AddAddrs p addrs n1, True)
         | None \<Rightarrow> find_provider sw targetID cids n1)"

definition lookup_cids :: "libp2p \<Rightarrow> cryptography \<Rightarrow> ipfs \<Rightarrow> swarm \<Rightarrow> go_time \<Rightarrow> peer_id \<Rightarrow> Token option \<Rightarrow> node_error + bytes list" where
  "lookup_cids lp cr ip sw now p token =
     (case token of
        None \<Rightarrow> Inr [sw_ToCid sw p]
      | Some t \<Rightarrow> (case ProviderCIDs lp cr ip t now of Inl e \<Rightarrow> Inl (Rendezvous e) | Inr cids \<Rightarrow> Inr cids))"

definition resolve ::
  "libp2p \<Rightarrow> cryptography \<Rightarrow> ipfs \<Rightarrow> swarm \<Rightarrow> go_time \<Rightarrow> node \<Rightarrow> string \<Rightarrow> string list \<Rightarrow> Token option \<Rightarrow> node \<times> (node_error + peer_id)" where
  "resolve lp cr ip sw now n target relays token =
     (if HasPrefix target ''/'' then
        (case NewMultiaddr lp target of None \<Rightarrow> (n, Inl BadTarget) | Some address \<Rightarrow>
         (case AddrInfoFromP2pAddr lp address of None \<Rightarrow> (n, Inl TargetWithoutPeer) | Some (p, addrs) \<Rightarrow>
            (AddAddrs p addrs n, Inr p)))
      else case peer_Decode lp target of None \<Rightarrow> (n, Inl (BadPeerId target)) | Some targetID \<Rightarrow>
        if relays \<noteq> [] then
          (case NewMultiaddr lp (TrimSuffix (hd relays) ''/'') of None \<Rightarrow> (n, Inl (BadRelay (hd relays))) | Some relayAddress \<Rightarrow>
           (case AddrInfoFromP2pAddr lp
                   (ma_Encapsulate sw relayAddress (the (NewMultiaddr lp (''/p2p-circuit/p2p/'' @ peer_String lp targetID)))) of
              None \<Rightarrow> (n, Inl BuildRoute)
            | Some (p, addrs) \<Rightarrow> (AddAddrs targetID addrs n, Inr targetID)))
        else if nd_Peerstore n targetID \<noteq> [] then (n, Inr targetID)
        else if \<not> nd_DHT n then (n, Inl DHTDisabled)
        else case lookup_cids lp cr ip sw now targetID token of Inl e \<Rightarrow> (n, Inl e) | Inr providerCIDs \<Rightarrow>
          (case find_provider sw targetID providerCIDs n of
             (n1, True) \<Rightarrow> (n1, Inr targetID)
           | (n1, False) \<Rightarrow>
               if token = None then
                 (let n2 = n1\<lparr>nd_Searched := nd_Searched n1 @ [targetID]\<rparr>
                  in case sw_FindPeer sw targetID of
                       Some (p, addrs) \<Rightarrow> if addrs \<noteq> [] then (AddAddrs p addrs n2, Inr targetID) else (n2, Inl (PeerNotFound targetID))
                     | None \<Rightarrow> (n2, Inl (PeerNotFound targetID)))
               else (n1, Inl (PeerNotFound targetID))))"

definition openStream ::
  "libp2p \<Rightarrow> cryptography \<Rightarrow> ipfs \<Rightarrow> swarm \<Rightarrow> (peer_id \<Rightarrow> string \<Rightarrow> 's option) \<Rightarrow> go_time \<Rightarrow> node \<Rightarrow> string \<Rightarrow> string \<Rightarrow> string list \<Rightarrow>
     Token option \<Rightarrow> node \<times> (node_error + 's option)" where
  "openStream lp cr ip sw newStream now n target protocolID relays token =
     (case resolve lp cr ip sw now n target relays token of
        (n', Inl e) \<Rightarrow> (n', Inl e)
      | (n', Inr targetID) \<Rightarrow> (n', Inr (newStream targetID protocolID)))"

definition OpenStream ::
  "libp2p \<Rightarrow> cryptography \<Rightarrow> ipfs \<Rightarrow> swarm \<Rightarrow> (peer_id \<Rightarrow> string \<Rightarrow> 's option) \<Rightarrow> go_time \<Rightarrow> node \<Rightarrow> string \<Rightarrow> u16 \<Rightarrow> string list \<Rightarrow>
     Token option \<Rightarrow> node \<times> (node_error + 's option)" where
  "OpenStream lp cr ip sw newStream now n target service relays token =
     openStream lp cr ip sw newStream now n target (ProtocolForService service) relays token"

definition OpenDatagramStream ::
  "libp2p \<Rightarrow> cryptography \<Rightarrow> ipfs \<Rightarrow> swarm \<Rightarrow> (peer_id \<Rightarrow> string \<Rightarrow> 's option) \<Rightarrow> go_time \<Rightarrow> node \<Rightarrow> string \<Rightarrow> u16 \<Rightarrow> string list \<Rightarrow>
     Token option \<Rightarrow> node \<times> (node_error + 's option)" where
  "OpenDatagramStream lp cr ip sw newStream now n target service relays token =
     openStream lp cr ip sw newStream now n target (DatagramProtocolForService service) relays token"

text \<open>One round of the loop of \<open>Advertise\<close>: the provided keys and the time to the next round, or
  None when the loop ends.\<close>

definition advertise_round :: "libp2p \<Rightarrow> cryptography \<Rightarrow> ipfs \<Rightarrow> swarm \<Rightarrow> go_time \<Rightarrow> node \<Rightarrow> Token option \<Rightarrow> (bytes list \<times> duration) option" where
  "advertise_round lp cr ip sw now n token =
     (if \<not> nd_DHT n then None
      else case token of
             None \<Rightarrow> Some ([sw_ToCid sw (nd_ID n)], 6 * 60 * Minute)
           | Some t \<Rightarrow> (case ProviderCIDs lp cr ip t now of Inl e \<Rightarrow> None | Inr cids \<Rightarrow> Some (cids, 5 * Minute)))"

fun connectedRelayCandidates :: "(peer_id \<Rightarrow> bool) \<Rightarrow> node \<Rightarrow> nat \<Rightarrow> peer_id list \<Rightarrow> addr_info list" where
  "connectedRelayCandidates supportsHop n limit [] = []"
| "connectedRelayCandidates supportsHop n limit (peerID # peers) =
     (if limit = 0 then []
      else if peerID = nd_ID n then connectedRelayCandidates supportsHop n limit peers
      else if \<not> supportsHop peerID then connectedRelayCandidates supportsHop n limit peers
      else (peerID, nd_Peerstore n peerID) # connectedRelayCandidates supportsHop n (limit - 1) peers)"

section \<open>The order of dialling\<close>

lemma dialAddressRank_bounds: "0 \<le> dialAddressRank lp a" "dialAddressRank lp a \<le> 7"
  by (simp_all add: dialAddressRank_def Let_def)

lemma map_fst_rank_delays: "map fst (rank_delays lp r d xs) = xs"
  by (induction lp r d xs rule: rank_delays.induct) (simp_all add: Let_def)

lemma rank_delays_delay:
  assumes "sorted (map (dialAddressRank lp) xs)" and "\<forall>x\<in>set xs. r \<le> dialAddressRank lp x" and "0 \<le> r"
    and "(a, d') \<in> set (rank_delays lp r d xs)"
  shows "d' = d + 50 * Millisecond * int (card {q \<in> dialAddressRank lp ` set xs. r < q \<and> q \<le> dialAddressRank lp a})"
  using assms
proof (induction xs arbitrary: r d)
  case (Cons y ys)
  let ?k = "dialAddressRank lp" and ?d = "if dialAddressRank lp y \<noteq> r then d + 50 * Millisecond else d"
  have ry: "r \<le> ?k y" and above: "\<forall>x\<in>set ys. ?k y \<le> ?k x" and s: "sorted (map ?k ys)" using Cons.prems by auto
  from Cons.prems(3,4) consider "a = y" "d' = ?d" | "(a, d') \<in> set (rank_delays lp (?k y) ?d ys)" by (auto simp: Let_def)
  then show ?case
  proof cases
    case 1
    have "{q \<in> ?k ` set (y # ys). r < q \<and> q \<le> ?k a} = (if ?k y \<noteq> r then {?k y} else {})"
      using 1 ry above by auto
    with 1 show ?thesis by simp
  next
    case 2
    have "0 \<le> ?k y" by (rule dialAddressRank_bounds)
    note ih = Cons.IH [OF s above this 2]
    have "a \<in> set ys" using 2 map_fst_rank_delays by (metis fst_conv image_eqI set_map)
    then have "?k y \<le> ?k a" using above by blast
    let ?S = "{q \<in> ?k ` set ys. ?k y < q \<and> q \<le> ?k a}"
    have "{q \<in> ?k ` set (y # ys). r < q \<and> q \<le> ?k a} = (if ?k y \<noteq> r then insert (?k y) ?S else ?S)"
      using ry above \<open>?k y \<le> ?k a\<close> by (auto simp: order.order_iff_strict)
    then show ?thesis using ih by (simp add: algebra_simps)
  qed
qed simp

lemma dial_ranker_delay:
  assumes m: "(a, d) \<in> set (PreferDialRanker lp addresses)"
  shows "d = 50 * Millisecond * int (card {q \<in> dialAddressRank lp ` set addresses. q < dialAddressRank lp a}) \<and>
      d \<le> 350 * Millisecond"
proof -
  let ?k = "dialAddressRank lp"
  obtain y ys where xs: "sort_key ?k addresses = y # ys"
    using m by (cases "sort_key ?k addresses") (auto simp: PreferDialRanker_def)
  have S: "sorted (map ?k (y # ys))" and set_xs: "set addresses = set (y # ys)"
    using sorted_sort_key [of ?k addresses] set_sort [of ?k addresses] by (simp_all add: xs)
  have "a \<in> set (y # ys)" using m map_fst_rank_delays by (metis PreferDialRanker_def fst_conv image_eqI set_map xs)
  have "(a, d) \<in> set (rank_delays lp (?k y) 0 (y # ys))"
    using m by (simp add: PreferDialRanker_def xs Let_def)
  then have "d = 50 * Millisecond * int (card {q \<in> ?k ` set (y # ys). ?k y < q \<and> q \<le> ?k a})"
    using rank_delays_delay [OF S, of "?k y" a d 0] S dialAddressRank_bounds by auto
  moreover have "card {q \<in> ?k ` set (y # ys). ?k y < q \<and> q \<le> ?k a} = card {q \<in> ?k ` set (y # ys). q < ?k a}"
  proof -
    let ?A = "{q \<in> ?k ` set (y # ys). q \<le> ?k a}"
    have lo: "?k y \<in> ?A" using S \<open>a \<in> set (y # ys)\<close> by auto
    have hi: "?k a \<in> ?A" using \<open>a \<in> set (y # ys)\<close> by auto
    have "{q \<in> ?k ` set (y # ys). ?k y < q \<and> q \<le> ?k a} = ?A - {?k y}" using S by (auto simp: order.order_iff_strict)
    moreover have "{q \<in> ?k ` set (y # ys). q < ?k a} = ?A - {?k a}" by auto
    moreover have "finite ?A" by simp
    ultimately show ?thesis using lo hi by (simp only: card_Diff_singleton)
  qed
  moreover have "card {q \<in> ?k ` set addresses. q < ?k a} \<le> 7"
  proof -
    have "{q \<in> ?k ` set addresses. q < ?k a} \<subseteq> {0..<7}" using dialAddressRank_bounds
      by (auto intro: less_le_trans [OF _ dialAddressRank_bounds(2)])
    from card_mono [OF _ this] show ?thesis by simp
  qed
  ultimately show ?thesis
    unfolding set_xs by (simp add: Millisecond_def)
qed

text \<open>
  the dialler tries every address once, the preferred transports first and addresses of one
  class in the order given. An address waits 50 milliseconds for each better class that is
  present, so addresses of one class are dialled together and no address waits longer than 350
  milliseconds.
\<close>

theorem dial_ranker:
  "map fst (PreferDialRanker lp addresses) = sort_key (dialAddressRank lp) addresses \<and>
   (\<forall>(a, d)\<in>set (PreferDialRanker lp addresses).
      d = 50 * Millisecond * int (card {q \<in> dialAddressRank lp ` set addresses. q < dialAddressRank lp a}) \<and>
      d \<le> 350 * Millisecond)"
  using dial_ranker_delay by (auto simp: PreferDialRanker_def map_fst_rank_delays)

theorem dial_ranker_witness:
  "PreferDialRanker sample_libp2p [''/ip4/1/tcp/2'', ''/ip4/1/udp/2/quic-v1'', ''/ip4/3/tcp/4''] =
     [(''/ip4/1/udp/2/quic-v1'', 0), (''/ip4/1/tcp/2'', 50000000), (''/ip4/3/tcp/4'', 50000000)] \<and>
   50000000 \<le> 350 * Millisecond"
proof -
  have "PreferDialRanker sample_libp2p [''/ip4/1/tcp/2'', ''/ip4/1/udp/2/quic-v1'', ''/ip4/3/tcp/4''] =
     [(''/ip4/1/udp/2/quic-v1'', 0), (''/ip4/1/tcp/2'', 50000000), (''/ip4/3/tcp/4'', 50000000)]"
    by code_simp
  with dial_ranker [of sample_libp2p "[''/ip4/1/tcp/2'', ''/ip4/1/udp/2/quic-v1'', ''/ip4/3/tcp/4'']"]
  show ?thesis by auto
qed

section \<open>The proxy\<close>

definition direct_transport :: "node_option \<Rightarrow> bool" where
  "direct_transport opt \<longleftrightarrow> opt \<in> {OptTCP, OptWebsocket, OptQUIC, OptWebRTC}"

text \<open>
  C31: with an upstream SOCKS proxy no transport bypasses it. Whatever the configuration enables,
  the only transport handed to libp2p is TCP through the proxy, and the host listens on no UDP
  address; a proxy address that does not split into host and port is refused.
\<close>

theorem proxy_not_bypassed:
  assumes "nc_UpstreamSOCKS cfg \<noteq> []" and "node_options lp sw cfg = Inr (cfg', options, relays)"
  shows "OptTCPThrough (nc_UpstreamSOCKS cfg) \<in> set options \<and> list_all (\<lambda>opt. \<not> direct_transport opt) options \<and>
    (\<forall>addresses. OptListen addresses \<in> set options \<longrightarrow> addresses = listenAddresses (cfg\<lparr>nc_EnableQUIC := False, nc_EnableWebRTC := False\<rparr>)) \<and>
    (\<exists>host port. SplitHostPort (nc_UpstreamSOCKS cfg) = Inr (host, port))"
proof -
  let ?c = "cfg\<lparr>nc_EnableQUIC := False, nc_EnableWebRTC := False\<rparr>"
  have g: "applyUpstreamSOCKSGuard cfg = ?c" using assms(1) by (simp add: applyUpstreamSOCKSGuard_def)
  obtain middle where o: "options = transport_options ?c @ middle @ relay_options ?c relays"
      and m: "\<forall>opt\<in>set middle. \<exists>announced. opt = OptAddrsFactory announced"
      and "\<exists>host port. SplitHostPort (nc_UpstreamSOCKS cfg) = Inr (host, port)"
    using assms by (auto simp: node_options_def g Let_def split: if_splits sum.splits)
  then show ?thesis using assms(1)
    by (auto simp: transport_options_def relay_options_def direct_transport_def list_all_iff)
qed

section \<open>Failures while starting\<close>

definition released :: "node \<Rightarrow> bool" where
  "released n \<longleftrightarrow> nd_Closed n \<and> nd_Cancelled n \<and> \<not> nd_HostOpen n \<and> \<not> nd_DHT n \<and> \<not> nd_MDNS n \<and> \<not> nd_PubSub n"

lemma node_Close_released: "\<not> nd_Closed n \<Longrightarrow> released (node_Close n)"
  by (simp add: node_Close_def released_def)

lemma AddAddrs_Closed [simp]: "nd_Closed (AddAddrs p as n) = nd_Closed n" "nd_HostOpen (AddAddrs p as n) = nd_HostOpen n"
  "nd_Queried (AddAddrs p as n) = nd_Queried n" "nd_Searched (AddAddrs p as n) = nd_Searched n"
  by (simp_all add: AddAddrs_def)

lemma connect_relays_Closed: "nd_Closed (fst (connect_relays sw cfg n rs)) = nd_Closed n"
  by (induction sw cfg n rs rule: connect_relays.induct) (simp_all add: Let_def)

lemma add_bootstrap_Closed: "nd_Closed (add_bootstrap infos n) = nd_Closed n"
proof -
  have "nd_Closed (fold (\<lambda>(p, addrs). AddAddrs p addrs) infos n) = nd_Closed n"
    by (induction infos arbitrary: n) (simp_all add: case_prod_unfold)
  then show ?thesis by (simp add: add_bootstrap_def)
qed

lemma start_Closed:
  "nd_Closed (fst (start_dht lp sw cfg n)) = nd_Closed n" "nd_Closed (fst (start_mdns sw cfg n)) = nd_Closed n"
  "nd_Closed (fst (start_pubsub sw cfg rs n)) = nd_Closed n"
  by (simp_all add: start_dht_def start_mdns_def start_pubsub_def add_bootstrap_Closed Let_def split: sum.split)

definition started :: "node \<times> node_error option \<Rightarrow> bool" where
  "started r \<longleftrightarrow> (case r of (n, Some e) \<Rightarrow> released n | (n, None) \<Rightarrow> \<not> nd_Closed n)"

lemma fail_or_started:
  assumes "\<not> nd_Closed (fst r)" and "\<And>n. \<not> nd_Closed n \<Longrightarrow> started (k n)"
  shows "started (fail_or r k)"
proof (cases "snd r")
  case None
  then have "fail_or r k = k (fst r)" by (simp add: fail_or_def case_prod_unfold)
  then show ?thesis using assms by simp
next
  case (Some e)
  then show ?thesis using assms(1) by (simp add: fail_or_def case_prod_unfold started_def node_Close_released)
qed

text \<open>
  a node that fails to start leaves nothing running. \<open>New\<close> returns an error without having
  created a host, or after closing the host, the DHT, mDNS and the subscription; when it returns
  no error the node is open.
\<close>

theorem node_New_releases:
  "case node_New lp sw self cfg of
     (None, e) \<Rightarrow> e \<noteq> None
   | (Some n, Some e) \<Rightarrow> released n
   | (Some n, None) \<Rightarrow> \<not> nd_Closed n"
proof (cases "node_options lp sw cfg")
  case (Inl e)
  then show ?thesis by (simp add: node_New_def)
next
  case (Inr r)
  obtain c options rs where r: "r = (c, options, rs)" by (cases r) auto
  define n where "n = \<lparr>nd_ID = self, nd_HostOpen = True, nd_DHT = False, nd_MDNS = False, nd_PubSub = False, nd_Cancelled = False,
      nd_Closed = False, nd_Peerstore = \<lambda>p. [], nd_Queried = [], nd_Searched = []\<rparr>"
  define x where "x = fail_or (connect_relays sw c n rs) (\<lambda>n. fail_or (start_dht lp sw c n) (\<lambda>n. fail_or (start_mdns sw c n)
      (\<lambda>n. fail_or (start_pubsub sw c rs n) (\<lambda>n. (n, None)))))"
  have "started x" unfolding x_def
    by (intro fail_or_started) (simp_all add: start_Closed connect_relays_Closed started_def, simp add: n_def)
  moreover have "node_New lp sw self cfg = (if sw_NewHost sw options then map_prod Some id x else (None, Some CreateHost))"
    by (simp add: node_New_def Inr r x_def n_def)
  ultimately show ?thesis by (cases x) (auto simp: started_def split: option.splits)
qed

section \<open>What the DHT learns\<close>

lemma find_provider_queried:
  "\<exists>cs. nd_Queried (fst (find_provider sw p cids n)) = nd_Queried n @ cs \<and> set cs \<subseteq> set cids"
  "nd_Searched (fst (find_provider sw p cids n)) = nd_Searched n"
proof (induction sw p cids n rule: find_provider.induct)
  case (2 sw p c cids n)
  { case 1
    show ?case
    proof (cases "find (\<lambda>(q, addrs). q = p \<and> addrs \<noteq> []) (sw_FindProviders sw c)")
      case None
      then show ?thesis using "2.IH"(1) [OF refl None] by (force simp: Let_def)
    next
      case (Some x)
      then show ?thesis by (cases x) (auto simp: Let_def)
    qed
  next
    case 2
    show ?case using "2.IH"(2) [OF refl] by (auto simp: Let_def split: option.split prod.split)
  }
qed simp_all

text \<open>
  a token keeps the peer identifier out of the DHT. While a peer resolves a target with a
  token, and while it advertises itself with one, the DHT sees only keys derived from the
  token's secret: the rendezvous identifiers of the three current epochs. Neither the provider
  record of the peer identifier nor a peer lookup is used.
\<close>

theorem token_hides_peer:
  "(\<exists>cs. nd_Queried (fst (resolve lp cr ip sw now n target relays (Some t))) = nd_Queried n @ cs \<and>
      set cs \<subseteq> (case ProviderCIDs lp cr ip t now of Inl e \<Rightarrow> {} | Inr cids \<Rightarrow> set cids)) \<and>
   nd_Searched (fst (resolve lp cr ip sw now n target relays (Some t))) = nd_Searched n \<and>
   (case advertise_round lp cr ip sw now n (Some t) of
      None \<Rightarrow> True
    | Some (keys, interval) \<Rightarrow> ProviderCIDs lp cr ip t now = Inr keys \<and> interval = 5 * Minute)"
proof -
  have R: "(\<exists>cs. nd_Queried (fst (resolve lp cr ip sw now n target relays (Some t))) = nd_Queried n @ cs \<and>
      set cs \<subseteq> (case ProviderCIDs lp cr ip t now of Inl e \<Rightarrow> {} | Inr cids \<Rightarrow> set cids)) \<and>
   nd_Searched (fst (resolve lp cr ip sw now n target relays (Some t))) = nd_Searched n"
  proof (cases "HasPrefix target ''/'' \<or> peer_Decode lp target = None \<or> relays \<noteq> [] \<or> nd_Peerstore n (the (peer_Decode lp target)) \<noteq> [] \<or> \<not> nd_DHT n")
    case True
    then show ?thesis by (auto simp: resolve_def split: option.split)
  next
    case False
    then obtain p where p: "peer_Decode lp target = Some p" by auto
    have r: "resolve lp cr ip sw now n target relays (Some t) = (case ProviderCIDs lp cr ip t now of
        Inl e \<Rightarrow> (n, Inl (Rendezvous e))
      | Inr cids \<Rightarrow> (fst (find_provider sw p cids n), if snd (find_provider sw p cids n) then Inr p else Inl (PeerNotFound p)))"
      using False p by (simp add: resolve_def lookup_cids_def case_prod_unfold split: sum.split bool.split)
    show ?thesis using find_provider_queried [of sw p _ n] by (simp add: r split: sum.split)
  qed
  then show ?thesis by (auto simp: advertise_round_def split: sum.split)
qed

section \<open>Protocol names\<close>

lemma ProtocolForService_inject:
  "ProtocolForService s = ProtocolForService s' \<longleftrightarrow> s = s'"
  "DatagramProtocolForService s = DatagramProtocolForService s' \<longleftrightarrow> s = s'"
  "ProtocolForService s \<noteq> DatagramProtocolForService s'"
  "ProtocolForService s \<noteq> []" "DatagramProtocolForService s \<noteq> []"
  by (simp_all add: ProtocolForService_def DatagramProtocolForService_def ProtocolPrefix_def DatagramProtocolPrefix_def
      word_unat_eq_iff)

section \<open>Instances\<close>

definition sample_swarm :: swarm where
  "sample_swarm =
     \<lparr>ma_Encapsulate = \<lambda>a b. a @ b, sw_NewHost = \<lambda>options. True, sw_Connect = \<lambda>p. True, sw_Reserve = \<lambda>p. True,
      sw_DefaultBootstrap = [], sw_NewDHT = True, sw_Bootstrap = True, sw_StartMDNS = True, sw_StartPubSub = \<lambda>r d s i. True,
      sw_ToCid = string_bytes, sw_FindProviders = \<lambda>c. [], sw_FindPeer = \<lambda>p. None\<rparr>"

definition sample_node_config :: node_config where
  "sample_node_config =
     \<lparr>nc_PrivateKey = Some [1], nc_TransportPort = 4001, nc_WebsocketPort = 0, nc_IPVersion = 4, nc_Announce = [], nc_Relays = [],
      nc_Bootstrap = [], nc_EnableDHT = True, nc_EnableMDNS = True, nc_EnablePubSub = True, nc_PubSubDiscover = True,
      nc_PubSubInterval = 0, nc_EnableQUIC = True, nc_EnableWebRTC = True, nc_Listen = True, nc_DHTServer = False,
      nc_RelayServer = False, nc_Verbose = False, nc_UpstreamSOCKS = ''127.0.0.1:1080''\<rparr>"

theorem proxy_not_bypassed_witness:
  "\<exists>cfg' options relays. node_options sample_libp2p sample_swarm sample_node_config = Inr (cfg', options, relays) \<and>
     list_all (\<lambda>opt. \<not> direct_transport opt) options"
proof -
  have "SplitHostPort ''127.0.0.1:1080'' = Inr (''127.0.0.1'', ''1080'')" by code_simp
  then obtain cfg' options relays where o: "node_options sample_libp2p sample_swarm sample_node_config = Inr (cfg', options, relays)"
    by (simp add: node_options_def sample_node_config_def Let_def applyUpstreamSOCKSGuard_def)
  have "nc_UpstreamSOCKS sample_node_config \<noteq> []" by (simp add: sample_node_config_def)
  with proxy_not_bypassed [OF this o] o show ?thesis by blast
qed

end
