(* ===== verification/Listener_Lock.thy ===== *)
theory Listener_Lock
  imports App_Dir
begin

text \<open>
  \<open>src/internal/listenerlock/lock.go\<close> and \<open>lock_unix.go\<close>: one listener per logical port and user.
  A port is a file in the lock directory; a process keeps the set of the files it has locked,
  and an advisory lock on the file keeps other processes out. The world holds that set, the
  files locked by open descriptors of this process and of others, and which lock values were
  closed. Which system calls fail is the parameter \<open>lock_calls\<close>.

  The interface the users of the locks rely on is the locale \<open>port_locks\<close>: a set of held
  ports, which a successful acquisition extends by a port that was free and a release
  shrinks.
\<close>

definition DirectoryEnvironment :: string where
  "DirectoryEnvironment = ''P2P_NETCAT_LISTENER_LOCK_DIR''"

record Lock =
  lock_id :: nat
  lock_path :: string

record lock_world =
  lw_paths :: "string set"
  lw_own :: "string set"
  lw_foreign :: "string set"
  lw_closed :: "Lock set"
  lw_next :: nat

record lock_calls =
  call_MkdirAll :: bool
  call_OpenFile :: bool
  call_Flock :: bool

datatype lock_error =
    LockPort
  | LockDirectory
  | LockDirectoryCreate
  | LockOpen u16
  | LockFailed u16
  | InUse u16

definition defaultLockDirectory :: "os_host \<Rightarrow> string \<Rightarrow> string \<Rightarrow> string option" where
  "defaultLockDirectory h goos tempDirectory =
     (if goos = ''android'' then Some (Join [tempDirectory, ''p2p-netcat'', ''listeners''])
      else case os_UserCacheDir h of
             None \<Rightarrow> None
           | Some directory \<Rightarrow> Some (Join [directory, ''p2p-netcat'', ''listeners'']))"

definition lockDirectory :: "os_host \<Rightarrow> string option" where
  "lockDirectory h =
     (let directory = os_Getenv h DirectoryEnvironment
      in if directory \<noteq> [] then Abs (os_Getwd h) directory
         else defaultLockDirectory h (os_GOOS h) (os_TempDir h))"

definition lock_file :: "string \<Rightarrow> u16 \<Rightarrow> string" where
  "lock_file directory service = Join [directory, show_nat (unat service) @ ''.lock'']"

text \<open>\<open>tryLockFile\<close>: a lock held through another descriptor makes the call give up.\<close>

definition tryLockFile :: "lock_calls \<Rightarrow> lock_world \<Rightarrow> string \<Rightarrow> bool option" where
  "tryLockFile lc w path =
     (if path \<in> lw_own w \<union> lw_foreign w then Some False else if call_Flock lc then Some True else None)"

definition Acquire :: "os_host \<Rightarrow> lock_calls \<Rightarrow> lock_world \<Rightarrow> u16 \<Rightarrow> lock_world \<times> (lock_error + Lock)" where
  "Acquire h lc w service =
     (if service = 0 then (w, Inl LockPort)
      else case lockDirectory h of
             None \<Rightarrow> (w, Inl LockDirectory)
           | Some directory \<Rightarrow>
               if \<not> call_MkdirAll lc then (w, Inl LockDirectoryCreate)
               else let path = lock_file directory service
                    in if path \<in> lw_paths w then (w, Inl (InUse service))
                       else if \<not> call_OpenFile lc then (w, Inl (LockOpen service))
                       else case tryLockFile lc w path of
                              None \<Rightarrow> (w, Inl (LockFailed service))
                            | Some False \<Rightarrow> (w, Inl (InUse service))
                            | Some True \<Rightarrow>
                                (w\<lparr>lw_paths := insert path (lw_paths w), lw_own := insert path (lw_own w),
                                   lw_next := Suc (lw_next w)\<rparr>,
                                 Inr \<lparr>lock_id = lw_next w, lock_path = path\<rparr>))"

definition lock_Close :: "lock_world \<Rightarrow> Lock option \<Rightarrow> lock_world" where
  "lock_Close w lock =
     (case lock of
        None \<Rightarrow> w
      | Some l \<Rightarrow>
          if l \<in> lw_closed w then w
          else w\<lparr>lw_closed := insert l (lw_closed w), lw_own := lw_own w - {lock_path l},
                 lw_paths := lw_paths w - {lock_path l}\<rparr>)"

section \<open>File names of ports\<close>

lemma clean_elements_last:
  "plain_element e \<Longrightarrow> clean_elements rooted out (es @ [e]) = clean_elements rooted out es @ [e]"
  by (induction rooted out es rule: clean_elements.induct) (auto simp: plain_element_def)

lemma join_with_last: "\<exists>a. join_with ''/'' (es @ [e]) = a @ e \<and> (a = [] \<or> last a = CHR ''/'')"
proof (cases "es = []")
  case False
  then show ?thesis using join_with_append [OF False, of "[e]" "''/''"] by simp
qed simp

lemma split_on_append_last:
  "CHR ''/'' \<notin> set e \<Longrightarrow> split_on (CHR ''/'') (d @ ''/'' @ e) = split_on (CHR ''/'') d @ [e]"
  by (induction d) (auto simp: split_on_single split: list.split)

lemma Clean_last:
  assumes "plain_element e" and "split_on (CHR ''/'') p = es @ [e]"
  shows "\<exists>a. Clean p = a @ e \<and> (a = [] \<or> last a = CHR ''/'')"
proof -
  obtain a where a: "join_with ''/'' (clean_elements (IsAbs p) [] es @ [e]) = a @ e" "a = [] \<or> last a = CHR ''/''"
    using join_with_last by blast
  have "e \<noteq> []" using assms(1) by (simp add: plain_element_def)
  then show ?thesis using a clean_elements_last [OF assms(1)] assms(2)
    by (auto simp: Clean_def Let_def intro: exI [of _ "CHR ''/'' # a"])
qed

lemma Join_last:
  assumes "plain_element e"
  shows "\<exists>a. Join [d, e] = a @ e \<and> (a = [] \<or> last a = CHR ''/'')"
proof (cases "d = []")
  case True
  have "e \<noteq> []" "split_on (CHR ''/'') e = [] @ [e]" using assms by (simp_all add: plain_element_def split_on_single)
  then show ?thesis using True Clean_last [OF assms, of e "[]"] by (simp add: Join_def)
next
  case False
  have "CHR ''/'' \<notin> set e" using assms by (simp add: plain_element_def)
  then show ?thesis using False Clean_last [OF assms split_on_append_last] by (simp add: Join_def)
qed

lemma last_element_unique:
  assumes "a @ e = b @ f" and "a = [] \<or> last a = c" and "b = [] \<or> last b = c" and "c \<notin> set e" and "c \<notin> set f"
  shows "e = f"
proof (rule ccontr)
  assume "e \<noteq> f"
  from assms(1) obtain us where "a = b @ us \<and> us @ e = f \<or> a @ us = b \<and> e = us @ f" by (auto simp: append_eq_append_conv2)
  with \<open>e \<noteq> f\<close> show False
  proof (elim disjE conjE)
    assume u: "a = b @ us" "us @ e = f"
    then have "us \<noteq> []" using \<open>e \<noteq> f\<close> by auto
    with u assms(2,5) show False by (metis append_is_Nil_conv last_appendR last_in_set Un_iff set_append)
  next
    assume u: "a @ us = b" "e = us @ f"
    then have "us \<noteq> []" using \<open>e \<noteq> f\<close> by auto
    with u assms(3,4) show False by (metis append_is_Nil_conv last_appendR last_in_set Un_iff set_append)
  qed
qed

lemma lock_name_plain: "plain_element (show_nat n @ ''.lock'')"
proof -
  have "CHR ''/'' \<notin> set (show_nat n)" using show_nat_digits [of "CHR ''/''" n] by (auto simp: is_digit_def)
  moreover have "show_nat n @ ''.lock'' \<noteq> ''.''" "show_nat n @ ''.lock'' \<noteq> ''..''" by (simp_all add: append_eq_Cons_conv)
  ultimately show ?thesis by (simp add: plain_element_def)
qed

lemma lock_file_inject: "lock_file d s = lock_file d s' \<longleftrightarrow> s = s'"
proof
  assume eq: "lock_file d s = lock_file d s'"
  obtain a where a: "lock_file d s = a @ (show_nat (unat s) @ ''.lock'')" "a = [] \<or> last a = CHR ''/''"
    using Join_last [OF lock_name_plain] unfolding lock_file_def by blast
  obtain b where b: "lock_file d s' = b @ (show_nat (unat s') @ ''.lock'')" "b = [] \<or> last b = CHR ''/''"
    using Join_last [OF lock_name_plain] unfolding lock_file_def by blast
  have "show_nat (unat s) @ ''.lock'' = show_nat (unat s') @ ''.lock''"
    by (rule last_element_unique [OF _ a(2) b(2)])
      (use eq a b lock_name_plain in \<open>simp_all add: plain_element_def\<close>)
  then show "s = s'" by (simp add: word_unat_eq_iff)
qed simp

section \<open>The interface\<close>

locale port_locks =
  fixes wf :: "'w \<Rightarrow> bool" and held :: "'w \<Rightarrow> u16 set" and acquire :: "'w \<Rightarrow> u16 \<Rightarrow> 'w \<times> ('e + 'l)"
    and release :: "'w \<Rightarrow> 'l \<Rightarrow> 'w" and owns :: "'w \<Rightarrow> 'l \<Rightarrow> u16 \<Rightarrow> bool"
  assumes acquire_held: "wf w \<Longrightarrow> acquire w s = (w', Inr l) \<Longrightarrow> s \<notin> held w \<and> held w' = insert s (held w)"
    and acquire_owns: "wf w \<Longrightarrow> acquire w s = (w', Inr l) \<Longrightarrow> owns w' l s"
    and acquire_keeps: "wf w \<Longrightarrow> acquire w s = (w', Inr l) \<Longrightarrow> wf w' \<and> (owns w l' s' \<longrightarrow> owns w' l' s')"
    and acquire_fails: "acquire w s = (w', Inl e) \<Longrightarrow> w' = w"
    and release_held: "owns w l s \<Longrightarrow> held (release w l) = held w - {s}"
    and release_keeps: "wf w \<Longrightarrow> owns w l s \<Longrightarrow> wf (release w l) \<and> (owns w l' s' \<longrightarrow> s' \<noteq> s \<longrightarrow> owns (release w l) l' s')"
    and owns_held: "owns w l s \<Longrightarrow> s \<in> held w"
begin

text \<open>What is acquired and released again is free again, and the others are untouched.\<close>

lemma acquire_release:
  assumes "wf w" and "acquire w s = (w', Inr l)"
  shows "held (release w' l) = held w" and "owns w l' s' \<Longrightarrow> owns (release w' l) l' s'"
proof -
  show "held (release w' l) = held w"
    using release_held [OF acquire_owns [OF assms]] acquire_held [OF assms] by auto
  assume o: "owns w l' s'"
  then have "s' \<noteq> s" using owns_held acquire_held [OF assms] by blast
  then show "owns (release w' l) l' s'" using o acquire_keeps [OF assms] release_keeps acquire_owns [OF assms] by blast
qed

end

definition lock_wf :: "lock_world \<Rightarrow> bool" where
  "lock_wf w \<longleftrightarrow> (\<forall>l\<in>lw_closed w. lock_id l < lw_next w)"

definition held_ports :: "os_host \<Rightarrow> lock_world \<Rightarrow> u16 set" where
  "held_ports h w = (case lockDirectory h of None \<Rightarrow> {} | Some d \<Rightarrow> {s. lock_file d s \<in> lw_paths w})"

definition lock_owns :: "os_host \<Rightarrow> lock_world \<Rightarrow> Lock \<Rightarrow> u16 \<Rightarrow> bool" where
  "lock_owns h w l s \<longleftrightarrow>
     (\<exists>d. lockDirectory h = Some d \<and> lock_path l = lock_file d s) \<and> lock_path l \<in> lw_paths w \<and> l \<notin> lw_closed w \<and>
     lock_id l < lw_next w"

lemma AcquireD:
  assumes "Acquire h lc w s = (w', Inr l)"
  shows "\<exists>d. lockDirectory h = Some d \<and> lock_file d s \<notin> lw_paths w \<and> lock_file d s \<notin> lw_own w \<union> lw_foreign w \<and>
    l = \<lparr>lock_id = lw_next w, lock_path = lock_file d s\<rparr> \<and>
    w' = w\<lparr>lw_paths := insert (lock_file d s) (lw_paths w), lw_own := insert (lock_file d s) (lw_own w), lw_next := Suc (lw_next w)\<rparr>"
  using assms by (auto simp: Acquire_def tryLockFile_def Let_def split: if_splits option.splits bool.splits)

lemma Acquire_fails: "Acquire h lc w s = (w', Inl e) \<Longrightarrow> w' = w"
  by (auto simp: Acquire_def Let_def split: if_splits option.splits bool.splits)

interpretation ll: port_locks lock_wf "held_ports h" "Acquire h lc" "\<lambda>w l. lock_Close w (Some l)" "lock_owns h" for h lc
proof
  fix w s w' l l' s'
  assume wf: "lock_wf w" and A: "Acquire h lc w s = (w', Inr l)"
  obtain d where d: "lockDirectory h = Some d" "lock_file d s \<notin> lw_paths w" "l = \<lparr>lock_id = lw_next w, lock_path = lock_file d s\<rparr>"
    "w' = w\<lparr>lw_paths := insert (lock_file d s) (lw_paths w), lw_own := insert (lock_file d s) (lw_own w), lw_next := Suc (lw_next w)\<rparr>"
    using AcquireD [OF A] by blast
  show "s \<notin> held_ports h w \<and> held_ports h w' = insert s (held_ports h w)"
    using d by (auto simp: held_ports_def lock_file_inject)
  show "lock_owns h w' l s" using d wf by (auto simp: lock_owns_def lock_wf_def)
  show "lock_wf w' \<and> (lock_owns h w l' s' \<longrightarrow> lock_owns h w' l' s')"
    using d wf by (auto simp: lock_owns_def lock_wf_def)
next
  fix w s w' e
  assume "Acquire h lc w s = (w', Inl e)"
  then show "w' = w" by (rule Acquire_fails)
next
  fix w l s
  assume o: "lock_owns h w l s"
  then show "held_ports h (lock_Close w (Some l)) = held_ports h w - {s}"
    by (auto simp: lock_owns_def held_ports_def lock_Close_def lock_file_inject)
  show "s \<in> held_ports h w" using o by (auto simp: lock_owns_def held_ports_def)
next
  fix w l s l' s'
  assume "lock_wf w" and "lock_owns h w l s"
  then show "lock_wf (lock_Close w (Some l)) \<and> (lock_owns h w l' s' \<longrightarrow> s' \<noteq> s \<longrightarrow> lock_owns h (lock_Close w (Some l)) l' s')"
    by (auto simp: lock_owns_def lock_wf_def lock_Close_def lock_file_inject)
qed

section \<open>Mutual exclusion\<close>

text \<open>
  The steps of this process and of others: acquire and close, any lock closed any number of
  times, and advisory locks that other processes take and give back.
\<close>

type_synonym lock_state = "lock_world \<times> (Lock \<times> u16) list"

inductive lock_step :: "os_host \<Rightarrow> lock_state \<Rightarrow> lock_state \<Rightarrow> bool" for h where
  ls_acquire: "Acquire h lc w s = (w', Inr l) \<Longrightarrow> lock_step h (w, L) (w', (l, s) # L)"
| ls_refused: "Acquire h lc w s = (w', Inl e) \<Longrightarrow> lock_step h (w, L) (w', L)"
| ls_close: "(l, s) \<in> set L \<Longrightarrow> lock_step h (w, L) (lock_Close w (Some l), filter (\<lambda>x. fst x \<noteq> l) L)"
| ls_close_again: "l \<in> lw_closed w \<Longrightarrow> lock_step h (w, L) (lock_Close w (Some l), L)"
| ls_other_lock: "p \<notin> lw_own w \<union> lw_foreign w \<Longrightarrow> lock_step h (w, L) (w\<lparr>lw_foreign := insert p (lw_foreign w)\<rparr>, L)"
| ls_other_unlock: "lock_step h (w, L) (w\<lparr>lw_foreign := lw_foreign w - {p}\<rparr>, L)"

definition lock_initial :: "lock_state \<Rightarrow> bool" where
  "lock_initial st \<longleftrightarrow> (\<exists>foreign. st = (\<lparr>lw_paths = {}, lw_own = {}, lw_foreign = foreign, lw_closed = {}, lw_next = 0\<rparr>, []))"

definition lock_inv :: "os_host \<Rightarrow> lock_state \<Rightarrow> bool" where
  "lock_inv h st \<longleftrightarrow>
     (case st of (w, L) \<Rightarrow>
        lock_wf w \<and> lw_own w = lw_paths w \<and> lw_paths w \<inter> lw_foreign w = {} \<and>
        lw_paths w = (\<lambda>(l, s). lock_path l) ` set L \<and> distinct (map snd L) \<and>
        (\<forall>(l, s)\<in>set L. lock_owns h w l s))"

lemma lock_inv_close:
  assumes inv: "lock_inv h (w, L)" and m: "(l, s) \<in> set L"
  shows "lock_inv h (lock_Close w (Some l), filter (\<lambda>x. fst x \<noteq> l) L)"
proof -
  have own: "lock_owns h w l s" and wf: "lock_wf w" and D: "distinct (map snd L)" using inv m by (auto simp: lock_inv_def)
  have other: "s' \<noteq> s \<and> lock_path l' \<noteq> lock_path l" if "(l', s') \<in> set L" "l' \<noteq> l" for l' s'
  proof -
    have "s' \<noteq> s" using D m that by (force simp: distinct_map inj_on_def)
    moreover have "lock_owns h w l' s'" using inv that by (auto simp: lock_inv_def)
    ultimately show ?thesis using own by (auto simp: lock_owns_def lock_file_inject)
  qed
  have keep: "lock_owns h (lock_Close w (Some l)) l' s'" if "(l', s') \<in> set L" "l' \<noteq> l" for l' s'
    using ll.release_keeps [OF wf own] other [OF that] inv that by (auto simp: lock_inv_def)
  have "l \<notin> lw_closed w" using own by (simp add: lock_owns_def)
  then have "lw_paths (lock_Close w (Some l)) = (\<lambda>(l, s). lock_path l) ` set (filter (\<lambda>x. fst x \<noteq> l) L)"
    using inv other by (fastforce simp: lock_inv_def lock_Close_def)
  moreover have "distinct (map snd (filter (\<lambda>x. fst x \<noteq> l) L))" using D by (rule distinct_map_filter)
  ultimately show ?thesis
    using inv keep ll.release_keeps [OF wf own] by (auto simp: lock_inv_def lock_Close_def)
qed

lemma lock_inv_step: "lock_step h st st' \<Longrightarrow> lock_inv h st \<Longrightarrow> lock_inv h st'"
proof (induction rule: lock_step.induct)
  case (ls_acquire lc w s w' l L)
  then have wf: "lock_wf w" by (simp add: lock_inv_def)
  note A = ls_acquire.hyps
  have new: "s \<notin> snd ` set L" using ls_acquire.prems ll.owns_held [of h w] ll.acquire_held [OF wf A] by (force simp: lock_inv_def)
  have "lock_owns h w' l' s'" if "(l', s') \<in> set L" for l' s'
    using ls_acquire.prems that ll.acquire_keeps [OF wf A] by (auto simp: lock_inv_def)
  moreover have "lock_owns h w' l s" "lock_wf w'" using ll.acquire_owns [OF wf A] ll.acquire_keeps [OF wf A] by auto
  moreover have "lw_paths w' = insert (lock_path l) (lw_paths w)" "lw_own w' = insert (lock_path l) (lw_own w)"
      "lw_foreign w' = lw_foreign w" "lock_path l \<notin> lw_foreign w"
    using AcquireD [OF A] by auto
  ultimately show ?case using ls_acquire.prems new unfolding lock_inv_def prod.case by (intro conjI) auto
next
  case (ls_refused lc w s w' e L)
  then show ?case using Acquire_fails by metis
next
  case (ls_close l s L w)
  then show ?case using lock_inv_close by blast
next
  case (ls_close_again l w L)
  then show ?case by (simp add: lock_Close_def)
qed (auto simp: lock_inv_def lock_wf_def lock_owns_def)

interpretation lk_system: invariant_system "lock_step h" lock_initial "lock_inv h" for h
proof
  show "lock_inv h st" if "lock_initial st" for st
    using that by (auto simp: lock_initial_def lock_inv_def lock_wf_def)
qed (rule lock_inv_step)

text \<open>
  C14: a logical port has one listener. In every state that this process and others can reach, no
  two of the live locks are for the same port, and the lock file of a live lock is not locked by
  another process. A port with no live lock here and no lock elsewhere can be acquired when the
  system calls succeed.
\<close>

theorem lock_exclusive:
  assumes "lock_initial st0" and "(lock_step h)\<^sup>*\<^sup>* st0 (w, L)"
  shows "distinct (map snd L) \<and> (\<forall>(l, s)\<in>set L. lock_path l \<notin> lw_foreign w \<and> lockDirectory h \<noteq> None) \<and>
    (\<forall>s d lc. s \<noteq> 0 \<and> s \<notin> snd ` set L \<and> lockDirectory h = Some d \<and> lock_file d s \<notin> lw_foreign w \<and>
       call_MkdirAll lc \<and> call_OpenFile lc \<and> call_Flock lc \<longrightarrow> (\<exists>w' l. Acquire h lc w s = (w', Inr l)))"
proof -
  have inv: "lock_inv h (w, L)" by (rule lk_system.reachable_inv [OF assms])
  have "lock_file d s \<notin> lw_paths w" if "lockDirectory h = Some d" "s \<notin> snd ` set L" for d s
  proof
    assume "lock_file d s \<in> lw_paths w"
    then obtain l s' where l: "(l, s') \<in> set L" "lock_path l = lock_file d s" using inv by (auto simp: lock_inv_def)
    then have "lock_owns h w l s'" using inv by (auto simp: lock_inv_def)
    then have "s' = s" using l that(1) by (auto simp: lock_owns_def lock_file_inject)
    with l that(2) show False by force
  qed
  then have "\<exists>w' l. Acquire h lc w s = (w', Inr l)"
    if "s \<noteq> 0" "s \<notin> snd ` set L" "lockDirectory h = Some d" "lock_file d s \<notin> lw_foreign w" "call_MkdirAll lc" "call_OpenFile lc" "call_Flock lc"
    for s d lc using that inv by (simp add: Acquire_def Let_def tryLockFile_def lock_inv_def)
  moreover have "distinct (map snd L)" using inv by (simp add: lock_inv_def)
  moreover have "\<forall>(l, s)\<in>set L. lock_path l \<notin> lw_foreign w \<and> lockDirectory h \<noteq> None"
  proof -
    have "lock_path l \<in> lw_paths w \<and> lockDirectory h \<noteq> None" if "(l, s) \<in> set L" for l s
      using inv that by (fastforce simp: lock_inv_def lock_owns_def)
    then show ?thesis using inv by (fastforce simp: lock_inv_def)
  qed
  ultimately show ?thesis by blast
qed

section \<open>Instances\<close>

definition sample_locks :: lock_world where
  "sample_locks = \<lparr>lw_paths = {}, lw_own = {}, lw_foreign = {}, lw_closed = {}, lw_next = 0\<rparr>"

definition sample_lock_calls :: lock_calls where
  "sample_lock_calls = \<lparr>call_MkdirAll = True, call_OpenFile = True, call_Flock = True\<rparr>"

definition sample_lock_path :: "u16 \<Rightarrow> string" where
  "sample_lock_path s = lock_file ''/home/u/.cache/p2p-netcat/listeners'' s"

lemma sample_lockDirectory: "lockDirectory sample_host = Some ''/home/u/.cache/p2p-netcat/listeners''"
  by code_simp

lemma sample_Acquire:
  assumes "s \<noteq> 0" and "sample_lock_path s \<notin> lw_paths w \<union> lw_own w \<union> lw_foreign w"
  shows "Acquire sample_host sample_lock_calls w s =
    (w\<lparr>lw_paths := insert (sample_lock_path s) (lw_paths w), lw_own := insert (sample_lock_path s) (lw_own w), lw_next := Suc (lw_next w)\<rparr>,
     Inr \<lparr>lock_id = lw_next w, lock_path = sample_lock_path s\<rparr>)"
  using assms by (simp add: Acquire_def sample_lockDirectory sample_lock_calls_def Let_def tryLockFile_def sample_lock_path_def)

theorem lock_exclusive_witness:
  "\<exists>w l. (lock_step sample_host)\<^sup>*\<^sup>* (sample_locks, []) (w, [(l, 1)]) \<and> lock_path l \<notin> lw_foreign w \<and>
     (\<exists>w' l'. Acquire sample_host sample_lock_calls w 2 = (w', Inr l'))"
proof -
  obtain w l where A: "Acquire sample_host sample_lock_calls sample_locks 1 = (w, Inr l)" and w: "lw_foreign w = {}"
    using sample_Acquire [of 1 sample_locks] by (simp add: sample_locks_def)
  have init: "lock_initial (sample_locks, [])" by (simp add: lock_initial_def sample_locks_def)
  have steps: "(lock_step sample_host)\<^sup>*\<^sup>* (sample_locks, []) (w, [(l, 1)])" by (rule r_into_rtranclp, rule ls_acquire [OF A])
  have "lock_path l \<notin> lw_foreign w" "\<exists>w' l'. Acquire sample_host sample_lock_calls w 2 = (w', Inr l')"
    using lock_exclusive [OF init steps] by (simp_all add: sample_lockDirectory w sample_lock_calls_def)
  with steps show ?thesis by blast
qed

end
