(* ===== verification/Identity.thy ===== *)
theory Identity
  imports App_Dir
begin

text \<open>
  \<open>src/internal/identity/identity.go\<close>: the private key of a node, read from its file or created.
  Key generation and the encoding of keys are the parameter \<open>key_files\<close>.

  Between the attempt to open the file and its exclusive creation another process may act on
  the file system; the function \<open>other\<close> is what it does in attempt \<open>k\<close>. The recursion on
  \<open>os.ErrExist\<close> need not end, so \<open>LoadOrCreate\<close> is a partial function whose value None means
  that the call does not return.
\<close>

record key_files =
  GenerateEd25519Key :: "nat \<Rightarrow> bytes option"
  MarshalPrivateKey :: "bytes \<Rightarrow> bytes option"
  UnmarshalPrivateKey :: "bytes \<Rightarrow> bytes option"

definition maxIdentityFileSize :: nat where "maxIdentityFileSize = 64 * 1024"

datatype identity_error =
    IdentityPath
  | IdentityInspect
  | IdentityNotRegular
  | IdentityNotPrivate
  | IdentityRead
  | IdentityClose
  | IdentityTooLarge
  | IdentityDecode
  | IdentityOpen os_error
  | IdentityDirectory os_error
  | IdentityGenerate
  | IdentityEncode
  | IdentityCreate os_error
  | IdentityWrite
  | IdentityProtect

definition load_identity :: "key_files \<Rightarrow> os_faults \<Rightarrow> fs_node \<Rightarrow> identity_error + bytes" where
  "load_identity kf ft file =
     (if ft_stat ft then Inl IdentityInspect
      else if \<not> IsRegular file then Inl IdentityNotRegular
      else if \<not> CheckPermissions file then Inl IdentityNotPrivate
      else case ReadAll_limit ft file (maxIdentityFileSize + 1) of
             None \<Rightarrow> Inl IdentityRead
           | Some data \<Rightarrow>
               if ft_close ft then Inl IdentityClose
               else if maxIdentityFileSize < length data then Inl IdentityTooLarge
               else case UnmarshalPrivateKey kf data of None \<Rightarrow> Inl IdentityDecode | Some key \<Rightarrow> Inr key)"

datatype attempt = Done fs "identity_error + bytes" | Retry fs

definition create_identity ::
  "key_files \<Rightarrow> os_faults \<Rightarrow> (fs \<Rightarrow> fs) \<Rightarrow> nat \<Rightarrow> fs \<Rightarrow> string \<Rightarrow> attempt" where
  "create_identity kf ft other k fs absolute =
     (case MkdirAll ft fs (Dir absolute) of
        Inl e \<Rightarrow> Done fs (Inl (IdentityDirectory e))
      | Inr fs1 \<Rightarrow>
          (case GenerateEd25519Key kf k of None \<Rightarrow> Done fs1 (Inl IdentityGenerate) | Some key \<Rightarrow>
          (case MarshalPrivateKey kf key of None \<Rightarrow> Done fs1 (Inl IdentityEncode) | Some encoded \<Rightarrow>
          (case OpenFile_excl ft (other fs1) absolute 0x180 of
             Inl ErrExist \<Rightarrow> Retry (other fs1)
           | Inl e \<Rightarrow> Done (other fs1) (Inl (IdentityCreate e))
           | Inr fs2 \<Rightarrow>
               (case WriteFile ft fs2 absolute encoded of
                  (fs3, False) \<Rightarrow> Done (os_Remove ft fs3 absolute) (Inl IdentityWrite)
                | (fs3, True) \<Rightarrow>
                    (case Protect ft fs3 absolute of
                       (fs4, False) \<Rightarrow> Done (os_Remove ft fs4 absolute) (Inl IdentityProtect)
                     | (fs4, True) \<Rightarrow>
                         if ft_close ft then Done (os_Remove ft fs4 absolute) (Inl IdentityClose)
                         else Done fs4 (Inr key)))))))"

definition identity_attempt ::
  "key_files \<Rightarrow> os_faults \<Rightarrow> (fs \<Rightarrow> fs) \<Rightarrow> nat \<Rightarrow> fs \<Rightarrow> string \<Rightarrow> attempt" where
  "identity_attempt kf ft other k fs absolute =
     (case os_Open ft fs absolute of
        Inr file \<Rightarrow> Done fs (load_identity kf ft file)
      | Inl ErrNotExist \<Rightarrow> create_identity kf ft other k fs absolute
      | Inl e \<Rightarrow> Done fs (Inl (IdentityOpen e)))"

partial_function (option) LoadOrCreate ::
  "os_host \<Rightarrow> key_files \<Rightarrow> os_faults \<Rightarrow> (nat \<Rightarrow> fs \<Rightarrow> fs) \<Rightarrow> nat \<Rightarrow> fs \<Rightarrow> string \<Rightarrow> (fs \<times> (identity_error + bytes)) option" where
  "LoadOrCreate h kf ft other k fs path =
     (if path = [] then
        Some (fs, case GenerateEd25519Key kf k of None \<Rightarrow> Inl IdentityGenerate | Some key \<Rightarrow> Inr key)
      else case Abs (os_Getwd h) path of
             None \<Rightarrow> Some (fs, Inl IdentityPath)
           | Some absolute \<Rightarrow>
               (case identity_attempt kf ft (other k) k fs absolute of
                  Done fs' r \<Rightarrow> Some (fs', r)
                | Retry fs' \<Rightarrow> LoadOrCreate h kf ft other (Suc k) fs' absolute))"

declare LoadOrCreate.simps [code]

text \<open>Keys survive their file encoding, which fits the size limit.\<close>

definition key_files_ok :: "key_files \<Rightarrow> bool" where
  "key_files_ok kf \<longleftrightarrow>
     (\<forall>key data. MarshalPrivateKey kf key = Some data \<longrightarrow>
        UnmarshalPrivateKey kf data = Some key \<and> length data \<le> maxIdentityFileSize)"

definition quiet :: "nat \<Rightarrow> fs \<Rightarrow> fs" where
  "quiet k fs = fs"

section \<open>Creating and loading again\<close>

lemma create_identity_Done:
  assumes "create_identity kf ft other k fs p = Done fs' (Inr key)"
  shows "\<exists>data. MarshalPrivateKey kf key = Some data \<and> fs' p = Some (Regular 0x180 data)"
  using assms
  by (auto simp: create_identity_def OpenFile_excl_def WriteFile_def Protect_def
      split: sum.splits option.splits os_error.splits prod.splits if_splits bool.splits)

lemma load_created:
  assumes "key_files_ok kf" and "MarshalPrivateKey kf key = Some data" and "fs p = Some (Regular 0x180 data)"
  shows "identity_attempt kf no_faults other k fs p = Done fs (Inr key)"
proof -
  have "os_Open no_faults fs p = Inr (Regular 0x180 data)"
    using assms(3) by (simp add: os_Open_def no_faults_def)
  moreover have "CheckPermissions (Regular 0x180 data)" by (simp add: CheckPermissions_def)
  moreover have "length data \<le> maxIdentityFileSize" "UnmarshalPrivateKey kf data = Some key"
    using assms(1,2) by (auto simp: key_files_ok_def)
  ultimately show ?thesis by (simp add: identity_attempt_def load_identity_def ReadAll_limit_def no_faults_def)
qed

lemma identity_attempt_again:
  assumes "key_files_ok kf" and "identity_attempt kf ft other k fs p = Done fs' (Inr key)"
  shows "identity_attempt kf no_faults other' k' fs' p = Done fs' (Inr key)"
proof (cases "os_Open ft fs p")
  case (Inr node)
  then have fs': "fs' = fs" and L: "load_identity kf ft node = Inr key" using assms(2) by (simp_all add: identity_attempt_def)
  have "os_Open no_faults fs p = Inr node" using Inr by (rule os_Open_no_faults)
  moreover have "load_identity kf no_faults node = Inr key"
    using L by (simp add: load_identity_def no_faults_def ReadAll_limit_def split: if_splits)
  ultimately show ?thesis by (simp add: identity_attempt_def fs')
next
  case (Inl e)
  then have "create_identity kf ft other k fs p = Done fs' (Inr key)"
    using assms(2) by (cases e) (simp_all add: identity_attempt_def)
  then show ?thesis using create_identity_Done load_created [OF assms(1)] by blast
qed

lemma LoadOrCreate_result:
  assumes "LoadOrCreate h kf ft other k fs path = Some (fs', Inr key)" and "path \<noteq> []"
    and "\<And>wd. os_Getwd h = Some wd \<Longrightarrow> IsAbs wd"
  shows "\<exists>p ft other k fs. Abs (os_Getwd h) path = Some p \<and> identity_attempt kf ft other k fs p = Done fs' (Inr key)"
proof -
  let ?P = "\<lambda>h kf ft other k fs path y. y = (fs', Inr key) \<longrightarrow> path \<noteq> [] \<longrightarrow> (\<forall>wd. os_Getwd h = Some wd \<longrightarrow> IsAbs wd) \<longrightarrow>
      (\<exists>p ft other k fs. Abs (os_Getwd h) path = Some p \<and> identity_attempt kf ft other k fs p = Done fs' (Inr key))"
  have "?P h kf ft other k fs path y" if "LoadOrCreate h kf ft other k fs path = Some y" for y
  proof (rule LoadOrCreate.raw_induct [where P = ?P, OF _ that])
    fix LC h kf ft other k fs path y
    assume IH: "\<And>h kf ft other k fs path y. LC h kf ft other k fs path = Some y \<Longrightarrow> ?P h kf ft other k fs path y"
      and body: "(if path = [] then Some (fs, case GenerateEd25519Key kf k of None \<Rightarrow> Inl IdentityGenerate | Some key \<Rightarrow> Inr key)
        else case Abs (os_Getwd h) path of None \<Rightarrow> Some (fs, Inl IdentityPath)
           | Some absolute \<Rightarrow> (case identity_attempt kf ft (other k) k fs absolute of Done fs' r \<Rightarrow> Some (fs', r)
                | Retry fs' \<Rightarrow> LC h kf ft other (Suc k) fs' absolute)) = Some y"
    show "?P h kf ft other k fs path y"
    proof (intro impI)
      assume y: "y = (fs', Inr key)" and ne: "path \<noteq> []" and W: "\<forall>wd. os_Getwd h = Some wd \<longrightarrow> IsAbs wd"
      obtain p where p: "Abs (os_Getwd h) path = Some p" using body y ne by (cases "Abs (os_Getwd h) path") auto
      have q: "Abs (os_Getwd h) p = Some p" "p \<noteq> []" using Abs_idem [OF p] W by simp_all
      show "\<exists>p ft other k fs. Abs (os_Getwd h) path = Some p \<and> identity_attempt kf ft other k fs p = Done fs' (Inr key)"
      proof (cases "identity_attempt kf ft (other k) k fs p")
        case (Done fs1 r)
        then have "fs1 = fs'" "r = Inr key" using body y ne p by simp_all
        with Done p show ?thesis by blast
      next
        case (Retry fs1)
        then have "LC h kf ft other (Suc k) fs1 p = Some y" using body ne p by simp
        from IH [OF this] y q W p show ?thesis by simp
      qed
    qed
  qed
  from this [OF assms(1)] show ?thesis using assms(2,3) by simp
qed

text \<open>
  C28: an identity persists. Whatever \<open>LoadOrCreate\<close> returned with a key, after any failures and
  any interference, the file now holds that key: every later call without failures returns the
  same key and changes nothing.
\<close>

theorem identity_persists:
  assumes "key_files_ok kf" and "\<And>wd. os_Getwd h = Some wd \<Longrightarrow> IsAbs wd" and "path \<noteq> []"
    and "LoadOrCreate h kf ft other k fs path = Some (fs', Inr key)"
  shows "LoadOrCreate h kf no_faults other' k' fs' path = Some (fs', Inr key)"
proof -
  obtain p ft other k fs where p: "Abs (os_Getwd h) path = Some p"
    and a: "identity_attempt kf ft other k fs p = Done fs' (Inr key)"
    using LoadOrCreate_result [OF assms(4,3,2)] by blast
  have "identity_attempt kf no_faults (other' k') k' fs' p = Done fs' (Inr key)"
    by (rule identity_attempt_again [OF assms(1) a])
  then show ?thesis using p assms(3) by (subst LoadOrCreate.simps) simp
qed

text \<open>
  a dangling link at the identity path hangs the program. The file cannot be opened because
  its target is missing and cannot be created because the link is there, so \<open>LoadOrCreate\<close> calls
  itself again without end.
\<close>

theorem identity_dangling_link:
  assumes "Abs (os_Getwd h) path = Some p" and "\<And>wd. os_Getwd h = Some wd \<Longrightarrow> IsAbs wd" and "path \<noteq> []"
    and "fs p = Some (Symlink q)" and "fs q = None" and "MkdirAll no_faults fs (Dir p) = Inr fs"
    and "\<And>k. \<exists>key data. GenerateEd25519Key kf k = Some key \<and> MarshalPrivateKey kf key = Some data"
  shows "LoadOrCreate h kf no_faults quiet k fs path = None"
proof -
  have again: "identity_attempt kf no_faults (quiet j) j fs p = Retry fs" for j
    using assms(4-6) assms(7) [of j]
    by (auto simp: identity_attempt_def os_Open_def no_faults_def max_links_def create_identity_def OpenFile_excl_def quiet_def
        eval_nat_numeral follow.simps)
  let ?P = "\<lambda>h' kf' ft' other' k fs' path' y. \<not> (h' = h \<and> kf' = kf \<and> ft' = no_faults \<and> other' = quiet \<and> fs' = fs \<and>
      path' \<noteq> [] \<and> Abs (os_Getwd h) path' = Some p)"
  have "?P h kf no_faults quiet k fs path y" if "LoadOrCreate h kf no_faults quiet k fs path = Some y" for y
  proof (rule LoadOrCreate.raw_induct [where P = ?P, OF _ that])
    fix LC h' kf' ft' other' k fs' path' y
    assume IH: "\<And>h kf ft other k fs path y. LC h kf ft other k fs path = Some y \<Longrightarrow> ?P h kf ft other k fs path y"
      and body: "(if path' = [] then Some (fs', case GenerateEd25519Key kf' k of None \<Rightarrow> Inl IdentityGenerate | Some key \<Rightarrow> Inr key)
        else case Abs (os_Getwd h') path' of None \<Rightarrow> Some (fs', Inl IdentityPath)
           | Some absolute \<Rightarrow> (case identity_attempt kf' ft' (other' k) k fs' absolute of Done fs' r \<Rightarrow> Some (fs', r)
                | Retry fs' \<Rightarrow> LC h' kf' ft' other' (Suc k) fs' absolute)) = Some y"
    have "LC h kf no_faults quiet (Suc k) fs p \<noteq> Some y" using IH Abs_idem [OF assms(1,2)] by blast
    then show "?P h' kf' ft' other' k fs' path' y" using body again by auto
  qed
  then show ?thesis using assms(1,3) by (cases "LoadOrCreate h kf no_faults quiet k fs path") auto
qed

text \<open>
  otherwise the call returns. Whatever fails and whatever the file system holds, if nothing
  interferes and the identity path is not a symbolic link, \<open>LoadOrCreate\<close> returns.
\<close>

theorem identity_returns:
  assumes "\<And>p q. Abs (os_Getwd h) path = Some p \<Longrightarrow> fs p \<noteq> Some (Symlink q)"
    and "\<And>wd. os_Getwd h = Some wd \<Longrightarrow> IsAbs wd"
  shows "\<exists>fs' r. LoadOrCreate h kf ft quiet k fs path = Some (fs', r)"
proof (cases "path = [] \<or> Abs (os_Getwd h) path = None")
  case True
  then show ?thesis by (subst LoadOrCreate.simps) auto
next
  case False
  then obtain p where p: "Abs (os_Getwd h) path = Some p" and ne: "path \<noteq> []" by auto
  note q = Abs_idem [OF p assms(2)]
  have second: "\<exists>fs' r. LoadOrCreate h kf ft quiet (Suc k) fs1 p = Some (fs', r)" if "fs1 p = Some Directory" for fs1
  proof -
    have "os_Open ft fs1 p \<noteq> Inl ErrNotExist" using that by (simp add: os_Open_def)
    then have "\<exists>r. identity_attempt kf ft (quiet (Suc k)) (Suc k) fs1 p = Done fs1 r"
      by (auto simp: identity_attempt_def split: sum.split os_error.split)
    then show ?thesis using q by (subst LoadOrCreate.simps) auto
  qed
  show ?thesis
  proof (cases "identity_attempt kf ft (quiet k) k fs p")
    case (Done fs1 r)
    then show ?thesis using p ne by (subst LoadOrCreate.simps) auto
  next
    case (Retry fs1)
    then have c: "create_identity kf ft (quiet k) k fs p = Retry fs1" and o: "os_Open ft fs p = Inl ErrNotExist"
      by (simp_all add: identity_attempt_def split: sum.splits os_error.splits)
    have "fs p = None" using o assms(1) [OF p]
      by (cases "fs p") (auto simp: os_Open_def follow.simps split: if_splits fs_node.splits)
    moreover have "MkdirAll ft fs (Dir p) = Inr fs1" "fs1 p \<noteq> None"
      using c by (auto simp: create_identity_def quiet_def OpenFile_excl_def
          split: sum.splits option.splits os_error.splits prod.splits bool.splits if_splits)
    ultimately have "fs1 p = Some Directory" using MkdirAll_frame [of ft fs "Dir p" fs1 p] by auto
    then show ?thesis using second Retry p ne by (subst LoadOrCreate.simps) simp
  qed
qed

section \<open>Instances\<close>

definition sample_key_files :: key_files where
  "sample_key_files = \<lparr>GenerateEd25519Key = \<lambda>k. Some [1, 2, 3],
     MarshalPrivateKey = \<lambda>key. if length key \<le> 64 then Some key else None, UnmarshalPrivateKey = Some\<rparr>"

definition sample_fs :: fs where
  "sample_fs = [''/'' \<mapsto> Directory, ''/link'' \<mapsto> Symlink ''/gone'']"

lemma sample_key_files_ok: "key_files_ok sample_key_files"
  by (simp add: key_files_ok_def sample_key_files_def maxIdentityFileSize_def)

lemma sample_paths: "Abs (os_Getwd sample_host) ''/id'' = Some ''/id''" "Abs (os_Getwd sample_host) ''/link'' = Some ''/link''"
  "map abs_name (prefixes (path_elements (Dir ''/id''))) = [''/'']"
  "map abs_name (prefixes (path_elements (Dir ''/link''))) = [''/'']"
  "IsAbs (the (os_Getwd sample_host))"
  by code_simp+

lemma sample_mkdir: "MkdirAll no_faults sample_fs (Dir ''/id'') = Inr sample_fs" "MkdirAll no_faults sample_fs (Dir ''/link'') = Inr sample_fs"
  by (simp_all add: MkdirAll_def sample_paths) (simp_all add: no_faults_def sample_fs_def)

lemma sample_lookup: "sample_fs ''/id'' = None" "sample_fs ''/gone'' = None" "sample_fs ''/link'' = Some (Symlink ''/gone'')"
  by code_simp+

lemma sample_identity:
  "LoadOrCreate sample_host sample_key_files no_faults quiet 0 sample_fs ''/id'' =
     Some (sample_fs(''/id'' \<mapsto> Regular 0x180 [1, 2, 3]), Inr [1, 2, 3])"
proof -
  have "identity_attempt sample_key_files no_faults (quiet 0) 0 sample_fs ''/id'' =
      Done (sample_fs(''/id'' \<mapsto> Regular 0x180 [1, 2, 3])) (Inr [1, 2, 3])"
    unfolding identity_attempt_def create_identity_def sample_mkdir
    by (simp add: os_Open_def no_faults_def sample_fs_def sample_key_files_def OpenFile_excl_def WriteFile_def Protect_def quiet_def)
  then show ?thesis using sample_paths(1) by (subst LoadOrCreate.simps) auto
qed

theorem identity_persists_witness:
  "\<exists>fs'. LoadOrCreate sample_host sample_key_files no_faults quiet 0 sample_fs ''/id'' = Some (fs', Inr [1, 2, 3]) \<and>
     LoadOrCreate sample_host sample_key_files no_faults quiet 7 fs' ''/id'' = Some (fs', Inr [1, 2, 3])"
proof -
  obtain fs' where "LoadOrCreate sample_host sample_key_files no_faults quiet 0 sample_fs ''/id'' = Some (fs', Inr [1, 2, 3])"
    using sample_identity by blast
  moreover from this have "LoadOrCreate sample_host sample_key_files no_faults quiet 7 fs' ''/id'' = Some (fs', Inr [1, 2, 3])"
    by (rule identity_persists [OF sample_key_files_ok, rotated 2]) (use sample_paths(5) in simp_all)
  ultimately show ?thesis by blast
qed

theorem identity_dangling_link_witness:
  "LoadOrCreate sample_host sample_key_files no_faults quiet 0 sample_fs ''/link'' = None"
  by (rule identity_dangling_link [where q = "''/gone''", OF sample_paths(2) _ _ _ _ sample_mkdir(2)])
    (use sample_paths(5) sample_lookup in \<open>simp_all add: sample_key_files_def\<close>)

theorem identity_returns_witness:
  "\<exists>fs' r. LoadOrCreate sample_host sample_key_files no_faults quiet 0 sample_fs ''/id'' = Some (fs', r)"
  by (rule identity_returns) (use sample_paths(1,5) sample_lookup(1) in auto)

end
