(* ===== verification/Cli_Options.thy ===== *)
theory Cli_Options
  imports Token_Store Node Listener_Lock Identity
begin

text \<open>
  The command line of \<open>src/internal/cli\<close>: the options after parsing, their validation
  (\<open>validateOptions\<close> of \<open>root.go\<close>), the pre-scan for \<open>-q\<close> and \<open>-T\<close>, the selection of the
  pairing token, and the node configuration of \<open>node_config.go\<close>. Flag parsing itself is cobra's:
  the model starts from the parsed values and from which flags were given.

  Go's \<open>int\<close> options are integers here; the flag parser bounds them to 64 bits and no operation
  below computes with them.
\<close>

record options =
  op_listen :: bool
  op_keepOpen :: bool
  op_timeout :: int
  op_timeoutExplicit :: bool
  op_quitDelay :: int
  op_destination :: string
  op_port :: int
  op_quiet :: bool
  op_socks :: bool
  op_tor :: bool
  op_upstreamSOCKS :: string
  op_interactive :: bool
  op_zero :: bool
  op_exec :: string
  op_udp :: bool
  op_udpIdleTimeout :: int
  op_transportPort :: int
  op_ipv4 :: bool
  op_ipv6 :: bool
  op_identity :: string
  op_relays :: "string list"
  op_bootstrap :: "string list"
  op_announce :: "string list"
  op_noDHT :: bool
  op_noMDNS :: bool
  op_noPubsub :: bool
  op_noQUIC :: bool
  op_noWebRTC :: bool
  op_allowUnauthenticatedListener :: bool
  op_allowUnauthenticatedNativeWebRTC :: bool
  op_pairingToken :: string
  op_pairingTokenFile :: string
  op_bind :: string
  op_json :: bool
  op_verbose :: bool

datatype option_error =
    TimeoutNotPositive
  | NegativeDelay
  | NegativeIdleTimeout
  | IdleTimeoutWithoutUDP
  | PortOutOfRange
  | BothIPVersions
  | UDPWithoutPort
  | UDPCombination
  | KeepOpenWithoutListen
  | ZeroWithListen
  | ExecWithoutListen
  | ExecCombination
  | DestinationWithoutPort
  | SOCKSWithoutListen
  | SOCKSCombination
  | InteractiveCombination
  | ClientPortCombination
  | TorWithListen
  | QuitDelayCombination
  | TorWithoutRelay
  | TorOverUDP
  | TooManyArguments
  | OptOutWithoutPrivilege
  | TokenRequired
  | TorWithUpstream
  | NativeOptOutCombination

section \<open>Validation\<close>

definition privilegedListenerMode :: "options \<Rightarrow> bool" where
  "privilegedListenerMode opts \<longleftrightarrow> op_interactive opts \<or> op_exec opts \<noteq> [] \<or> op_socks opts \<or> op_port opts \<noteq> 0"

text \<open>\<open>env\<close> is the value of \<open>P2P_NETCAT_TOKEN\<close>.\<close>

definition pairingTokenConfigured :: "string \<Rightarrow> options \<Rightarrow> bool" where
  "pairingTokenConfigured env opts \<longleftrightarrow>
     TrimSpace (op_pairingToken opts) \<noteq> [] \<or> TrimSpace (op_pairingTokenFile opts) \<noteq> [] \<or> TrimSpace env \<noteq> []"

definition validateOptions :: "bool \<Rightarrow> bool \<Rightarrow> string \<Rightarrow> options \<Rightarrow> string list \<Rightarrow> option_error option" where
  "validateOptions idleChanged portChanged env opts args =
     (if op_timeout opts \<le> 0 then Some TimeoutNotPositive
      else if op_quitDelay opts < 0 \<or> op_transportPort opts < 0 \<or> 65535 < op_transportPort opts then Some NegativeDelay
      else if op_udpIdleTimeout opts < 0 then Some NegativeIdleTimeout
      else if idleChanged \<and> \<not> op_udp opts then Some IdleTimeoutWithoutUDP
      else if op_port opts < 0 \<or> 65535 < op_port opts \<or> portChanged \<and> op_port opts = 0 then Some PortOutOfRange
      else if op_ipv4 opts \<and> op_ipv6 opts then Some BothIPVersions
      else if op_udp opts \<and> op_port opts = 0 then Some UDPWithoutPort
      else if op_udp opts \<and> (op_socks opts \<or> op_interactive opts \<or> op_zero opts \<or> op_exec opts \<noteq> [] \<or> op_quitDelay opts \<noteq> 0)
        then Some UDPCombination
      else if op_keepOpen opts \<and> \<not> op_listen opts then Some KeepOpenWithoutListen
      else if op_zero opts \<and> op_listen opts then Some ZeroWithListen
      else if op_exec opts \<noteq> [] \<and> \<not> op_listen opts then Some ExecWithoutListen
      else if op_exec opts \<noteq> [] \<and> (op_port opts \<noteq> 0 \<or> op_destination opts \<noteq> [] \<or> op_socks opts) then Some ExecCombination
      else if op_destination opts \<noteq> [] \<and> (\<not> op_listen opts \<or> op_port opts = 0) then Some DestinationWithoutPort
      else if op_socks opts \<and> \<not> op_listen opts then Some SOCKSWithoutListen
      else if op_socks opts \<and> (op_destination opts \<noteq> [] \<or> op_port opts \<noteq> 0) then Some SOCKSCombination
      else if op_interactive opts \<and> (op_exec opts \<noteq> [] \<or> op_socks opts \<or> op_port opts \<noteq> 0 \<or> op_destination opts \<noteq> [])
        then Some InteractiveCombination
      else if \<not> op_listen opts \<and> op_port opts \<noteq> 0 \<and> (op_interactive opts \<or> op_zero opts) then Some ClientPortCombination
      else if op_tor opts \<and> op_listen opts then Some TorWithListen
      else if op_quitDelay opts \<noteq> 0 \<and>
          (op_port opts \<noteq> 0 \<or> op_socks opts \<or> op_interactive opts \<or> op_zero opts \<or> op_exec opts \<noteq> []) then Some QuitDelayCombination
      else if op_tor opts \<and> op_relays opts = [] then Some TorWithoutRelay
      else if list_ex (\<lambda>relay. op_tor opts \<and> Contains relay ''/udp/'') (op_relays opts) then Some TorOverUDP
      else if op_listen opts \<and> 1 < length args then Some TooManyArguments
      else if op_allowUnauthenticatedListener opts \<and> (\<not> op_listen opts \<or> \<not> privilegedListenerMode opts) then Some OptOutWithoutPrivilege
      else if op_listen opts \<and> privilegedListenerMode opts \<and> \<not> pairingTokenConfigured env opts \<and>
          \<not> op_allowUnauthenticatedListener opts then Some TokenRequired
      else if op_tor opts \<and> op_upstreamSOCKS opts \<noteq> [] then Some TorWithUpstream
      else if op_allowUnauthenticatedNativeWebRTC opts \<and> (op_noWebRTC opts \<or> op_tor opts) then Some NativeOptOutCombination
      else None)"

definition nativeWebRTCEnabled :: "options \<Rightarrow> bool \<Rightarrow> bool" where
  "nativeWebRTCEnabled opts authenticated \<longleftrightarrow>
     \<not> op_noWebRTC opts \<and> \<not> op_tor opts \<and> (authenticated \<or> op_allowUnauthenticatedNativeWebRTC opts)"

datatype webrtc_diagnostic = WarnUnauthenticated | NativeDisabled

definition diagnoseNativeWebRTCSecurity :: "options \<Rightarrow> bool \<Rightarrow> webrtc_diagnostic option" where
  "diagnoseNativeWebRTCSecurity opts authenticated =
     (if op_noWebRTC opts \<or> op_tor opts \<or> authenticated then None
      else if op_allowUnauthenticatedNativeWebRTC opts then Some WarnUnauthenticated
      else Some NativeDisabled)"

section \<open>The pre-scan\<close>

definition value_flags :: "string list" where
  "value_flags = [''-I'', ''-w'', ''-d'', ''-p'', ''-e'', ''--identity'', ''--timeout'', ''--destination'', ''--port'', ''--exec'']"

fun boolean_option :: "char \<Rightarrow> string \<Rightarrow> bool \<Rightarrow> string list \<Rightarrow> bool" where
  "boolean_option shorthand longhand skipNext [] = False"
| "boolean_option shorthand longhand skipNext (value # values) =
     (if skipNext then boolean_option shorthand longhand False values
      else if value = ''--'' @ longhand \<or> value = [CHR ''-'', shorthand] then True
      else if value \<in> set value_flags then boolean_option shorthand longhand True values
      else if length value < 3 \<or> \<not> HasPrefix value ''-'' \<or> HasPrefix value ''--'' then boolean_option shorthand longhand False values
      else if value ! 1 \<in> set ''Iwdpe'' then boolean_option shorthand longhand False values
      else if shorthand \<in> set (tl value) then True
      else boolean_option shorthand longhand False values)"

definition booleanShortOptionRequested :: "string list \<Rightarrow> char \<Rightarrow> string \<Rightarrow> bool" where
  "booleanShortOptionRequested args shorthand longhand = boolean_option shorthand longhand False args"

definition QuietRequested :: "string list \<Rightarrow> bool" where
  "QuietRequested args = booleanShortOptionRequested args (CHR ''q'') ''quiet''"

definition TorRequested :: "string list \<Rightarrow> bool" where
  "TorRequested args = booleanShortOptionRequested args (CHR ''T'') ''tor''"

section \<open>Tokens and targets\<close>

datatype cli_error =
    OptionError option_error
  | BadService string
  | CliStore store_error
  | TokenDiffers string
  | CliToken pairing_error
  | TokenOfPeer peer_id
  | TokenOfPort u16
  | TargetRequiredError
  | BadTargetAddress
  | BadTargetPeer
  | CliLock lock_error
  | CliIdentity identity_error
  | CliKey
  | NilHint
  | CliNode node_error

definition parseService :: "string \<Rightarrow> cli_error + u16" where
  "parseService text =
     (case ParseUint16 text of
        None \<Rightarrow> Inl (BadService text)
      | Some v \<Rightarrow> if v = 0 then Inl (BadService text) else Inr (of_nat v))"

text \<open>
  \<open>loadToken\<close>. The sources are collected in a map by label; \<open>order\<close> is the order in which Go
  iterates over it.
\<close>

fun select_token :: "string \<Rightarrow> (string \<times> string) list \<Rightarrow> cli_error + string" where
  "select_token selected [] = Inr selected"
| "select_token selected ((label, value) # sources) =
     (if selected \<noteq> [] \<and> selected \<noteq> value then Inl (TokenDiffers label) else select_token value sources)"

definition token_sources :: "os_faults \<Rightarrow> fs \<Rightarrow> string \<Rightarrow> options \<Rightarrow> cli_error + (string \<times> string) list" where
  "token_sources ft fs env opts =
     (let flag = (let v = TrimSpace (op_pairingToken opts) in if v \<noteq> [] then [(''--pairing-token'', v)] else []);
          env' = (let v = TrimSpace env in if v \<noteq> [] then [(''P2P_NETCAT_TOKEN'', v)] else []);
          path = TrimSpace (op_pairingTokenFile opts)
      in if path = [] then Inr (flag @ env')
         else case readPairingTokenFile ft fs path of
                Inl e \<Rightarrow> Inl (CliStore e)
              | Inr data \<Rightarrow> Inr (flag @ [(''--pairing-token-file'', TrimSpace data)] @ env'))"

definition loadToken ::
  "libp2p \<Rightarrow> cbor \<Rightarrow> os_faults \<Rightarrow> go_time \<Rightarrow> fs \<Rightarrow> string \<Rightarrow> ((string \<times> string) list \<Rightarrow> (string \<times> string) list) \<Rightarrow> options \<Rightarrow>
     cli_error + Token option" where
  "loadToken lp cb ft now fs env order opts =
     (case token_sources ft fs env opts of Inl e \<Rightarrow> Inl e | Inr sources \<Rightarrow>
      if sources = [] then Inr None
      else case select_token [] (order sources) of Inl e \<Rightarrow> Inl e | Inr selected \<Rightarrow>
        (case Decode lp cb selected of Inl e \<Rightarrow> Inl (CliToken e) | Inr token \<Rightarrow>
         (case Validate lp (Some token) now of Some e \<Rightarrow> Inl (CliToken e) | None \<Rightarrow> Inr (Some token))))"

definition validateTokenFor :: "libp2p \<Rightarrow> go_time \<Rightarrow> Token \<Rightarrow> peer_id \<Rightarrow> u16 \<Rightarrow> cli_error option" where
  "validateTokenFor lp now token expected service =
     (if tok_PeerID token \<noteq> expected then Some (TokenOfPeer (tok_PeerID token))
      else if tok_Service token \<noteq> service then Some (TokenOfPort (tok_Service token))
      else map_option CliToken (Validate lp (Some token) now))"

definition peerIDFromTarget :: "libp2p \<Rightarrow> string \<Rightarrow> cli_error + peer_id" where
  "peerIDFromTarget lp target =
     (if \<not> HasPrefix target ''/'' then
        (case peer_Decode lp target of None \<Rightarrow> Inl BadTargetPeer | Some p \<Rightarrow> Inr p)
      else case NewMultiaddr lp target of None \<Rightarrow> Inl BadTargetAddress | Some address \<Rightarrow>
        (case AddrInfoFromP2pAddr lp address of None \<Rightarrow> Inl BadTargetPeer | Some info \<Rightarrow> Inr (fst info)))"

text \<open>A hint that is nil makes \<open>String\<close> panic: the value None.\<close>

definition relayStrings :: "libp2p \<Rightarrow> Token \<Rightarrow> string list option" where
  "relayStrings lp token = those (map (map_option (ma_String lp)) (tok_RelayHints token))"

definition minDuration :: "duration \<Rightarrow> duration \<Rightarrow> duration" where
  "minDuration left right = (if left < right then left else right)"

definition nodeConfig :: "options \<Rightarrow> bytes \<Rightarrow> bool \<Rightarrow> bool \<Rightarrow> bool \<Rightarrow> bool \<Rightarrow> node_config" where
  "nodeConfig opts privateKey listen dhtServer relayServer privateDiscovery =
     (let ipVersion = (if op_ipv4 opts then 4 else if op_ipv6 opts then 6 else 0);
          enableDHT = (\<not> op_noDHT opts \<and> \<not> op_tor opts);
          bootstrap = (if enableDHT then op_bootstrap opts else [])
      in \<lparr>nc_PrivateKey = Some privateKey, nc_TransportPort = op_transportPort opts, nc_WebsocketPort = 0, nc_IPVersion = ipVersion,
          nc_Announce = op_announce opts, nc_Relays = op_relays opts, nc_Bootstrap = bootstrap, nc_EnableDHT = enableDHT,
          nc_EnableMDNS = (\<not> op_noMDNS opts \<and> \<not> op_tor opts), nc_EnablePubSub = (\<not> op_noPubsub opts \<and> \<not> op_tor opts),
          nc_PubSubDiscover = (\<not> privateDiscovery), nc_PubSubInterval = 0, nc_EnableQUIC = (\<not> op_noQUIC opts \<and> \<not> op_tor opts),
          nc_EnableWebRTC = (\<not> op_noWebRTC opts \<and> \<not> op_tor opts), nc_Listen = listen, nc_DHTServer = dhtServer,
          nc_RelayServer = relayServer, nc_Verbose = op_verbose opts, nc_UpstreamSOCKS = op_upstreamSOCKS opts\<rparr>)"

section \<open>What validation ensures\<close>

lemma if_Some_None: "(if c then Some e else x) = None \<longleftrightarrow> \<not> c \<and> x = None"
  by simp

lemma validateOptionsD:
  assumes "validateOptions ic pc env opts args = None"
  shows "\<not> (op_port opts < 0 \<or> 65535 < op_port opts \<or> pc \<and> op_port opts = 0)" and "\<not> (op_udp opts \<and> op_port opts = 0)"
    and "\<not> (op_udp opts \<and> (op_socks opts \<or> op_interactive opts \<or> op_zero opts \<or> op_exec opts \<noteq> [] \<or> op_quitDelay opts \<noteq> 0))"
    and "\<not> (op_exec opts \<noteq> [] \<and> (op_port opts \<noteq> 0 \<or> op_destination opts \<noteq> [] \<or> op_socks opts))"
    and "\<not> (op_destination opts \<noteq> [] \<and> (\<not> op_listen opts \<or> op_port opts = 0))"
    and "\<not> (op_socks opts \<and> (op_destination opts \<noteq> [] \<or> op_port opts \<noteq> 0))"
    and "\<not> (op_interactive opts \<and> (op_exec opts \<noteq> [] \<or> op_socks opts \<or> op_port opts \<noteq> 0 \<or> op_destination opts \<noteq> []))"
    and "\<not> (op_quitDelay opts \<noteq> 0 \<and> (op_port opts \<noteq> 0 \<or> op_socks opts \<or> op_interactive opts \<or> op_zero opts \<or> op_exec opts \<noteq> []))"
    and "\<not> (op_listen opts \<and> privilegedListenerMode opts \<and> \<not> pairingTokenConfigured env opts \<and> \<not> op_allowUnauthenticatedListener opts)"
proof -
  note c = assms [unfolded validateOptions_def if_Some_None]
  show "\<not> (op_port opts < 0 \<or> 65535 < op_port opts \<or> pc \<and> op_port opts = 0)" using c by (elim conjE) assumption
  show "\<not> (op_udp opts \<and> op_port opts = 0)" using c by (elim conjE) assumption
  show "\<not> (op_udp opts \<and> (op_socks opts \<or> op_interactive opts \<or> op_zero opts \<or> op_exec opts \<noteq> [] \<or> op_quitDelay opts \<noteq> 0))" using c by (elim conjE) assumption
  show "\<not> (op_exec opts \<noteq> [] \<and> (op_port opts \<noteq> 0 \<or> op_destination opts \<noteq> [] \<or> op_socks opts))" using c by (elim conjE) assumption
  show "\<not> (op_destination opts \<noteq> [] \<and> (\<not> op_listen opts \<or> op_port opts = 0))" using c by (elim conjE) assumption
  show "\<not> (op_socks opts \<and> (op_destination opts \<noteq> [] \<or> op_port opts \<noteq> 0))" using c by (elim conjE) assumption
  show "\<not> (op_interactive opts \<and> (op_exec opts \<noteq> [] \<or> op_socks opts \<or> op_port opts \<noteq> 0 \<or> op_destination opts \<noteq> []))" using c by (elim conjE) assumption
  show "\<not> (op_quitDelay opts \<noteq> 0 \<and> (op_port opts \<noteq> 0 \<or> op_socks opts \<or> op_interactive opts \<or> op_zero opts \<or> op_exec opts \<noteq> []))" using c by (elim conjE) assumption
  show "\<not> (op_listen opts \<and> privilegedListenerMode opts \<and> \<not> pairingTokenConfigured env opts \<and> \<not> op_allowUnauthenticatedListener opts)" using c by (elim conjE) assumption
qed

lemma validateOptions_privileged:
  assumes "validateOptions ic pc env opts args = None" and "op_listen opts" and "privilegedListenerMode opts"
  shows "pairingTokenConfigured env opts \<or> op_allowUnauthenticatedListener opts"
  using validateOptionsD(9) [OF assms(1)] assms(2,3) by blast

section \<open>The token\<close>

lemma token_sources_configured:
  "token_sources ft fs env opts = Inr sources \<Longrightarrow> pairingTokenConfigured env opts \<Longrightarrow> sources \<noteq> []"
  by (auto simp: token_sources_def pairingTokenConfigured_def Let_def split: if_splits sum.splits)

lemma loadToken_configured:
  assumes "loadToken lp cb ft now fs env order opts = Inr token" and "pairingTokenConfigured env opts"
  shows "\<exists>t. token = Some t \<and> Validate lp (Some t) now = None"
proof (cases "token_sources ft fs env opts")
  case (Inr sources)
  then have "sources \<noteq> []" using token_sources_configured assms(2) by blast
  with assms(1) Inr show ?thesis by (auto simp: loadToken_def split: sum.splits option.splits)
qed (use assms(1) in \<open>simp add: loadToken_def\<close>)

lemma select_token_same: "(\<forall>(l, v)\<in>set sources. v = x) \<Longrightarrow> x \<noteq> [] \<Longrightarrow> select_token x sources = Inr x"
  by (induction sources) auto

lemma select_token_spec:
  assumes "\<forall>(l, v)\<in>set sources. v \<noteq> []" and "selected \<noteq> []"
  shows "(\<exists>e. select_token selected sources = Inl e) \<longleftrightarrow> (\<exists>(l, v)\<in>set sources. v \<noteq> selected)"
  using assms by (induction selected sources rule: select_token.induct) auto

lemma select_token_agree:
  assumes "\<forall>(l, v)\<in>set sources. v \<noteq> []" and "sources \<noteq> []"
  shows "select_token [] sources = Inr x \<longleftrightarrow> snd ` set sources = {x}"
proof (cases sources)
  case (Cons lv rest)
  obtain l v where lv: "lv = (l, v)" by fastforce
  show ?thesis
  proof (cases "\<forall>(l, u)\<in>set rest. u = v")
    case True
    then have "select_token [] sources = Inr v" using assms(1) select_token_same Cons lv by auto
    moreover have "snd ` set sources = {v}" using True Cons lv by force
    ultimately show ?thesis by auto
  next
    case False
    then have "\<exists>e. select_token v rest = Inl e" using select_token_spec [of rest v] assms(1) Cons lv by auto
    moreover have "snd ` set sources \<noteq> {x}" using False Cons lv by force
    ultimately show ?thesis using Cons lv by auto
  qed
qed (use assms in simp)

lemma loadToken_Inr:
  assumes "token_sources ft fs env opts = Inr sources" and "sources \<noteq> []"
  shows "loadToken lp cb ft now fs env order opts = Inr token \<longleftrightarrow>
    (\<exists>x t. select_token [] (order sources) = Inr x \<and> Decode lp cb x = Inr t \<and> Validate lp (Some t) now = None \<and> token = Some t)"
  using assms by (cases "select_token [] (order sources)") (auto simp: loadToken_def split: sum.split option.split)

text \<open>
  the choice of the token does not depend on how Go iterates over its sources, unless one of
  them is blank. When every source holds text, loading succeeds for one iteration order with
  some token exactly when it does for any other.
\<close>

theorem loadToken_order:
  assumes "token_sources ft fs env opts = Inr sources" and "\<forall>(label, value)\<in>set sources. value \<noteq> []"
    and "mset (order sources) = mset sources" and "mset (order' sources) = mset sources"
  shows "loadToken lp cb ft now fs env order opts = Inr token \<longleftrightarrow> loadToken lp cb ft now fs env order' opts = Inr token"
proof (cases "sources = []")
  case False
  have eq: "set (order sources) = set sources" "set (order' sources) = set sources" using assms(3,4) mset_eq_setD by blast+
  then have ne: "order sources \<noteq> []" "order' sources \<noteq> []" using False by auto
  have nb: "\<forall>(l, v)\<in>set (order sources). v \<noteq> []" "\<forall>(l, v)\<in>set (order' sources). v \<noteq> []" using assms(2) eq by simp_all
  have "select_token [] (order sources) = Inr x \<longleftrightarrow> select_token [] (order' sources) = Inr x" for x
    using select_token_agree [OF nb(1) ne(1)] select_token_agree [OF nb(2) ne(2)] eq by simp
  then show ?thesis by (simp only: loadToken_Inr [OF assms(1) False])
qed (simp add: loadToken_def assms(1))

text \<open>
  a blank token file makes the result depend on the iteration order. With a token in the
  environment and a private token file that holds only white space, the environment's token is
  selected when the file is visited first, and the sources are reported as different when the
  environment is visited first.
\<close>

theorem blank_token_file_order:
  assumes "readPairingTokenFile ft fs (TrimSpace (op_pairingTokenFile opts)) = Inr data" and "TrimSpace data = []"
    and "TrimSpace (op_pairingTokenFile opts) \<noteq> []" and "TrimSpace (op_pairingToken opts) = []" and "TrimSpace env \<noteq> []"
    and "Decode lp cb (TrimSpace env) = Inr t" and "Validate lp (Some t) now = None"
  shows "loadToken lp cb ft now fs env id opts = Inr (Some t) \<and>
    loadToken lp cb ft now fs env rev opts = Inl (TokenDiffers ''--pairing-token-file'')"
  using assms by (simp add: loadToken_def token_sources_def)

section \<open>The proxy\<close>

definition proxy_options :: options where
  "proxy_options =
     \<lparr>op_listen = True, op_keepOpen = True, op_timeout = 60, op_timeoutExplicit = False, op_quitDelay = 0, op_destination = [], op_port = 0,
      op_quiet = False, op_socks = True, op_tor = False, op_upstreamSOCKS = ''127.0.0.1:1080'', op_interactive = False, op_zero = False,
      op_exec = [], op_udp = False, op_udpIdleTimeout = 300, op_transportPort = 0, op_ipv4 = False, op_ipv6 = False, op_identity = [],
      op_relays = [], op_bootstrap = [], op_announce = [], op_noDHT = False, op_noMDNS = False, op_noPubsub = False, op_noQUIC = False,
      op_noWebRTC = False, op_allowUnauthenticatedListener = False, op_allowUnauthenticatedNativeWebRTC = False, op_pairingToken = ''t'',
      op_pairingTokenFile = [], op_bind = ''127.0.0.1'', op_json = False, op_verbose = False\<rparr>"

text \<open>
  native WebRTC ignores the proxy. There are accepted options with an upstream SOCKS proxy for
  which the node is built without WebRTC, so that nothing is dialled around the proxy, and the
  command line still starts native WebRTC next to it.
\<close>

theorem proxy_ignored_by_native_webrtc:
  "\<exists>opts. validateOptions False False [] opts [] = None \<and> op_upstreamSOCKS opts \<noteq> [] \<and>
     \<not> nc_EnableWebRTC (applyUpstreamSOCKSGuard (nodeConfig opts key True True False True)) \<and> nativeWebRTCEnabled opts True"
proof -
  have "validateOptions False False [] proxy_options [] = None" by code_simp
  moreover have "op_upstreamSOCKS proxy_options \<noteq> []" "nativeWebRTCEnabled proxy_options True"
    by (simp_all add: proxy_options_def nativeWebRTCEnabled_def)
  moreover have "\<not> nc_EnableWebRTC (applyUpstreamSOCKSGuard (nodeConfig proxy_options key True True False True))"
    by (simp add: applyUpstreamSOCKSGuard_def nodeConfig_def proxy_options_def)
  ultimately show ?thesis by blast
qed

section \<open>Instances\<close>

definition blank_fs :: fs where
  "blank_fs = [''/blank'' \<mapsto> Regular 0x180 [10]]"

definition blank_options :: options where
  "blank_options = proxy_options\<lparr>op_pairingToken := [], op_pairingTokenFile := ''/blank''\<rparr>"

theorem blank_token_file_order_witness:
  "loadToken sample_libp2p sample_cbor no_faults 0 blank_fs sample_text id blank_options =
     Inr (Some (canonical_token sample_libp2p sample_token)) \<and>
   loadToken sample_libp2p sample_cbor no_faults 0 blank_fs sample_text rev blank_options =
     Inl (TokenDiffers ''--pairing-token-file'')"
proof (rule blank_token_file_order)
  have path: "TrimSpace ''/blank'' = ''/blank''" "TrimSpace [] = []" "TrimSpace [CHR 0x0A] = []" by code_simp+
  have trim: "TrimSpace sample_text = sample_text" unfolding sample_text_def by (rule TrimSpace_token)
  have "readTokenFile no_faults blank_fs ''/blank'' = Inr (bytes_string [10])"
    by (rule readTokenFile_Regular) (simp_all add: blank_fs_def token_file_maximum_def)
  then show "readPairingTokenFile no_faults blank_fs (TrimSpace (op_pairingTokenFile blank_options)) = Inr (bytes_string [10])"
    by (simp add: readPairingTokenFile_def readTokenFile_def blank_options_def path)
  show "TrimSpace (bytes_string [10]) = []" by code_simp
  show "TrimSpace (op_pairingTokenFile blank_options) \<noteq> []" "TrimSpace (op_pairingToken blank_options) = []"
    by (simp_all add: blank_options_def path)
  show "TrimSpace sample_text \<noteq> []" unfolding trim by (simp add: sample_text_def TokenPrefix_def)
  show "Decode sample_libp2p sample_cbor (TrimSpace sample_text) = Inr (canonical_token sample_libp2p sample_token)"
    unfolding trim using sample_token_Decode by (simp add: sample_text_def)
  show "Validate sample_libp2p (Some (canonical_token sample_libp2p sample_token)) 0 = None"
    by (rule Validate_canonical [OF sample_token_valid])
qed

end
