(* ===== verification/Cli_Listener.thy ===== *)
theory Cli_Listener
  imports Cli_Options Admission
begin

text \<open>
  The single-tunnel listener: \<open>runListener\<close> and \<open>runServerSession\<close> of \<open>src/internal/cli/root.go\<close>.
  \<open>start_listener\<close> is the part before the first stream: token, logical port, port lock, identity and
  node, with the deferred release of the lock on every error. The streams are a step relation:
  each incoming stream is handled by its own goroutine, which takes the mutex twice, and the
  steps of different streams interleave in any order.
\<close>

section \<open>Set-up\<close>

record cli_env =
  ce_lp :: libp2p
  ce_cb :: cbor
  ce_host :: os_host
  ce_ft :: os_faults
  ce_lc :: lock_calls
  ce_keys :: key_files
  ce_other :: "nat \<Rightarrow> fs \<Rightarrow> fs"
  ce_now :: go_time
  ce_token :: string
  ce_order :: "(string \<times> string) list \<Rightarrow> (string \<times> string) list"
  ce_IDFromPrivateKey :: "bytes \<Rightarrow> peer_id option"
  ce_swarm :: swarm
  ce_webrtc :: bool

record listener =
  li_opts :: options
  li_token :: "Token option"
  li_service :: u16
  li_lock :: Lock
  li_node :: node
  li_protocol :: string
  li_native :: bool

definition listener_service :: "Token option \<Rightarrow> string list \<Rightarrow> cli_error + u16" where
  "listener_service token args =
     (if length args = 1 then parseService (hd args)
      else Inr (case token of Some t \<Rightarrow> tok_Service t | None \<Rightarrow> DefaultService))"

definition with_token :: "libp2p \<Rightarrow> go_time \<Rightarrow> Token option \<Rightarrow> peer_id \<Rightarrow> u16 \<Rightarrow> options \<Rightarrow> cli_error + options" where
  "with_token lp now token peerID service opts =
     (case token of None \<Rightarrow> Inr opts | Some t \<Rightarrow>
      (case validateTokenFor lp now t peerID service of Some e \<Rightarrow> Inl e | None \<Rightarrow>
       if op_relays opts = [] then
         (case relayStrings lp t of None \<Rightarrow> Inl NilHint | Some relays \<Rightarrow> Inr (opts\<lparr>op_relays := relays\<rparr>))
       else Inr opts))"

definition listener_node :: "cli_env \<Rightarrow> fs \<Rightarrow> options \<Rightarrow> Token option \<Rightarrow> u16 \<Rightarrow> (fs \<times> (cli_error + options \<times> node)) option" where
  "listener_node env fs opts token service =
     (let (fs1, identityPath) =
            (if op_identity opts = [] then DefaultPath (ce_host env) (ce_ft env) fs else (fs, op_identity opts))
      in case LoadOrCreate (ce_host env) (ce_keys env) (ce_ft env) (ce_other env) 0 fs1 identityPath of
           None \<Rightarrow> None
         | Some (fs2, Inl e) \<Rightarrow> Some (fs2, Inl (CliIdentity e))
         | Some (fs2, Inr privateKey) \<Rightarrow>
             Some (fs2,
               case ce_IDFromPrivateKey env privateKey of None \<Rightarrow> Inl CliKey | Some peerID \<Rightarrow>
               (case with_token (ce_lp env) (ce_now env) token peerID service opts of Inl e \<Rightarrow> Inl e | Inr opts' \<Rightarrow>
                (case node_New (ce_lp env) (ce_swarm env) peerID (nodeConfig opts' privateKey True True False (token \<noteq> None)) of
                   (n, Some e) \<Rightarrow> Inl (CliNode e)
                 | (n, None) \<Rightarrow> Inr (opts', the n)))))"

definition start_listener :: "cli_env \<Rightarrow> lock_world \<Rightarrow> fs \<Rightarrow> options \<Rightarrow> string list \<Rightarrow> (lock_world \<times> fs \<times> (cli_error + listener)) option" where
  "start_listener env w fs opts args =
     (case loadToken (ce_lp env) (ce_cb env) (ce_ft env) (ce_now env) fs (ce_token env) (ce_order env) opts of
        Inl e \<Rightarrow> Some (w, fs, Inl e)
      | Inr token \<Rightarrow>
     (case listener_service token args of Inl e \<Rightarrow> Some (w, fs, Inl e) | Inr service \<Rightarrow>
     (case Acquire (ce_host env) (ce_lc env) w service of
        (w1, Inl e) \<Rightarrow> Some (w1, fs, Inl (CliLock e))
      | (w1, Inr portLock) \<Rightarrow>
     (case listener_node env fs opts token service of
        None \<Rightarrow> None
      | Some (fs1, Inl e) \<Rightarrow> Some (lock_Close w1 (Some portLock), fs1, Inl e)
      | Some (fs1, Inr (opts', n)) \<Rightarrow>
          Some (w1, fs1, Inr \<lparr>li_opts = opts', li_token = token, li_service = service, li_lock = portLock, li_node = n,
            li_protocol = (if op_udp opts then DatagramProtocolForService service else ProtocolForService service),
            li_native = (nativeWebRTCEnabled opts (token \<noteq> None) \<and> ce_webrtc env)\<rparr>)))))"

section \<open>Sessions\<close>

datatype cli_session =
    SUDPForward string int duration duration
  | SPTYServer bool
  | SSOCKS duration
  | STCPForward string int duration
  | SExec string bool
  | SBridge duration duration

definition cli_runServerSession :: "options \<Rightarrow> cli_session" where
  "cli_runServerSession opts =
     (let timeout = op_timeout opts * Second;
          host = (if op_destination opts = [] then ''127.0.0.1'' else op_destination opts)
      in if op_udp opts then SUDPForward host (op_port opts) timeout (op_udpIdleTimeout opts * Second)
         else if op_interactive opts then SPTYServer (op_verbose opts)
         else if op_socks opts then SSOCKS timeout
         else if op_port opts \<noteq> 0 then STCPForward host (op_port opts) timeout
         else if op_exec opts \<noteq> [] then SExec (op_exec opts) (op_verbose opts)
         else SBridge (op_quitDelay opts * Second) (if op_timeoutExplicit opts then timeout else 0))"


section \<open>Streams\<close>

text \<open>
  A stream is being authenticated, runs its session, or is done: reset or closed after its
  session. \<open>ac_sessions\<close> lists the streams that got a session, latest first, \<open>ac_passed\<close> those that
  passed authentication, and \<open>ac_result\<close> is the buffered result channel.
\<close>

datatype stream_stage = Authenticating | InSession | Reset | Finished

record accept_state =
  ac_accepted :: bool
  ac_stage :: "nat \<rightharpoonup> stream_stage"
  ac_sessions :: "nat list"
  ac_passed :: "nat list"
  ac_result :: "bool option"

definition accept_initial :: accept_state where
  "accept_initial = \<lparr>ac_accepted = False, ac_stage = Map.empty, ac_sessions = [], ac_passed = [], ac_result = None\<rparr>"

text \<open>\<open>handleStream\<close> up to the start of the goroutine.\<close>

definition handle_arrival :: "bool \<Rightarrow> bool \<Rightarrow> nat \<Rightarrow> accept_state \<Rightarrow> accept_state" where
  "handle_arrival persistent tokenless s a =
     (if ac_accepted a \<and> \<not> persistent \<and> tokenless then a\<lparr>ac_stage := (ac_stage a)(s \<mapsto> Reset)\<rparr>
      else if tokenless then a\<lparr>ac_accepted := True, ac_stage := (ac_stage a)(s \<mapsto> InSession), ac_sessions := s # ac_sessions a\<rparr>
      else a\<lparr>ac_stage := (ac_stage a)(s \<mapsto> Authenticating)\<rparr>)"

text \<open>What the goroutine does with the outcome of \<open>AuthenticateServer\<close>.\<close>

definition handle_authenticated :: "bool \<Rightarrow> nat \<Rightarrow> bool \<Rightarrow> accept_state \<Rightarrow> accept_state" where
  "handle_authenticated persistent s ok a =
     (if \<not> ok then a\<lparr>ac_stage := (ac_stage a)(s \<mapsto> Reset)\<rparr>
      else let a1 = a\<lparr>ac_passed := s # ac_passed a\<rparr>
           in if ac_accepted a1 \<and> \<not> persistent then a1\<lparr>ac_stage := (ac_stage a1)(s \<mapsto> Reset)\<rparr>
              else a1\<lparr>ac_accepted := True, ac_stage := (ac_stage a1)(s \<mapsto> InSession), ac_sessions := s # ac_sessions a1\<rparr>)"

text \<open>The end of a session, with an error or without.\<close>

definition handle_finished :: "bool \<Rightarrow> nat \<Rightarrow> bool \<Rightarrow> accept_state \<Rightarrow> accept_state" where
  "handle_finished persistent s ok a =
     (let a1 = a\<lparr>ac_stage := (ac_stage a)(s \<mapsto> Finished)\<rparr>
      in if persistent \<or> ac_result a1 \<noteq> None then a1 else a1\<lparr>ac_result := Some ok\<rparr>)"

inductive accept_step :: "bool \<Rightarrow> bool \<Rightarrow> accept_state \<Rightarrow> accept_state \<Rightarrow> bool" for persistent tokenless where
  as_arrival: "ac_stage a s = None \<Longrightarrow> accept_step persistent tokenless a (handle_arrival persistent tokenless s a)"
| as_authenticated: "ac_stage a s = Some Authenticating \<Longrightarrow> accept_step persistent tokenless a (handle_authenticated persistent s ok a)"
| as_finished: "ac_stage a s = Some InSession \<Longrightarrow> accept_step persistent tokenless a (handle_finished persistent s ok a)"

inductive_cases accept_stepE: "accept_step persistent tokenless a a'"

definition accept_inv :: "bool \<Rightarrow> bool \<Rightarrow> accept_state \<Rightarrow> bool" where
  "accept_inv persistent tokenless a \<longleftrightarrow>
     (ac_accepted a \<longleftrightarrow> ac_sessions a \<noteq> []) \<and> (\<not> persistent \<longrightarrow> length (ac_sessions a) \<le> 1) \<and>
     distinct (ac_sessions a) \<and> (\<not> tokenless \<longrightarrow> set (ac_sessions a) \<subseteq> set (ac_passed a)) \<and>
     (\<forall>s. s \<in> set (ac_sessions a) \<longrightarrow> ac_stage a s \<in> {Some InSession, Some Finished}) \<and>
     (\<forall>s. ac_stage a s \<in> {Some InSession, Some Finished} \<longrightarrow> s \<in> set (ac_sessions a)) \<and>
     (\<forall>s. ac_stage a s = Some Authenticating \<longrightarrow> \<not> tokenless) \<and>
     (\<forall>s. ac_stage a s = Some Finished \<longrightarrow> \<not> persistent \<longrightarrow> ac_result a \<noteq> None) \<and>
     (ac_result a \<noteq> None \<longrightarrow> (\<exists>s\<in>set (ac_sessions a). ac_stage a s = Some Finished))"

lemma accept_invD:
  assumes "accept_inv persistent tokenless a"
  shows "ac_accepted a \<longleftrightarrow> ac_sessions a \<noteq> []" and "\<not> persistent \<Longrightarrow> length (ac_sessions a) \<le> 1" and "distinct (ac_sessions a)"
    and "\<not> tokenless \<Longrightarrow> set (ac_sessions a) \<subseteq> set (ac_passed a)"
    and "s \<in> set (ac_sessions a) \<Longrightarrow> ac_stage a s \<in> {Some InSession, Some Finished}"
    and "ac_stage a s \<in> {Some InSession, Some Finished} \<Longrightarrow> s \<in> set (ac_sessions a)"
    and "ac_stage a s = Some Authenticating \<Longrightarrow> \<not> tokenless"
    and "ac_stage a s = Some Finished \<Longrightarrow> \<not> persistent \<Longrightarrow> ac_result a \<noteq> None"
    and "ac_result a \<noteq> None \<Longrightarrow> \<exists>s\<in>set (ac_sessions a). ac_stage a s = Some Finished"
  using assms unfolding accept_inv_def by blast+

lemma accept_invI:
  assumes "ac_accepted a \<longleftrightarrow> ac_sessions a \<noteq> []" and "\<not> persistent \<Longrightarrow> length (ac_sessions a) \<le> 1" and "distinct (ac_sessions a)"
    and "\<not> tokenless \<Longrightarrow> set (ac_sessions a) \<subseteq> set (ac_passed a)"
    and "\<And>s. s \<in> set (ac_sessions a) \<Longrightarrow> ac_stage a s = Some InSession \<or> ac_stage a s = Some Finished"
    and "\<And>s. ac_stage a s = Some InSession \<or> ac_stage a s = Some Finished \<Longrightarrow> s \<in> set (ac_sessions a)"
    and "\<And>s. ac_stage a s = Some Authenticating \<Longrightarrow> \<not> tokenless"
    and "\<And>s. ac_stage a s = Some Finished \<Longrightarrow> \<not> persistent \<Longrightarrow> ac_result a \<noteq> None"
    and "ac_result a \<noteq> None \<Longrightarrow> \<exists>s\<in>set (ac_sessions a). ac_stage a s = Some Finished"
  shows "accept_inv persistent tokenless a"
  using assms unfolding accept_inv_def by blast

text \<open>The three ways a step changes the state: a stream without a session changes its stage, a stream gets a session, a
  session ends.\<close>

lemma accept_inv_stage:
  assumes inv: "accept_inv persistent tokenless a" and "ac_stage a s \<noteq> Some InSession" and "ac_stage a s \<noteq> Some Finished"
    and v: "v = Reset \<or> v = Authenticating \<and> \<not> tokenless"
  shows "accept_inv persistent tokenless (a\<lparr>ac_stage := (ac_stage a)(s \<mapsto> v)\<rparr>)"
proof -
  note D = accept_invD [OF inv]
  have "s \<notin> set (ac_sessions a)" using D(5) [of s] assms(2,3) by blast
  moreover have "v \<noteq> InSession" "v \<noteq> Finished" using v by auto
  ultimately show ?thesis
  proof (intro accept_invI, goal_cases)
    case 1 then show ?case using D(1) by simp
  next case 2 then show ?case using D(2) by simp
  next case 3 then show ?case using D(3) by simp
  next case 4 then show ?case using D(4) by simp
  next case (5 t) then show ?case using D(5) [of t] by auto
  next case (6 t) then show ?case using D(6) [of t] by (auto split: if_splits)
  next case (7 t) then show ?case using D(7) [of t] v by (auto split: if_splits)
  next case (8 t) then show ?case using D(8) [of t] by (simp split: if_splits)
  next case 9 then show ?case using D(9) by auto
  qed
qed

lemma accept_inv_session:
  assumes inv: "accept_inv persistent tokenless a" and "ac_stage a s \<noteq> Some InSession" and "ac_stage a s \<noteq> Some Finished"
    and "persistent \<or> \<not> ac_accepted a" and "\<not> tokenless \<Longrightarrow> s \<in> set (ac_passed a)"
  shows "accept_inv persistent tokenless
    (a\<lparr>ac_accepted := True, ac_stage := (ac_stage a)(s \<mapsto> InSession), ac_sessions := s # ac_sessions a\<rparr>)"
proof -
  note D = accept_invD [OF inv]
  have new: "s \<notin> set (ac_sessions a)" using D(5) [of s] assms(2,3) by blast
  show ?thesis
  proof (intro accept_invI, goal_cases)
    case 2 then show ?case using D(1) assms(4) by simp
  next case 3 then show ?case using D(3) new by simp
  next case 4 then show ?case using D(4) assms(5) by simp
  next case (5 t) then show ?case using D(5) [of t] by auto
  next case (6 t) then show ?case using D(6) [of t] by (auto split: if_splits)
  next case (7 t) then show ?case using D(7) [of t] by (simp split: if_splits)
  next case (8 t) then show ?case using D(8) [of t] by (simp split: if_splits)
  next case 9 then show ?case using D(9) new by auto
  qed simp
qed

lemma accept_inv_finish:
  assumes inv: "accept_inv persistent tokenless a" and "ac_stage a s = Some InSession" and "persistent \<or> r \<noteq> None"
    and "r \<noteq> None \<or> r = ac_result a"
  shows "accept_inv persistent tokenless (a\<lparr>ac_stage := (ac_stage a)(s \<mapsto> Finished), ac_result := r\<rparr>)"
proof -
  note D = accept_invD [OF inv]
  have mem: "s \<in> set (ac_sessions a)" using D(6) [of s] assms(2) by blast
  show ?thesis
  proof (intro accept_invI, goal_cases)
    case 1 then show ?case using D(1) by simp
  next case 2 then show ?case using D(2) by simp
  next case 3 then show ?case using D(3) by simp
  next case 4 then show ?case using D(4) by simp
  next case (5 t) then show ?case using D(5) [of t] by auto
  next case (6 t) then show ?case using D(6) [of t] mem by (auto split: if_splits)
  next case (7 t) then show ?case using D(7) [of t] by (simp split: if_splits)
  next case (8 t) then show ?case using assms(3) by simp
  next case 9 then show ?case using mem by auto
  qed
qed

lemma accept_inv_passed:
  assumes inv: "accept_inv persistent tokenless a"
  shows "accept_inv persistent tokenless (a\<lparr>ac_passed := s # ac_passed a\<rparr>)"
proof -
  have "set (ac_sessions a) \<subseteq> set (ac_passed a) \<Longrightarrow> set (ac_sessions a) \<subseteq> set (s # ac_passed a)" by auto
  then show ?thesis using inv unfolding accept_inv_def by (simp del: set_simps)
qed

lemma accept_inv_step:
  assumes "accept_step persistent tokenless a a'" and "accept_inv persistent tokenless a"
  shows "accept_inv persistent tokenless a'"
  using assms
proof (induction rule: accept_step.induct)
  case (as_arrival a s)
  have stage: "ac_stage a s \<noteq> Some InSession" "ac_stage a s \<noteq> Some Finished" using as_arrival.hyps by simp_all
  consider "ac_accepted a \<and> \<not> persistent \<and> tokenless" | "\<not> (ac_accepted a \<and> \<not> persistent)" "tokenless" | "\<not> tokenless" by blast
  then show ?case
  proof cases
    case 1
    then have e: "handle_arrival persistent tokenless s a = a\<lparr>ac_stage := (ac_stage a)(s \<mapsto> Reset)\<rparr>" unfolding handle_arrival_def by simp
    show ?thesis unfolding e by (rule accept_inv_stage [OF as_arrival.prems stage]) simp
  next
    case 2
    then have e: "handle_arrival persistent tokenless s a =
      a\<lparr>ac_accepted := True, ac_stage := (ac_stage a)(s \<mapsto> InSession), ac_sessions := s # ac_sessions a\<rparr>"
      unfolding handle_arrival_def by auto
    show ?thesis unfolding e by (rule accept_inv_session [OF as_arrival.prems stage]) (use 2 in auto)
  next
    case 3
    then have e: "handle_arrival persistent tokenless s a = a\<lparr>ac_stage := (ac_stage a)(s \<mapsto> Authenticating)\<rparr>"
      unfolding handle_arrival_def by simp
    show ?thesis unfolding e by (rule accept_inv_stage [OF as_arrival.prems stage]) (use 3 in simp)
  qed
next
  case (as_authenticated a s ok)
  let ?a = "a\<lparr>ac_passed := s # ac_passed a\<rparr>"
  note inv = accept_inv_passed [OF as_authenticated.prems, of s]
  have stage: "ac_stage a s \<noteq> Some InSession" "ac_stage a s \<noteq> Some Finished" using as_authenticated.hyps by simp_all
  consider "\<not> ok" | "ok" "ac_accepted a \<and> \<not> persistent" | "ok" "\<not> (ac_accepted a \<and> \<not> persistent)" by blast
  then show ?case
  proof cases
    case 1
    then have e: "handle_authenticated persistent s ok a = a\<lparr>ac_stage := (ac_stage a)(s \<mapsto> Reset)\<rparr>" by (simp add: handle_authenticated_def)
    show ?thesis unfolding e by (rule accept_inv_stage [OF as_authenticated.prems stage]) simp
  next
    case 2
    then have e: "handle_authenticated persistent s ok a = ?a\<lparr>ac_stage := (ac_stage ?a)(s \<mapsto> Reset)\<rparr>"
      unfolding handle_authenticated_def Let_def by simp
    show ?thesis unfolding e by (rule accept_inv_stage [OF inv]) (use stage in simp_all)
  next
    case 3
    then have e: "handle_authenticated persistent s ok a =
      ?a\<lparr>ac_accepted := True, ac_stage := (ac_stage ?a)(s \<mapsto> InSession), ac_sessions := s # ac_sessions ?a\<rparr>"
      unfolding handle_authenticated_def Let_def by auto
    show ?thesis unfolding e by (rule accept_inv_session [OF inv]) (use stage 3 in auto)
  qed
next
  case (as_finished a s ok)
  let ?r = "if persistent \<or> ac_result a \<noteq> None then ac_result a else Some ok"
  have e: "handle_finished persistent s ok a = a\<lparr>ac_stage := (ac_stage a)(s \<mapsto> Finished), ac_result := ?r\<rparr>"
    unfolding handle_finished_def Let_def by simp
  show ?case unfolding e by (rule accept_inv_finish [OF as_finished.prems as_finished.hyps]) auto
qed

interpretation accept_system: invariant_system "accept_step persistent tokenless" "\<lambda>a. a = accept_initial" "accept_inv persistent tokenless"
  for persistent tokenless
proof
  show "accept_inv persistent tokenless a" if "a = accept_initial" for a
    unfolding that accept_inv_def accept_initial_def by simp
qed (rule accept_inv_step)

section \<open>What the listener ensures\<close>

text \<open>
  C15: a one-shot listener runs one session. However the streams, their authentications and the
  ends of sessions interleave, a listener that is not persistent starts at most one session,
  and returns its result once that session has ended; a listener with a pairing token starts
  sessions only for streams that passed authentication.
\<close>

theorem one_shot_listener:
  assumes "(accept_step persistent tokenless)\<^sup>*\<^sup>* accept_initial a"
  shows "(persistent \<or> length (ac_sessions a) \<le> 1) \<and> (tokenless \<or> set (ac_sessions a) \<subseteq> set (ac_passed a)) \<and>
    (persistent \<or> (ac_result a = None \<longleftrightarrow> (\<forall>s\<in>set (ac_sessions a). ac_stage a s = Some InSession)))"
proof -
  have inv: "accept_inv persistent tokenless a" by (rule accept_system.reachable_inv [OF refl assms])
  note D = accept_invD [OF inv]
  have "ac_result a = None \<longleftrightarrow> (\<forall>s\<in>set (ac_sessions a). ac_stage a s = Some InSession)" if "\<not> persistent"
  proof
    assume "ac_result a = None"
    then show "\<forall>s\<in>set (ac_sessions a). ac_stage a s = Some InSession" using D(5,8) that by blast
  next
    assume all: "\<forall>s\<in>set (ac_sessions a). ac_stage a s = Some InSession"
    show "ac_result a = None"
    proof (rule ccontr)
      assume "ac_result a \<noteq> None"
      then obtain s where "s \<in> set (ac_sessions a)" "ac_stage a s = Some Finished" using D(9) by blast
      with all show False by auto
    qed
  qed
  then show ?thesis using D(2,4) by blast
qed


lemma with_token_opts: "with_token lp now token peerID service opts = Inr opts' \<Longrightarrow> opts' = opts\<lparr>op_relays := op_relays opts'\<rparr>"
  by (cases token) (auto simp: with_token_def split: if_splits option.splits)


lemma start_listenerD:
  assumes "start_listener env w fs opts args = Some (w', fs', Inr li)"
  obtains token where "loadToken (ce_lp env) (ce_cb env) (ce_ft env) (ce_now env) fs (ce_token env) (ce_order env) opts = Inr token"
    and "li_token li = token" and "Acquire (ce_host env) (ce_lc env) w (li_service li) = (w', Inr (li_lock li))"
    and "listener_node env fs opts token (li_service li) = Some (fs', Inr (li_opts li, li_node li))"
  using assms by (auto simp: start_listener_def split: prod.splits option.splits sum.splits)


text \<open>
  the port lock follows the listener. A listener that starts holds exactly its logical port in
  addition to what the process held, and one that does not start leaves the held ports as they were.
\<close>

theorem listener_lock_released:
  assumes "lock_wf w" and "start_listener env w fs opts args = Some (w', fs', r)"
  shows "held_ports (ce_host env) w' =
    (case r of Inl e \<Rightarrow> held_ports (ce_host env) w | Inr li \<Rightarrow> insert (li_service li) (held_ports (ce_host env) w))"
proof (cases r)
  case (Inr li)
  then obtain l where "Acquire (ce_host env) (ce_lc env) w (li_service li) = (w', Inr l)"
    using start_listenerD [of env w fs opts args w' fs' li] assms(2) by metis
  then show ?thesis using ll.acquire_held [OF assms(1)] Inr by auto
next
  case (Inl e)
  have "w' = w \<or> (\<exists>s w1 l. Acquire (ce_host env) (ce_lc env) w s = (w1, Inr l) \<and> w' = lock_Close w1 (Some l))"
    using assms(2) Inl Acquire_fails [of "ce_host env" "ce_lc env" w]
    by (auto simp: start_listener_def split: prod.splits option.splits sum.splits) blast
  then show ?thesis using ll.acquire_release(1) [OF assms(1)] Inl by auto
qed

text \<open>
  no session flag is ignored. For accepted options the dispatch of the server session does not
  depend on the order of its cases: each of the flags for UDP, a shell, a proxy, a TCP port and a
  command, when given, alone decides the session, with a port between 1 and 65535; without any of
  them the session is the raw bridge.
\<close>

theorem flags_decide_session:
  assumes "validateOptions ic pc env opts args = None"
  shows "(case cli_runServerSession opts of
       SUDPForward host port timeout idle \<Rightarrow> op_udp opts \<and> 1 \<le> port \<and> port \<le> 65535
     | SPTYServer v \<Rightarrow> op_interactive opts
     | SSOCKS timeout \<Rightarrow> op_socks opts
     | STCPForward host port timeout \<Rightarrow> \<not> op_udp opts \<and> 1 \<le> port \<and> port \<le> 65535
     | SExec command v \<Rightarrow> command = op_exec opts \<and> command \<noteq> []
     | SBridge delay inactivity \<Rightarrow> \<not> privilegedListenerMode opts) \<and>
    length (filter id [op_udp opts, op_interactive opts, op_socks opts, op_port opts \<noteq> 0 \<and> \<not> op_udp opts, op_exec opts \<noteq> []]) \<le> 1 \<and>
    (op_quitDelay opts \<noteq> 0 \<longrightarrow> \<not> privilegedListenerMode opts)"
proof -
  note D = validateOptionsD [OF assms]
  have port: "0 \<le> op_port opts" "op_port opts \<le> 65535" using D(1) by auto
  show ?thesis
    using port D(2-8) unfolding cli_runServerSession_def privilegedListenerMode_def Let_def
    by (cases "op_udp opts"; cases "op_interactive opts"; cases "op_socks opts"; cases "op_port opts = 0"; cases "op_exec opts = []") simp_all
qed

section \<open>Instances\<close>

lemma sample_accept:
  "(accept_step False True)\<^sup>*\<^sup>* accept_initial (handle_arrival False True 1 (handle_arrival False True 0 accept_initial))"
proof -
  have "accept_step False True accept_initial (handle_arrival False True 0 accept_initial)"
    by (rule as_arrival) (simp add: accept_initial_def)
  moreover have "accept_step False True (handle_arrival False True 0 accept_initial)
      (handle_arrival False True 1 (handle_arrival False True 0 accept_initial))"
    by (rule as_arrival) (simp add: accept_initial_def handle_arrival_def)
  ultimately show ?thesis by (meson converse_rtranclp_into_rtranclp r_into_rtranclp)
qed

theorem one_shot_listener_witness:
  "let a = handle_arrival False True 1 (handle_arrival False True 0 accept_initial)
   in length (ac_sessions a) = 1 \<and> ac_stage a 1 = Some Reset \<and> ac_result a = None"
  using one_shot_listener [OF sample_accept] by (simp add: Let_def handle_arrival_def accept_initial_def)

definition listener_options :: options where
  "listener_options = proxy_options\<lparr>op_upstreamSOCKS := [], op_identity := ''/id'', op_relays := [''/r''], op_pairingToken := sample_text\<rparr>"

definition listener_env :: cli_env where
  "listener_env =
     \<lparr>ce_lp = sample_libp2p, ce_cb = sample_cbor, ce_host = sample_host, ce_ft = no_faults, ce_lc = sample_lock_calls,
      ce_keys = sample_key_files, ce_other = quiet, ce_now = 0, ce_token = [], ce_order = id,
      ce_IDFromPrivateKey = \<lambda>key. Some ''peer'', ce_swarm = sample_swarm, ce_webrtc = True\<rparr>"

lemma listener_sample_token:
  "loadToken sample_libp2p sample_cbor no_faults 0 fs [] id listener_options = Inr (Some (canonical_token sample_libp2p sample_token))"
proof -
  have trim: "TrimSpace sample_text = sample_text" "TrimSpace [] = []" unfolding sample_text_def by (rule TrimSpace_token) code_simp
  have "sample_text \<noteq> []" by (simp add: sample_text_def TokenPrefix_def)
  then show ?thesis
    using sample_token_Decode Validate_canonical [OF sample_token_valid]
    by (simp add: loadToken_def token_sources_def listener_options_def proxy_options_def trim) (simp add: sample_text_def)
qed

lemma listener_sample_node:
  "\<exists>fs' n. listener_node listener_env sample_fs listener_options (Some (canonical_token sample_libp2p sample_token)) 22 =
     Some (fs', Inr (listener_options, n))"
proof -
  obtain fs' where id: "LoadOrCreate sample_host sample_key_files no_faults quiet 0 sample_fs ''/id'' = Some (fs', Inr [1, 2, 3])"
    using sample_identity by blast
  have wt: "with_token sample_libp2p 0 (Some (canonical_token sample_libp2p sample_token)) ''peer'' 22 listener_options = Inr listener_options"
    using Validate_canonical [OF sample_token_valid]
    by (simp add: with_token_def validateTokenFor_def listener_options_def) (simp add: canonical_token_def sample_token_def)
  have "\<exists>n. node_New sample_libp2p sample_swarm ''peer'' (nodeConfig listener_options [1, 2, 3] True True False True) = (Some n, None)"
    by (simp add: node_New_def node_options_def nodeConfig_def listener_options_def proxy_options_def applyUpstreamSOCKSGuard_def
        sample_libp2p_def sample_swarm_def TrimSuffix_def HasSuffix_def fail_or_def start_dht_def start_mdns_def start_pubsub_def
        bootstrapPeers_def Let_def)
  with id wt show ?thesis
    by (auto simp: listener_node_def listener_env_def listener_options_def [THEN arg_cong [where f = op_identity]] proxy_options_def)
qed

lemma listener_sample_start:
  "\<exists>w fs' li. start_listener listener_env sample_locks sample_fs listener_options [] = Some (w, fs', Inr li) \<and> li_service li = 22 \<and>
     li_opts li = listener_options \<and> li_token li = Some (canonical_token sample_libp2p sample_token)"
proof -
  obtain fs' n where N: "listener_node listener_env sample_fs listener_options (Some (canonical_token sample_libp2p sample_token)) 22 =
      Some (fs', Inr (listener_options, n))" using listener_sample_node by blast
  have S: "listener_service (Some (canonical_token sample_libp2p sample_token)) [] = Inr 22"
    by (simp add: listener_service_def canonical_token_def sample_token_def)
  obtain w l where A: "Acquire sample_host sample_lock_calls sample_locks 22 = (w, Inr l)"
    using sample_Acquire [of 22 sample_locks] by (simp add: sample_locks_def)
  have L: "loadToken (ce_lp listener_env) (ce_cb listener_env) (ce_ft listener_env) (ce_now listener_env) sample_fs (ce_token listener_env)
      (ce_order listener_env) listener_options = Inr (Some (canonical_token sample_libp2p sample_token))"
    using listener_sample_token by (simp add: listener_env_def)
  have A': "Acquire (ce_host listener_env) (ce_lc listener_env) sample_locks 22 = (w, Inr l)" using A by (simp add: listener_env_def)
  show ?thesis unfolding start_listener_def L A' N S sum.case prod.case option.case by (intro exI conjI) (rule refl | simp)+
qed

lemma listener_sample_valid:
  "validateOptions False False (ce_token listener_env) listener_options [] = None"
proof -
  have "TrimSpace sample_text = sample_text" unfolding sample_text_def by (rule TrimSpace_token)
  moreover have "sample_text \<noteq> []" by (simp add: sample_text_def TokenPrefix_def)
  ultimately have "pairingTokenConfigured [] listener_options"
    by (simp add: pairingTokenConfigured_def listener_options_def)
  then have conf: "pairingTokenConfigured (ce_token listener_env) listener_options" by (simp add: listener_env_def)
  show ?thesis unfolding validateOptions_def if_Some_None
    by (intro conjI) (simp_all add: conf, simp_all add: listener_options_def proxy_options_def)
qed


theorem listener_lock_released_witness:
  "\<exists>w fs' li. start_listener listener_env sample_locks sample_fs listener_options [] = Some (w, fs', Inr li) \<and>
     held_ports sample_host w = {22}"
proof -
  obtain w fs' li where S: "start_listener listener_env sample_locks sample_fs listener_options [] = Some (w, fs', Inr li)" "li_service li = 22"
    using listener_sample_start by blast
  have "lock_wf sample_locks" by (simp add: lock_wf_def sample_locks_def)
  note H = listener_lock_released [OF this S(1)]
  have "held_ports sample_host sample_locks = {}" by (simp add: held_ports_def sample_locks_def sample_lockDirectory)
  with H S show ?thesis by (auto simp: listener_env_def)
qed

theorem flags_decide_session_witness: "cli_runServerSession listener_options = SSOCKS (60 * Second) \<and> op_socks listener_options"
  using flags_decide_session [OF listener_sample_valid]
  by (simp add: cli_runServerSession_def listener_options_def proxy_options_def Let_def)

end
