(* ===== verification/Cli_Tokens.thy ===== *)
theory Cli_Tokens
  imports Cli_Listener
begin



datatype command_error =
    CommandCli cli_error
  | CommandIdentity identity_error
  | CommandKey
  | EncryptToRequired
  | RelayHint string
  | ExpiryNotPositive
  | CommandToken pairing_error
  | CommandStore store_error
  | CommandTokenFile tokenfile_error
  | OutputRequired

section \<open>Commands\<close>

definition command_identity :: "cli_env \<Rightarrow> fs \<Rightarrow> string \<Rightarrow> (fs \<times> (command_error + peer_id)) option" where
  "command_identity env fs path =
     (let (fs1, path) = (if path = [] then DefaultPath (ce_host env) (ce_ft env) fs else (fs, path))
      in case LoadOrCreate (ce_host env) (ce_keys env) (ce_ft env) (ce_other env) 0 fs1 path of
           None \<Rightarrow> None
         | Some (fs2, Inl e) \<Rightarrow> Some (fs2, Inl (CommandIdentity e))
         | Some (fs2, Inr key) \<Rightarrow>
             Some (fs2, case ce_IDFromPrivateKey env key of None \<Rightarrow> Inl CommandKey | Some peerID \<Rightarrow> Inr peerID))"

definition id_command :: "cli_env \<Rightarrow> fs \<Rightarrow> string \<Rightarrow> (fs \<times> (command_error + string)) option" where
  "id_command env fs path =
     (case command_identity env fs path of
        None \<Rightarrow> None
      | Some (fs', Inl e) \<Rightarrow> Some (fs', Inl e)
      | Some (fs', Inr peerID) \<Rightarrow> Some (fs', Inr (peer_String (ce_lp env) peerID)))"






section \<open>From the token command to a loaded token\<close>












section \<open>An instance\<close>








end
