(* ===== verification/Tunnel_Config.thy ===== *)
theory Tunnel_Config
  imports Go_Net
begin

text \<open>
  \<open>src/internal/tunnelconfig/config.go\<close>: the configuration of the multi-tunnel daemon and its
  validation. Types, modes and protocols are strings in Go and in the model, because a file may
  hold any text there. The YAML decoder is a parameter of \<open>Parse\<close>.
\<close>

definition TunnelForward :: string where "TunnelForward = ''forward''"
definition TunnelSOCKS :: string where "TunnelSOCKS = ''socks''"
definition TunnelPTY :: string where "TunnelPTY = ''pty''"
definition TunnelExec :: string where "TunnelExec = ''exec''"
definition ModeServer :: string where "ModeServer = ''server''"
definition ModeClient :: string where "ModeClient = ''client''"
definition ProtocolTCP :: string where "ProtocolTCP = ''tcp''"
definition ProtocolUDP :: string where "ProtocolUDP = ''udp''"

lemmas tunnel_names = TunnelForward_def TunnelSOCKS_def TunnelPTY_def TunnelExec_def ModeServer_def ModeClient_def
  ProtocolTCP_def ProtocolUDP_def

record Relay =
  rl_Addr :: string
  rl_Priority :: int

record Tunnel =
  tn_Name :: string
  tn_Type :: string
  tn_Mode :: string
  tn_LogicalPort :: u16
  tn_Protocol :: string
  tn_Target :: string
  tn_Listen :: string
  tn_Peer :: string
  tn_Exec :: string
  tn_TokenFile :: string
  tn_AllowUnauthenticated :: bool

record Config =
  cf_Identity :: string
  cf_Relays :: "Relay list"
  cf_FallbackToPublicDHT :: "bool option"
  cf_UpstreamSOCKS :: string
  cf_Tunnels :: "Tunnel list"

datatype tunnel_error =
    TypeRequired
  | UnknownType string
  | ModeRequired
  | UnknownMode string
  | PortRange
  | ServerOnly string
  | PeerRequired
  | ProtocolInvalid
  | TargetRequired
  | TargetAddress addr_error
  | TargetPort string
  | ListenRequired
  | ListenAddress addr_error
  | ListenPort string
  | ExecRequired
  | TokenRequired string

datatype config_error =
    ConfigYAML
  | NoTunnels
  | UpstreamAddress addr_error
  | RelayAddress nat
  | TunnelInvalid nat string tunnel_error
  | NameRequired nat
  | NameDuplicate nat string nat
  | PortDuplicate nat string u16 string

definition FallbackEnabled :: "Config \<Rightarrow> bool" where
  "FallbackEnabled c = (case cf_FallbackToPublicDHT c of None \<Rightarrow> True | Some b \<Rightarrow> b)"

definition validPort :: "string \<Rightarrow> bool" where
  "validPort text = (case Atoi text of None \<Rightarrow> False | Some v \<Rightarrow> 1 \<le> v \<and> v \<le> 65535)"

definition orIndex :: "string \<Rightarrow> nat \<Rightarrow> string" where
  "orIndex name i = (if name = [] then ''#'' @ show_nat i else name)"

definition validate_endpoint ::
  "tunnel_error \<Rightarrow> (addr_error \<Rightarrow> tunnel_error) \<Rightarrow> (string \<Rightarrow> tunnel_error) \<Rightarrow> string \<Rightarrow> tunnel_error option" where
  "validate_endpoint required address badPort hostport =
     (if TrimSpace hostport = [] then Some required
      else case SplitHostPort hostport of
             Inl e \<Rightarrow> Some (address e)
           | Inr (host, port) \<Rightarrow> if \<not> validPort port then Some (badPort port) else None)"

definition validate_type :: "Tunnel \<Rightarrow> tunnel_error option" where
  "validate_type t =
     (if tn_Type t = TunnelForward then
        (if tn_Protocol t \<noteq> ProtocolTCP \<and> tn_Protocol t \<noteq> ProtocolUDP then Some ProtocolInvalid
         else if tn_Mode t = ModeServer then validate_endpoint TargetRequired TargetAddress TargetPort (tn_Target t)
         else validate_endpoint ListenRequired ListenAddress ListenPort (tn_Listen t))
      else if tn_Type t = TunnelExec then
        (if TrimSpace (tn_Exec t) = [] then Some ExecRequired else None)
      else None)"

definition validate_token :: "Tunnel \<Rightarrow> tunnel_error option" where
  "validate_token t =
     (if tn_Mode t = ModeServer \<and> tn_Type t \<noteq> TunnelForward \<and> \<not> tn_AllowUnauthenticated t \<and> TrimSpace (tn_TokenFile t) = []
      then Some (TokenRequired (tn_Type t)) else None)"

definition tunnel_validate :: "Tunnel \<Rightarrow> tunnel_error option" where
  "tunnel_validate t =
     (if tn_Type t = [] then Some TypeRequired
      else if tn_Type t \<notin> {TunnelForward, TunnelSOCKS, TunnelPTY, TunnelExec} then Some (UnknownType (tn_Type t))
      else if tn_Mode t = [] then Some ModeRequired
      else if tn_Mode t \<notin> {ModeServer, ModeClient} then Some (UnknownMode (tn_Mode t))
      else if tn_LogicalPort t = 0 then Some PortRange
      else if tn_Mode t = ModeClient \<and> tn_Type t \<in> {TunnelSOCKS, TunnelPTY, TunnelExec} then Some (ServerOnly (tn_Type t))
      else if tn_Mode t = ModeClient \<and> TrimSpace (tn_Peer t) = [] then Some PeerRequired
      else case validate_type t of Some e \<Rightarrow> Some e | None \<Rightarrow> validate_token t)"

fun validate_relays :: "nat \<Rightarrow> Relay list \<Rightarrow> config_error option" where
  "validate_relays i [] = None"
| "validate_relays i (r # rs) =
     (if TrimSpace (rl_Addr r) = [] then Some (RelayAddress i) else validate_relays (Suc i) rs)"

fun validate_tunnels :: "nat \<Rightarrow> (string \<rightharpoonup> nat) \<Rightarrow> (u16 \<rightharpoonup> string) \<Rightarrow> Tunnel list \<Rightarrow> config_error option" where
  "validate_tunnels i names serverPorts [] = None"
| "validate_tunnels i names serverPorts (t # ts) =
     (case tunnel_validate t of Some e \<Rightarrow> Some (TunnelInvalid i (orIndex (tn_Name t) i) e) | None \<Rightarrow>
      if tn_Name t = [] then Some (NameRequired i)
      else case names (tn_Name t) of Some prev \<Rightarrow> Some (NameDuplicate i (tn_Name t) prev) | None \<Rightarrow>
        let names' = names(tn_Name t \<mapsto> i)
        in if tn_Mode t = ModeServer then
             (case serverPorts (tn_LogicalPort t) of
                Some prev \<Rightarrow> Some (PortDuplicate i (tn_Name t) (tn_LogicalPort t) prev)
              | None \<Rightarrow> validate_tunnels (Suc i) names' (serverPorts(tn_LogicalPort t \<mapsto> tn_Name t)) ts)
           else validate_tunnels (Suc i) names' serverPorts ts)"

definition config_Validate :: "Config \<Rightarrow> config_error option" where
  "config_Validate c =
     (if cf_Tunnels c = [] then Some NoTunnels
      else case (if cf_UpstreamSOCKS c \<noteq> [] then SplitHostPort (cf_UpstreamSOCKS c) else Inr ([], [])) of
             Inl e \<Rightarrow> Some (UpstreamAddress e)
           | Inr _ \<Rightarrow>
               (case validate_relays 0 (cf_Relays c) of Some e \<Rightarrow> Some e | None \<Rightarrow>
                validate_tunnels 0 Map.empty Map.empty (cf_Tunnels c)))"

definition Parse :: "(bytes \<Rightarrow> Config option) \<Rightarrow> bytes \<Rightarrow> config_error + Config" where
  "Parse yaml_Unmarshal data =
     (case yaml_Unmarshal data of
        None \<Rightarrow> Inl ConfigYAML
      | Some cfg \<Rightarrow> (case config_Validate cfg of Some e \<Rightarrow> Inl e | None \<Rightarrow> Inr cfg))"

section \<open>What a valid configuration is\<close>

definition endpoint_ok :: "string \<Rightarrow> bool" where
  "endpoint_ok s \<longleftrightarrow> TrimSpace s \<noteq> [] \<and> (\<exists>host port. SplitHostPort s = Inr (host, port) \<and> validPort port)"

definition tunnel_ok :: "Tunnel \<Rightarrow> bool" where
  "tunnel_ok t \<longleftrightarrow>
     tn_LogicalPort t \<noteq> 0 \<and>
     (tn_Mode t = ModeServer \<and> tn_Type t \<in> {TunnelForward, TunnelSOCKS, TunnelPTY, TunnelExec} \<or>
      tn_Mode t = ModeClient \<and> tn_Type t = TunnelForward \<and> TrimSpace (tn_Peer t) \<noteq> []) \<and>
     (tn_Type t = TunnelForward \<longrightarrow> tn_Protocol t \<in> {ProtocolTCP, ProtocolUDP} \<and>
        endpoint_ok (if tn_Mode t = ModeServer then tn_Target t else tn_Listen t)) \<and>
     (tn_Type t = TunnelExec \<longrightarrow> TrimSpace (tn_Exec t) \<noteq> []) \<and>
     (tn_Type t \<noteq> TunnelForward \<longrightarrow> tn_AllowUnauthenticated t \<or> TrimSpace (tn_TokenFile t) \<noteq> [])"

definition server_ports :: "Tunnel list \<Rightarrow> u16 list" where
  "server_ports ts = map tn_LogicalPort (filter (\<lambda>t. tn_Mode t = ModeServer) ts)"

definition config_ok :: "Config \<Rightarrow> bool" where
  "config_ok c \<longleftrightarrow>
     cf_Tunnels c \<noteq> [] \<and>
     (cf_UpstreamSOCKS c = [] \<or> (\<exists>h p. SplitHostPort (cf_UpstreamSOCKS c) = Inr (h, p))) \<and>
     list_all (\<lambda>r. TrimSpace (rl_Addr r) \<noteq> []) (cf_Relays c) \<and>
     list_all (\<lambda>t. tunnel_ok t \<and> tn_Name t \<noteq> []) (cf_Tunnels c) \<and>
     distinct (map tn_Name (cf_Tunnels c)) \<and> distinct (server_ports (cf_Tunnels c))"

lemma validate_endpoint_None: "validate_endpoint r a b s = None \<longleftrightarrow> endpoint_ok s"
  by (auto simp: validate_endpoint_def endpoint_ok_def split: sum.split)

lemma tunnel_validate_None: "tunnel_validate t = None \<longleftrightarrow> tunnel_ok t"
proof -
  have modes: "ModeServer \<noteq> ModeClient" "ModeServer \<noteq> []" "ModeClient \<noteq> []" by (simp_all add: tunnel_names)
  have types: "distinct [TunnelForward, TunnelSOCKS, TunnelPTY, TunnelExec, []]" by (simp add: tunnel_names)
  have v: "validate_type t = None \<longleftrightarrow>
      (tn_Type t = TunnelForward \<longrightarrow> tn_Protocol t \<in> {ProtocolTCP, ProtocolUDP} \<and>
         endpoint_ok (if tn_Mode t = ModeServer then tn_Target t else tn_Listen t)) \<and>
      (tn_Type t = TunnelExec \<longrightarrow> TrimSpace (tn_Exec t) \<noteq> [])"
    using types by (simp add: validate_type_def validate_endpoint_None)
  have w: "validate_token t = None \<longleftrightarrow>
      (tn_Mode t = ModeServer \<and> tn_Type t \<noteq> TunnelForward \<longrightarrow> tn_AllowUnauthenticated t \<or> TrimSpace (tn_TokenFile t) \<noteq> [])"
    by (auto simp: validate_token_def)
  have "(case validate_type t of Some e \<Rightarrow> Some e | None \<Rightarrow> validate_token t) = None \<longleftrightarrow> validate_type t = None \<and> validate_token t = None"
    by (simp split: option.split)
  then show ?thesis
    unfolding tunnel_validate_def tunnel_ok_def v w using modes types
    by (cases "tn_Type t = TunnelForward"; cases "tn_Type t = TunnelSOCKS"; cases "tn_Type t = TunnelPTY";
        cases "tn_Type t = TunnelExec"; cases "tn_Mode t = ModeServer"; cases "tn_Mode t = ModeClient")
      simp_all
qed

lemma validate_relays_None: "validate_relays i rs = None \<longleftrightarrow> list_all (\<lambda>r. TrimSpace (rl_Addr r) \<noteq> []) rs"
  by (induction i rs rule: validate_relays.induct) simp_all

lemma validate_tunnels_None:
  "validate_tunnels i names ports ts = None \<longleftrightarrow>
     list_all (\<lambda>t. tunnel_ok t \<and> tn_Name t \<noteq> []) ts \<and> distinct (map tn_Name ts) \<and> distinct (server_ports ts) \<and>
     set (map tn_Name ts) \<inter> dom names = {} \<and> set (server_ports ts) \<inter> dom ports = {}"
proof (induction ts arbitrary: i names ports)
  case Nil
  then show ?case by (simp add: server_ports_def)
next
  case (Cons t ts)
  have sp: "server_ports (t # ts) = (if tn_Mode t = ModeServer then tn_LogicalPort t # server_ports ts else server_ports ts)"
    by (simp add: server_ports_def)
  show ?case
  proof (cases "tunnel_ok t \<and> tn_Name t \<noteq> [] \<and> names (tn_Name t) = None \<and> (tn_Mode t = ModeServer \<longrightarrow> ports (tn_LogicalPort t) = None)")
    case True
    then have "tunnel_validate t = None" by (simp add: tunnel_validate_None)
    with True show ?thesis
      by (cases "tn_Mode t = ModeServer") (simp_all add: sp Cons.IH Let_def del: fun_upd_apply, auto simp del: fun_upd_apply)
  next
    case False
    then have "validate_tunnels i names ports (t # ts) \<noteq> None"
      by (simp add: tunnel_validate_None [symmetric] Let_def split: option.split) auto
    moreover have "\<not> (list_all (\<lambda>t. tunnel_ok t \<and> tn_Name t \<noteq> []) (t # ts) \<and> set (map tn_Name (t # ts)) \<inter> dom names = {} \<and>
        set (server_ports (t # ts)) \<inter> dom ports = {})"
      using False by (auto simp: sp domIff)
    ultimately show ?thesis by blast
  qed
qed

lemma config_Validate_None: "config_Validate c = None \<longleftrightarrow> config_ok c"
  using validate_relays_None [of 0 "cf_Relays c"]
  by (auto simp: config_Validate_def config_ok_def validate_tunnels_None split: sum.split option.split)

text \<open>
  C29: validation accepts exactly the well-formed configurations: some tunnel, distinct non-empty
  names, no logical port served twice, a privileged service only with a token file or the
  explicit opt-out, client tunnels only as forwards with a peer, and well-formed addresses.
\<close>

theorem config_Validate_iff: "config_Validate c = None \<longleftrightarrow> config_ok c"
  by (rule config_Validate_None)

end
