(* ===== verification/Daemon.thy ===== *)
theory Daemon
  imports Token_Store Tunnel_Config Listener_Lock Node Identity Admission "HOL-Library.Multiset"
begin

text \<open>
  \<open>src/internal/daemon\<close>: the supervisor that runs every tunnel of a configuration on one node.
  The state holds the running configuration, the handle of every running tunnel and the
  resources the handles stand for: port locks, stream handlers registered on the host, local
  listeners and initial UDP carriers.

  The order in which Go iterates over a map is a parameter of the operations that do so. What
  dialling a peer and binding a local socket answer is part of \<open>daemon_env\<close>; sessions
  already running when a tunnel stops are not part of the state.
\<close>

definition dialTimeout :: duration where "dialTimeout = 30 * Second"
definition authTimeout :: duration where "authTimeout = 10 * Second"

record tunnelHandle =
  th_lock :: "Lock option"
  th_proto :: string
  th_closer :: "nat option"

record daemon_env =
  de_lp :: libp2p
  de_cb :: cbor
  de_host :: os_host
  de_ft :: os_faults
  de_lc :: lock_calls
  de_now :: go_time
  de_dial :: "Tunnel \<Rightarrow> Token option \<Rightarrow> bool"
  de_listen :: "string \<Rightarrow> int \<Rightarrow> bool"
  de_listen_udp :: "string \<Rightarrow> int \<Rightarrow> bool"
  de_keys :: key_files
  de_other :: "nat \<Rightarrow> fs \<Rightarrow> fs"
  de_node :: "node_config \<Rightarrow> bool"

record daemon =
  dm_cfg :: Config
  dm_handles :: "string \<rightharpoonup> tunnelHandle"
  dm_locks :: lock_world
  dm_handlers :: "string \<rightharpoonup> Tunnel \<times> Token option"
  dm_listeners :: "nat set"
  dm_carriers :: "nat set"
  dm_next :: nat
  dm_advertised :: "Token option list"
  dm_fs :: fs
  dm_nodeOpen :: bool
  dm_cancelled :: bool

datatype daemon_error =
    ConfigRequired
  | ConfigInvalid config_error
  | IdentityPathFailed appdir_error
  | IdentityFailed identity_error
  | DaemonNode
  | TokenFailed store_error
  | AcquirePort lock_error
  | ClientType string
  | ListenSplit addr_error
  | ListenNumber string
  | InitialCarrier
  | ListenFailed
  | TargetSplit addr_error
  | TargetNumber string
  | UnsupportedType string

section \<open>Tunnels\<close>

definition startServer :: "daemon_env \<Rightarrow> daemon \<Rightarrow> Tunnel \<Rightarrow> Token option \<Rightarrow> daemon \<times> (daemon_error + tunnelHandle)" where
  "startServer env d t token =
     (case Acquire (de_host env) (de_lc env) (dm_locks d) (tn_LogicalPort t) of
        (w, Inl e) \<Rightarrow> (d\<lparr>dm_locks := w\<rparr>, Inl (AcquirePort e))
      | (w, Inr lock) \<Rightarrow>
          (let proto = (if tn_Type t = TunnelForward \<and> tn_Protocol t = ProtocolUDP
                        then DatagramProtocolForService (tn_LogicalPort t) else ProtocolForService (tn_LogicalPort t))
           in (d\<lparr>dm_locks := w, dm_handlers := (dm_handlers d)(proto \<mapsto> (t, token)),
                 dm_advertised := dm_advertised d @ [token]\<rparr>,
               Inr \<lparr>th_lock = Some lock, th_proto = proto, th_closer = None\<rparr>)))"

definition startClient :: "daemon_env \<Rightarrow> daemon \<Rightarrow> Tunnel \<Rightarrow> Token option \<Rightarrow> daemon \<times> (daemon_error + tunnelHandle)" where
  "startClient env d t token =
     (if tn_Type t \<noteq> TunnelForward then (d, Inl (ClientType (tn_Type t)))
      else case SplitHostPort (tn_Listen t) of Inl e \<Rightarrow> (d, Inl (ListenSplit e)) | Inr (host, portText) \<Rightarrow>
        (case Atoi portText of None \<Rightarrow> (d, Inl (ListenNumber portText)) | Some port \<Rightarrow>
         if tn_Protocol t = ProtocolUDP then
           (if \<not> de_dial env t token then (d, Inl InitialCarrier)
            else let d1 = d\<lparr>dm_carriers := insert (dm_next d) (dm_carriers d), dm_next := Suc (dm_next d)\<rparr>
                 in if \<not> de_listen_udp env host port
                    then (d1\<lparr>dm_carriers := dm_carriers d1 - {dm_next d}\<rparr>, Inl ListenFailed)
                    else (d1\<lparr>dm_listeners := insert (dm_next d1) (dm_listeners d1), dm_next := Suc (dm_next d1)\<rparr>,
                          Inr \<lparr>th_lock = None, th_proto = [], th_closer = Some (dm_next d1)\<rparr>))
         else if \<not> de_listen env host port then (d, Inl ListenFailed)
         else (d\<lparr>dm_listeners := insert (dm_next d) (dm_listeners d), dm_next := Suc (dm_next d)\<rparr>,
               Inr \<lparr>th_lock = None, th_proto = [], th_closer = Some (dm_next d)\<rparr>)))"

definition start :: "daemon_env \<Rightarrow> daemon \<Rightarrow> Tunnel \<Rightarrow> daemon \<times> (daemon_error + tunnelHandle)" where
  "start env d t =
     (case loadTunnelToken (de_lp env) (de_cb env) (de_host env) (de_ft env) (de_now env) (dm_fs d) (tn_TokenFile t) of
        (fs, Inl e) \<Rightarrow> (d\<lparr>dm_fs := fs\<rparr>, Inl (TokenFailed e))
      | (fs, Inr token) \<Rightarrow>
          if tn_Mode t = ModeServer then startServer env (d\<lparr>dm_fs := fs\<rparr>) t token
          else startClient env (d\<lparr>dm_fs := fs\<rparr>) t token)"

definition stop :: "daemon \<Rightarrow> string \<Rightarrow> daemon" where
  "stop d name =
     (let d1 = d\<lparr>dm_handles := (dm_handles d)(name := None)\<rparr>
      in case dm_handles d name of
           None \<Rightarrow> d1
         | Some handle \<Rightarrow>
             d1\<lparr>dm_handlers := (if th_proto handle \<noteq> [] then (dm_handlers d)(th_proto handle := None) else dm_handlers d),
                dm_listeners := (case th_closer handle of Some c \<Rightarrow> dm_listeners d - {c} | None \<Rightarrow> dm_listeners d),
                dm_locks := lock_Close (dm_locks d) (th_lock handle)\<rparr>)"

definition daemon_Close :: "daemon \<Rightarrow> string list \<Rightarrow> daemon" where
  "daemon_Close d names = (fold (\<lambda>name d. stop d name) names (d\<lparr>dm_cancelled := True\<rparr>))\<lparr>dm_nodeOpen := False\<rparr>"

fun start_all :: "daemon_env \<Rightarrow> daemon \<Rightarrow> Tunnel list \<Rightarrow> daemon \<times> daemon_error option" where
  "start_all env d [] = (d, None)"
| "start_all env d (t # ts) =
     (case start env d t of
        (d1, Inl e) \<Rightarrow> (d1, Some e)
      | (d1, Inr handle) \<Rightarrow> start_all env (d1\<lparr>dm_handles := (dm_handles d1)(tn_Name t \<mapsto> handle)\<rparr>) ts)"

section \<open>Starting, reloading\<close>

text \<open>\<open>relayAddrs\<close>: the two nested loops, on the copied slice.\<close>

fun sink :: "Relay list \<Rightarrow> nat \<Rightarrow> Relay list" where
  "sink rs 0 = rs"
| "sink rs (Suc j) =
     (if rl_Priority (rs ! Suc j) < rl_Priority (rs ! j)
      then sink (rs[Suc j := rs ! j, j := rs ! Suc j]) j else rs)"

definition relayAddrs :: "Relay list \<Rightarrow> string list" where
  "relayAddrs relays = map rl_Addr (fold (\<lambda>i rs. sink rs i) [1..<length relays] relays)"

definition daemon_node_config :: "bytes \<Rightarrow> Config \<Rightarrow> node_config" where
  "daemon_node_config privateKey cfg =
     \<lparr>nc_PrivateKey = Some privateKey, nc_TransportPort = 0, nc_WebsocketPort = 0, nc_IPVersion = 0, nc_Announce = [],
      nc_Relays = relayAddrs (cf_Relays cfg), nc_Bootstrap = [], nc_EnableDHT = True, nc_EnableMDNS = True, nc_EnablePubSub = True,
      nc_PubSubDiscover = FallbackEnabled cfg, nc_PubSubInterval = 0, nc_EnableQUIC = True, nc_EnableWebRTC = True,
      nc_Listen = True, nc_DHTServer = False, nc_RelayServer = False, nc_Verbose = False,
      nc_UpstreamSOCKS = cf_UpstreamSOCKS cfg\<rparr>"

definition daemon_identity :: "daemon_env \<Rightarrow> fs \<Rightarrow> Config \<Rightarrow> (fs \<times> (daemon_error + bytes)) option" where
  "daemon_identity env fs cfg =
     (case ResolvePath (de_host env) (de_ft env) fs (cf_Identity cfg) of
        (fs1, Inl e) \<Rightarrow> Some (fs1, Inl (IdentityPathFailed e))
      | (fs1, Inr p) \<Rightarrow>
          (let (fs2, identityPath) = (if p = [] then DefaultPath (de_host env) (de_ft env) fs1 else (fs1, p))
           in case LoadOrCreate (de_host env) (de_keys env) (de_ft env) (de_other env) 0 fs2 identityPath of
                None \<Rightarrow> None
              | Some (fs3, Inl e) \<Rightarrow> Some (fs3, Inl (IdentityFailed e))
              | Some (fs3, Inr key) \<Rightarrow> Some (fs3, Inr key)))"

text \<open>\<open>names\<close> is the order in which a failed start closes what was started. The value None means
  that loading the identity does not return.\<close>

definition Run :: "daemon_env \<Rightarrow> lock_world \<Rightarrow> fs \<Rightarrow> (daemon \<Rightarrow> string list) \<Rightarrow> Config option \<Rightarrow>
    (daemon option \<times> daemon_error option) option" where
  "Run env w fs names cfg =
     (case cfg of None \<Rightarrow> Some (None, Some ConfigRequired) | Some cfg \<Rightarrow>
      (case config_Validate cfg of Some e \<Rightarrow> Some (None, Some (ConfigInvalid e)) | None \<Rightarrow>
      (case daemon_identity env fs cfg of None \<Rightarrow> None | Some (fs1, Inl e) \<Rightarrow> Some (None, Some e) | Some (fs1, Inr privateKey) \<Rightarrow>
       if \<not> de_node env (daemon_node_config privateKey cfg) then Some (None, Some DaemonNode)
       else let d = \<lparr>dm_cfg = cfg, dm_handles = Map.empty, dm_locks = w, dm_handlers = Map.empty, dm_listeners = {},
                     dm_carriers = {}, dm_next = 0, dm_advertised = [], dm_fs = fs1, dm_nodeOpen = True, dm_cancelled = False\<rparr>
            in case start_all env d (cf_Tunnels cfg) of
                 (d1, Some e) \<Rightarrow> Some (Some (daemon_Close d1 (names d1)), Some e)
               | (d1, None) \<Rightarrow> Some (Some d1, None))))"

definition tunnelsByName :: "Tunnel list \<Rightarrow> (string \<rightharpoonup> Tunnel)" where
  "tunnelsByName tunnels = fold (\<lambda>t byName. byName(tn_Name t \<mapsto> t)) tunnels Map.empty"

fun stop_changed :: "(string \<rightharpoonup> Tunnel) \<Rightarrow> (string \<rightharpoonup> Tunnel) \<Rightarrow> string list \<Rightarrow> daemon \<Rightarrow> daemon" where
  "stop_changed oldByName newByName [] d = d"
| "stop_changed oldByName newByName (name # names) d =
     stop_changed oldByName newByName names
       (if newByName name = None \<or> newByName name \<noteq> oldByName name then stop d name else d)"

fun start_changed :: "daemon_env \<Rightarrow> (string \<rightharpoonup> Tunnel) \<Rightarrow> (string \<rightharpoonup> Tunnel) \<Rightarrow> string list \<Rightarrow> daemon \<Rightarrow> daemon \<times> daemon_error option" where
  "start_changed env oldByName newByName [] d = (d, None)"
| "start_changed env oldByName newByName (name # names) d =
     (if oldByName name \<noteq> None \<and> oldByName name = newByName name
      then start_changed env oldByName newByName names d
      else case start env d (the (newByName name)) of
             (d1, Inl e) \<Rightarrow> (d1, Some e)
           | (d1, Inr handle) \<Rightarrow>
               start_changed env oldByName newByName names (d1\<lparr>dm_handles := (dm_handles d1)(name \<mapsto> handle)\<rparr>))"

definition Reload :: "daemon_env \<Rightarrow> daemon \<Rightarrow> Config option \<Rightarrow> string list \<Rightarrow> string list \<Rightarrow> daemon \<times> daemon_error option" where
  "Reload env d newCfg olds news =
     (case newCfg of None \<Rightarrow> (d, Some ConfigRequired) | Some cfg \<Rightarrow>
      (case config_Validate cfg of Some e \<Rightarrow> (d, Some (ConfigInvalid e)) | None \<Rightarrow>
       (let oldByName = tunnelsByName (cf_Tunnels (dm_cfg d)); newByName = tunnelsByName (cf_Tunnels cfg)
        in case start_changed env oldByName newByName news (stop_changed oldByName newByName olds d) of
             (d1, Some e) \<Rightarrow> (d1, Some e)
           | (d1, None) \<Rightarrow> (d1\<lparr>dm_cfg := cfg\<rparr>, None))))"

section \<open>Incoming streams\<close>

datatype session_call =
    CallUDPForward string int
  | CallTCPForward string int
  | CallSOCKS
  | CallPTY
  | CallExec string

definition protocolLabel :: "Tunnel \<Rightarrow> string" where
  "protocolLabel t = (if tn_Type t = TunnelForward then tn_Protocol t else ''tcp'')"

definition runServerSession :: "Tunnel \<Rightarrow> daemon_error + session_call" where
  "runServerSession t =
     (if tn_Type t = TunnelForward then
        (case SplitHostPort (tn_Target t) of Inl e \<Rightarrow> Inl (TargetSplit e) | Inr (host, portText) \<Rightarrow>
         (let host' = (if host = [] then ''127.0.0.1'' else host)
          in case Atoi portText of None \<Rightarrow> Inl (TargetNumber portText) | Some port \<Rightarrow>
               if tn_Protocol t = ProtocolUDP then Inr (CallUDPForward host' port) else Inr (CallTCPForward host' port)))
      else if tn_Type t = TunnelSOCKS then Inr CallSOCKS
      else if tn_Type t = TunnelPTY then Inr CallPTY
      else if tn_Type t = TunnelExec then Inr (CallExec (tn_Exec t))
      else Inl (UnsupportedType (tn_Type t)))"

datatype stream_outcome =
    NoHandler
  | AuthenticationFailed admission_error
  | SessionStarted stream "daemon_error + session_call"

definition handle_stream ::
  "daemon_env \<Rightarrow> cryptography \<Rightarrow> random_source \<Rightarrow> go_time \<Rightarrow> go_time \<Rightarrow> daemon \<Rightarrow> string \<Rightarrow> stream \<Rightarrow> stream_outcome" where
  "handle_stream env cr rnd now now' d proto s =
     (case dm_handlers d proto of None \<Rightarrow> NoHandler | Some (t, token) \<Rightarrow>
      (case token of
         None \<Rightarrow> SessionStarted s (runServerSession t)
       | Some tok \<Rightarrow>
           (case AuthenticateServer (de_lp env) cr rnd now now' s (Some tok) authTimeout of
              (s', Some e) \<Rightarrow> AuthenticationFailed e
            | (s', None) \<Rightarrow> SessionStarted s' (runServerSession t))))"

section \<open>The order of relays\<close>

lemma sink_spec:
  assumes "sorted (map rl_Priority (as @ bs))" and "\<forall>b\<in>set bs. rl_Priority x \<le> rl_Priority b"
  shows "\<exists>ys. sink (as @ x # bs @ cs) (length as) = ys @ cs \<and> sorted (map rl_Priority ys) \<and> mset ys = mset (as @ x # bs) \<and>
    (\<forall>k. filter (\<lambda>r. rl_Priority r = k) ys = filter (\<lambda>r. rl_Priority r = k) (as @ x # bs))"
  using assms
proof (induction as arbitrary: bs rule: rev_induct)
  case Nil
  then show ?case by auto
next
  case (snoc a as)
  have nth: "((as @ [a]) @ x # bs @ cs) ! Suc (length as) = x" "((as @ [a]) @ x # bs @ cs) ! length as = a"
    by (simp_all add: nth_append)
  have swap: "((as @ [a]) @ x # bs @ cs)[Suc (length as) := a, length as := x] = as @ x # (a # bs) @ cs"
    by (simp add: list_update_append)
  show ?case
  proof (cases "rl_Priority x < rl_Priority a")
    case True
    have "sorted (map rl_Priority (as @ a # bs))" "\<forall>b\<in>set (a # bs). rl_Priority x \<le> rl_Priority b"
      using snoc.prems True by auto
    from snoc.IH [OF this] obtain ys where ys: "sink (as @ x # (a # bs) @ cs) (length as) = ys @ cs" "sorted (map rl_Priority ys)"
        "mset ys = mset (as @ x # a # bs)"
        "\<forall>k. filter (\<lambda>r. rl_Priority r = k) ys = filter (\<lambda>r. rl_Priority r = k) (as @ x # a # bs)" by blast
    have "sink ((as @ [a]) @ x # bs @ cs) (length (as @ [a])) = ys @ cs"
      using True nth swap ys(1) by simp
    moreover have "filter (\<lambda>r. rl_Priority r = k) (as @ x # a # bs) = filter (\<lambda>r. rl_Priority r = k) ((as @ [a]) @ x # bs)" for k
      using True by auto
    ultimately show ?thesis using ys by auto
  next
    case False
    then have "sink ((as @ [a]) @ x # bs @ cs) (length (as @ [a])) = ((as @ [a]) @ x # bs) @ cs" using nth by simp
    moreover have "sorted (map rl_Priority ((as @ [a]) @ x # bs))"
      using snoc.prems False by (auto simp: sorted_append)
    ultimately show ?thesis by blast
  qed
qed

lemma sink_loop:
  assumes "n \<le> length rs"
  shows "\<exists>ys. fold (\<lambda>i rs. sink rs i) [1..<n] rs = ys @ drop n rs \<and> length ys = n \<and> sorted (map rl_Priority ys) \<and> mset ys = mset (take n rs) \<and>
    (\<forall>k. filter (\<lambda>r. rl_Priority r = k) ys = filter (\<lambda>r. rl_Priority r = k) (take n rs))"
  using assms
proof (induction n)
  case (Suc n)
  show ?case
  proof (cases "n = 0")
    case True
    then show ?thesis using Suc.prems by (cases rs) auto
  next
    case False
    obtain ys where ys: "fold (\<lambda>i rs. sink rs i) [1..<n] rs = ys @ drop n rs" "length ys = n" "sorted (map rl_Priority ys)"
      "mset ys = mset (take n rs)" "\<forall>k. filter (\<lambda>r. rl_Priority r = k) ys = filter (\<lambda>r. rl_Priority r = k) (take n rs)"
      using Suc by auto
    have d: "drop n rs = rs ! n # drop (Suc n) rs" and t: "take (Suc n) rs = take n rs @ [rs ! n]"
      using Suc.prems by (simp_all add: Cons_nth_drop_Suc take_Suc_conv_app_nth)
    obtain zs where zs: "sink (ys @ rs ! n # [] @ drop (Suc n) rs) (length ys) = zs @ drop (Suc n) rs" "sorted (map rl_Priority zs)"
      "mset zs = mset (ys @ rs ! n # [])" "\<forall>k. filter (\<lambda>r. rl_Priority r = k) zs = filter (\<lambda>r. rl_Priority r = k) (ys @ rs ! n # [])"
      using sink_spec [of ys "[]" "rs ! n" "drop (Suc n) rs"] ys(3) by auto
    have "[1..<Suc n] = [1..<n] @ [n]" using False by simp
    then have "fold (\<lambda>i rs. sink rs i) [1..<Suc n] rs = zs @ drop (Suc n) rs" using ys(1,2) zs(1) d by simp
    moreover have "mset zs = mset (take (Suc n) rs)" using zs(3) ys(4) t by simp
    moreover have "length zs = Suc n" using zs(3) ys(2) by (metis length_append_singleton size_mset)
    moreover have "\<forall>k. filter (\<lambda>r. rl_Priority r = k) zs = filter (\<lambda>r. rl_Priority r = k) (take (Suc n) rs)"
      using zs(4) ys(5) t by simp
    ultimately show ?thesis using zs(2) by blast
  qed
qed simp

text \<open>
  the two loops that order the relays are a stable sort: relays come in ascending priority,
  and relays of one priority keep the order of the configuration.
\<close>

theorem relayAddrs_stable_sort: "relayAddrs relays = map rl_Addr (sort_key rl_Priority relays)"
proof -
  obtain ys where ys: "fold (\<lambda>i rs. sink rs i) [1..<length relays] relays = ys" "sorted (map rl_Priority ys)" "mset ys = mset relays"
    "\<forall>k. filter (\<lambda>r. rl_Priority r = k) ys = filter (\<lambda>r. rl_Priority r = k) relays"
    using sink_loop [of "length relays" relays] by auto
  have "sort_key rl_Priority relays = ys"
  proof (rule properties_for_sort_key)
    show "mset ys = mset relays" by (rule ys(3))
    show "filter (\<lambda>r. rl_Priority x = rl_Priority r) ys = filter (\<lambda>r. rl_Priority x = rl_Priority r) relays" for x
      using ys(4) [rule_format, of "rl_Priority x"] by (simp add: eq_commute)
  qed (rule ys(2))
  with ys(1) show ?thesis by (simp add: relayAddrs_def)
qed

end
