(* ===== verification/Daemon_Resources.thy ===== *)
theory Daemon_Resources
  imports Daemon
begin

text \<open>
  The resources of a running daemon: an invariant that says that every port lock, stream handler
  and local listener belongs to exactly one running tunnel, and that starting and stopping a
  tunnel keep it. The port locks are used through the laws of \<open>port_locks\<close> only.
\<close>

section \<open>Resources and handles\<close>

text \<open>The values that the entries of a map own, and that no two entries share one.\<close>

definition owned :: "('n \<rightharpoonup> 'h) \<Rightarrow> ('h \<Rightarrow> 'x \<Rightarrow> bool) \<Rightarrow> 'x set" where
  "owned M Q = {x. \<exists>n h. M n = Some h \<and> Q h x}"

definition separate :: "('n \<rightharpoonup> 'h) \<Rightarrow> ('h \<Rightarrow> 'x \<Rightarrow> bool) \<Rightarrow> bool" where
  "separate M Q \<longleftrightarrow> (\<forall>n m h h' x. M n = Some h \<longrightarrow> M m = Some h' \<longrightarrow> Q h x \<longrightarrow> Q h' x \<longrightarrow> n = m)"

lemma separateD: "separate M Q \<Longrightarrow> M n = Some h \<Longrightarrow> M m = Some h' \<Longrightarrow> Q h x \<Longrightarrow> Q h' x \<Longrightarrow> n = m"
  unfolding separate_def by blast

lemma separate_remove: "separate M Q \<Longrightarrow> separate (M(name := None)) Q"
  unfolding separate_def by (simp split: if_splits)

lemma owned_remove:
  assumes "M name = Some th" and "separate M Q"
  shows "owned (M(name := None)) Q = owned M Q - {x. Q th x}"
proof (intro set_eqI iffI)
  fix x assume "x \<in> owned (M(name := None)) Q"
  then obtain n h where h: "n \<noteq> name" "M n = Some h" "Q h x" by (auto simp: owned_def split: if_splits)
  then have "\<not> Q th x" using separateD [OF assms(2) h(2) assms(1) h(3)] by blast
  with h show "x \<in> owned M Q - {x. Q th x}" by (auto simp: owned_def)
next
  fix x assume "x \<in> owned M Q - {x. Q th x}"
  then obtain n h where h: "M n = Some h" "Q h x" "\<not> Q th x" by (auto simp: owned_def)
  then have "n \<noteq> name" using assms(1) by auto
  with h show "x \<in> owned (M(name := None)) Q" by (auto simp: owned_def)
qed

lemma owned_add:
  assumes "M name = None"
  shows "owned (M(name \<mapsto> th)) Q = owned M Q \<union> {x. Q th x}"
proof (intro set_eqI iffI)
  fix x assume "x \<in> owned M Q \<union> {x. Q th x}"
  then consider (old) n h where "M n = Some h" "Q h x" | (new) "Q th x" by (auto simp: owned_def)
  then show "x \<in> owned (M(name \<mapsto> th)) Q"
  proof cases
    case old
    then have "n \<noteq> name" using assms by auto
    with old have "(M(name \<mapsto> th)) n = Some h \<and> Q h x" by simp
    then show ?thesis unfolding owned_def by blast
  next
    case new
    then have "(M(name \<mapsto> th)) name = Some th \<and> Q th x" by simp
    then show ?thesis unfolding owned_def by blast
  qed
qed (auto simp: owned_def split: if_splits)

lemma separate_add:
  assumes "separate M Q" and "\<And>x. Q th x \<Longrightarrow> x \<notin> owned M Q"
  shows "separate (M(name \<mapsto> th)) Q"
  using assms unfolding separate_def owned_def by (simp split: if_splits) blast

definition serves :: "tunnelHandle \<Rightarrow> u16 \<Rightarrow> bool" where
  "serves h s \<longleftrightarrow> th_proto h \<in> {ProtocolForService s, DatagramProtocolForService s}"

definition handles_proto :: "tunnelHandle \<Rightarrow> string \<Rightarrow> bool" where
  "handles_proto h p \<longleftrightarrow> th_proto h = p \<and> p \<noteq> []"

definition listens :: "tunnelHandle \<Rightarrow> nat \<Rightarrow> bool" where
  "listens h c \<longleftrightarrow> th_closer h = Some c"

definition handle_ok :: "os_host \<Rightarrow> lock_world \<Rightarrow> nat \<Rightarrow> tunnelHandle \<Rightarrow> bool" where
  "handle_ok h w next_id th \<longleftrightarrow>
     (\<exists>l s. th_lock th = Some l \<and> th_closer th = None \<and> serves th s \<and> lock_owns h w l s) \<or>
     (\<exists>c. th_lock th = None \<and> th_proto th = [] \<and> th_closer th = Some c \<and> c < next_id)"

text \<open>
  Every running tunnel owns its resources alone, and there are no others: held ports, stream
  handlers and local listeners are exactly those of the handles.
\<close>

definition daemon_inv :: "os_host \<Rightarrow> daemon \<Rightarrow> bool" where
  "daemon_inv h d \<longleftrightarrow>
     lock_wf (dm_locks d) \<and>
     (\<forall>n th. dm_handles d n = Some th \<longrightarrow> handle_ok h (dm_locks d) (dm_next d) th) \<and>
     separate (dm_handles d) serves \<and> separate (dm_handles d) listens \<and>
     held_ports h (dm_locks d) = owned (dm_handles d) serves \<and>
     dom (dm_handlers d) = owned (dm_handles d) handles_proto \<and>
     dm_listeners d = owned (dm_handles d) listens"

lemma daemon_invD:
  assumes "daemon_inv h d"
  shows "lock_wf (dm_locks d)" and "dm_handles d n = Some th \<Longrightarrow> handle_ok h (dm_locks d) (dm_next d) th"
    and "separate (dm_handles d) serves" and "separate (dm_handles d) listens"
    and "held_ports h (dm_locks d) = owned (dm_handles d) serves"
    and "dom (dm_handlers d) = owned (dm_handles d) handles_proto"
    and "dm_listeners d = owned (dm_handles d) listens"
  using assms by (simp_all add: daemon_inv_def)

lemma serves_unique: "serves h s \<Longrightarrow> serves h s' \<Longrightarrow> s = s'"
  by (auto simp: serves_def ProtocolForService_inject dest: sym)

lemma serves_proto: "serves h s \<Longrightarrow> th_proto h \<noteq> []"
  by (auto simp: serves_def ProtocolForService_inject)

lemma client_serves: "th_proto h = [] \<Longrightarrow> \<not> serves h s"
  using serves_proto by blast

lemma separate_protos:
  assumes "daemon_inv h d"
  shows "separate (dm_handles d) handles_proto"
  unfolding separate_def
proof (intro allI impI)
  fix n m th th' p
  assume n: "dm_handles d n = Some th" and m: "dm_handles d m = Some th'" and p: "handles_proto th p" "handles_proto th' p"
  obtain s where "serves th s" using daemon_invD(2) [OF assms n] p by (auto simp: handle_ok_def handles_proto_def)
  moreover from this have "serves th' s" using p by (simp add: serves_def handles_proto_def)
  ultimately show "n = m" using separateD [OF daemon_invD(3) [OF assms] n m] by blast
qed

section \<open>Stopping a tunnel\<close>

lemma stop_fields:
  assumes "dm_handles d name = Some th"
  shows "dm_handles (stop d name) = (dm_handles d)(name := None)"
    and "dm_handlers (stop d name) = (if th_proto th \<noteq> [] then (dm_handlers d)(th_proto th := None) else dm_handlers d)"
    and "dm_listeners (stop d name) = (case th_closer th of Some c \<Rightarrow> dm_listeners d - {c} | None \<Rightarrow> dm_listeners d)"
    and "dm_locks (stop d name) = lock_Close (dm_locks d) (th_lock th)" and "dm_next (stop d name) = dm_next d"
    and "dm_cfg (stop d name) = dm_cfg d"
  by (simp_all add: stop_def Let_def assms)

lemma stop_None: "dm_handles d name = None \<Longrightarrow> stop d name = d"
  by (cases d) (simp add: stop_def Let_def fun_upd_idem)

lemma stop_handles: "dm_handles (stop d name) = (dm_handles d)(name := None)"
  by (simp add: stop_def Let_def split: option.split)

lemma lock_Close_None [simp]: "lock_Close w None = w"
  by (simp add: lock_Close_def)

lemma lock_Close_handles:
  assumes wf: "lock_wf w" and ok: "handle_ok h w k th"
  shows "lock_wf (lock_Close w (th_lock th))"
    and "held_ports h (lock_Close w (th_lock th)) = held_ports h w - {s. serves th s}"
    and "lock_owns h w l' s' \<Longrightarrow> \<not> serves th s' \<Longrightarrow> lock_owns h (lock_Close w (th_lock th)) l' s'"
proof -
  have *: "lock_wf (lock_Close w (th_lock th)) \<and> held_ports h (lock_Close w (th_lock th)) = held_ports h w - {s. serves th s} \<and>
    (lock_owns h w l' s' \<longrightarrow> \<not> serves th s' \<longrightarrow> lock_owns h (lock_Close w (th_lock th)) l' s')"
    using ok unfolding handle_ok_def
  proof (elim disjE exE conjE)
    fix l s assume S: "th_lock th = Some l" "serves th s" "lock_owns h w l s"
    have "{s. serves th s} = {s}" using S(2) serves_unique by blast
    then show ?thesis
      using ll.release_keeps [OF wf S(3), of l' s'] ll.release_held [OF S(3)] S(1,2) by auto
  next
    fix c assume "th_lock th = None" "th_proto th = []"
    then show ?thesis using wf client_serves by auto
  qed
  show "lock_wf (lock_Close w (th_lock th))" "held_ports h (lock_Close w (th_lock th)) = held_ports h w - {s. serves th s}"
    "lock_owns h w l' s' \<Longrightarrow> \<not> serves th s' \<Longrightarrow> lock_owns h (lock_Close w (th_lock th)) l' s'"
    using * by blast+
qed

lemma stop_inv:
  assumes inv: "daemon_inv h d"
  shows "daemon_inv h (stop d name)"
proof (cases "dm_handles d name")
  case None
  then show ?thesis using inv by (simp add: stop_None)
next
  case (Some th)
  note D = daemon_invD [OF inv] and F = stop_fields [OF Some] and L = lock_Close_handles [OF daemon_invD(1,2) [OF inv] , OF Some]
  have "handle_ok h (dm_locks (stop d name)) (dm_next (stop d name)) th'" if "dm_handles (stop d name) n = Some th'" for n th'
  proof -
    have m: "dm_handles d n = Some th'" "n \<noteq> name" using that by (auto simp: F(1) split: if_splits)
    have "\<not> serves th s" if "serves th' s" for s using separateD [OF D(3) m(1) Some that] m(2) by blast
    then show ?thesis using D(2) [OF m(1)] L(3) unfolding handle_ok_def F(4,5) by blast
  qed
  moreover have "held_ports h (dm_locks (stop d name)) = owned (dm_handles (stop d name)) serves"
    unfolding F(1,4) L(2) D(5) by (rule owned_remove [OF Some D(3), symmetric])
  moreover have "dom (dm_handlers (stop d name)) = owned (dm_handles (stop d name)) handles_proto"
  proof -
    have "dom (dm_handlers (stop d name)) = dom (dm_handlers d) - {p. handles_proto th p}"
      by (auto simp: F(2) handles_proto_def)
    then show ?thesis unfolding F(1) D(6) using owned_remove [OF Some separate_protos [OF inv]] by simp
  qed
  moreover have "dm_listeners (stop d name) = owned (dm_handles (stop d name)) listens"
  proof -
    have "dm_listeners (stop d name) = dm_listeners d - {c. listens th c}" by (auto simp: F(3) listens_def split: option.split)
    then show ?thesis unfolding F(1) D(7) using owned_remove [OF Some D(4)] by simp
  qed
  moreover have "separate (dm_handles (stop d name)) serves" "separate (dm_handles (stop d name)) listens"
    unfolding F(1) by (rule separate_remove, rule D)+
  moreover have "lock_wf (dm_locks (stop d name))" unfolding F(4) by (rule L(1))
  ultimately show ?thesis by (simp add: daemon_inv_def)
qed

section \<open>Starting a tunnel\<close>

lemma serves_server:
  "{s. serves \<lparr>th_lock = Some l, th_proto = (if b then DatagramProtocolForService p else ProtocolForService p), th_closer = None\<rparr> s} = {p}"
  by (auto simp: serves_def ProtocolForService_inject dest: sym)

lemma daemon_inv_cong:
  assumes "daemon_inv h d" and "dm_handles d' = dm_handles d" and "dm_locks d' = dm_locks d" and "dm_handlers d' = dm_handlers d"
    and "dm_listeners d' = dm_listeners d" and "dm_next d \<le> dm_next d'"
  shows "daemon_inv h d'"
proof -
  have "handle_ok h (dm_locks d) (dm_next d') th" if "dm_handles d n = Some th" for n th
    using daemon_invD(2) [OF assms(1) that] assms(6) by (auto simp: handle_ok_def)
  then show ?thesis using assms by (simp add: daemon_inv_def)
qed

definition with_handle :: "string \<Rightarrow> tunnelHandle \<Rightarrow> daemon \<Rightarrow> daemon" where
  "with_handle name th d = d\<lparr>dm_handles := (dm_handles d)(name \<mapsto> th)\<rparr>"

lemma server_started_inv:
  assumes inv: "daemon_inv (de_host env) d" and free: "dm_handles d name = None"
    and S: "startServer env d t token = (d1, Inr th)"
  shows "daemon_inv (de_host env) (with_handle name th d1)" and "dm_handles d1 = dm_handles d" and "dm_cfg d1 = dm_cfg d"
proof -
  let ?h = "de_host env"
  define proto where "proto = (if tn_Type t = TunnelForward \<and> tn_Protocol t = ProtocolUDP
    then DatagramProtocolForService (tn_LogicalPort t) else ProtocolForService (tn_LogicalPort t))"
  obtain w lock where A: "Acquire ?h (de_lc env) (dm_locks d) (tn_LogicalPort t) = (w, Inr lock)"
    and th: "th = \<lparr>th_lock = Some lock, th_proto = proto, th_closer = None\<rparr>"
    and d1: "dm_locks d1 = w" "dm_handlers d1 = (dm_handlers d)(proto \<mapsto> (t, token))" "dm_handles d1 = dm_handles d"
      "dm_listeners d1 = dm_listeners d" "dm_next d1 = dm_next d" "dm_cfg d1 = dm_cfg d"
    using S by (auto simp: startServer_def proto_def Let_def split: prod.splits sum.splits)
  note D = daemon_invD [OF inv] and K = ll.acquire_held [OF D(1) A] ll.acquire_owns [OF D(1) A] ll.acquire_keeps [OF D(1) A]
  have sv: "{s. serves th s} = {tn_LogicalPort t}" unfolding th proto_def by (rule serves_server)
  have pr: "{p. handles_proto th p} = {proto}" by (auto simp: th handles_proto_def proto_def ProtocolForService_inject)
  have ls: "{c. listens th c} = {}" by (simp add: th listens_def)
  let ?d = "with_handle name th d1"
  have f: "dm_handles ?d = (dm_handles d)(name \<mapsto> th)" "dm_locks ?d = w" "dm_handlers ?d = (dm_handlers d)(proto \<mapsto> (t, token))"
    "dm_listeners ?d = dm_listeners d" "dm_next ?d = dm_next d" by (simp_all add: with_handle_def d1)
  have "handle_ok ?h w (dm_next d) th'" if "dm_handles ?d n = Some th'" for n th'
  proof (cases "n = name")
    case True
    then have "th' = th" using that by (simp add: f(1))
    moreover have "serves th (tn_LogicalPort t)" using sv by blast
    ultimately show ?thesis using K(2) by (auto simp: handle_ok_def th)
  next
    case False
    then have "handle_ok ?h (dm_locks d) (dm_next d) th'" using D(2) that by (simp add: f(1))
    then show ?thesis using K(3) unfolding handle_ok_def by blast
  qed
  moreover have "separate (dm_handles ?d) serves" unfolding f(1)
    by (rule separate_add [OF D(3)]) (use sv K(1) D(5) in \<open>auto simp: set_eq_iff\<close>)
  moreover have "separate (dm_handles ?d) listens" unfolding f(1)
    by (rule separate_add [OF D(4)]) (use ls in auto)
  moreover have "held_ports ?h w = owned (dm_handles ?d) serves"
    unfolding f(1) owned_add [where Q = serves and M = "dm_handles d" and name = name, OF free] sv using K(1) D(5) by simp
  moreover have "dom (dm_handlers ?d) = owned (dm_handles ?d) handles_proto"
    unfolding f(1,3) owned_add [where Q = handles_proto and M = "dm_handles d" and name = name, OF free] pr using D(6) by simp
  moreover have "dm_listeners ?d = owned (dm_handles ?d) listens"
    unfolding f(1,4) owned_add [where Q = listens and M = "dm_handles d" and name = name, OF free] ls using D(7) by simp
  ultimately show "daemon_inv ?h ?d" using K(3) by (simp add: daemon_inv_def f(2,5))
  show "dm_handles d1 = dm_handles d" "dm_cfg d1 = dm_cfg d" by (rule d1)+
qed

lemma client_started_inv:
  assumes inv: "daemon_inv h d" and free: "dm_handles d name = None"
    and S: "startClient env d t token = (d1, Inr th)"
  shows "daemon_inv h (with_handle name th d1)" and "dm_handles d1 = dm_handles d" and "dm_cfg d1 = dm_cfg d"
proof -
  obtain c where th: "th = \<lparr>th_lock = None, th_proto = [], th_closer = Some c\<rparr>" and c: "dm_next d \<le> c" "c < dm_next d1"
    and d1: "dm_locks d1 = dm_locks d" "dm_handlers d1 = dm_handlers d" "dm_handles d1 = dm_handles d"
      "dm_listeners d1 = insert c (dm_listeners d)" "dm_cfg d1 = dm_cfg d"
    using S by (auto simp: startClient_def Let_def split: if_splits sum.splits option.splits)
  note D = daemon_invD [OF inv]
  have sv: "{s. serves th s} = {}" "{p. handles_proto th p} = {}" and ls: "{c. listens th c} = {c}"
    using client_serves [of th] by (auto simp: th handles_proto_def listens_def)
  have fresh: "c \<notin> owned (dm_handles d) listens"
  proof
    assume "c \<in> owned (dm_handles d) listens"
    then obtain n h' where n: "dm_handles d n = Some h'" "th_closer h' = Some c" by (auto simp: owned_def listens_def)
    then have "c < dm_next d" using D(2) [OF n(1)] by (auto simp: handle_ok_def)
    with c(1) show False by simp
  qed
  let ?d = "with_handle name th d1"
  have f: "dm_handles ?d = (dm_handles d)(name \<mapsto> th)" "dm_locks ?d = dm_locks d" "dm_handlers ?d = dm_handlers d"
    "dm_listeners ?d = insert c (dm_listeners d)" "dm_next ?d = dm_next d1" by (simp_all add: with_handle_def d1)
  have "handle_ok h (dm_locks d) (dm_next d1) th'" if "dm_handles ?d n = Some th'" for n th'
  proof (cases "n = name")
    case True
    then have "th' = th" using that by (simp add: f(1))
    then show ?thesis using c(2) by (simp add: th handle_ok_def)
  next
    case False
    then have "handle_ok h (dm_locks d) (dm_next d) th'" using D(2) that by (simp add: f(1))
    then show ?thesis using c by (auto simp: handle_ok_def)
  qed
  moreover have "separate (dm_handles ?d) serves" unfolding f(1) by (rule separate_add [OF D(3)]) (use sv in auto)
  moreover have "separate (dm_handles ?d) listens" unfolding f(1) by (rule separate_add [OF D(4)]) (use ls fresh in auto)
  moreover have "held_ports h (dm_locks d) = owned (dm_handles ?d) serves"
    unfolding f(1) owned_add [where Q = serves and M = "dm_handles d" and name = name, OF free] sv using D(5) by simp
  moreover have "dom (dm_handlers ?d) = owned (dm_handles ?d) handles_proto"
    unfolding f(1,3) owned_add [where Q = handles_proto and M = "dm_handles d" and name = name, OF free] sv using D(6) by simp
  moreover have "dm_listeners ?d = owned (dm_handles ?d) listens"
    unfolding f(1,4) owned_add [where Q = listens and M = "dm_handles d" and name = name, OF free] ls using D(7) by simp
  ultimately show "daemon_inv h ?d" using D(1) by (simp add: daemon_inv_def f(2,5))
  show "dm_handles d1 = dm_handles d" "dm_cfg d1 = dm_cfg d" by (rule d1)+
qed

lemma start_failed:
  assumes "start env d t = (d1, Inl e)"
  shows "dm_handles d1 = dm_handles d \<and> dm_cfg d1 = dm_cfg d \<and> (daemon_inv h d \<longrightarrow> daemon_inv h d1)"
proof -
  have "dm_handles d1 = dm_handles d" "dm_cfg d1 = dm_cfg d" "dm_locks d1 = dm_locks d" "dm_handlers d1 = dm_handlers d"
    "dm_listeners d1 = dm_listeners d" "dm_next d \<le> dm_next d1"
    using assms
    by (auto simp: start_def startServer_def startClient_def Let_def dest: Acquire_fails
        split: prod.splits sum.splits if_splits option.splits)
  then show ?thesis using daemon_inv_cong by blast
qed

lemma start_started:
  assumes "daemon_inv (de_host env) d" and "dm_handles d name = None" and "start env d t = (d1, Inr th)"
  shows "daemon_inv (de_host env) (with_handle name th d1) \<and> dm_handles d1 = dm_handles d \<and> dm_cfg d1 = dm_cfg d"
proof -
  obtain fs token where L: "loadTunnelToken (de_lp env) (de_cb env) (de_host env) (de_ft env) (de_now env) (dm_fs d) (tn_TokenFile t) =
      (fs, Inr token)" and S: "(if tn_Mode t = ModeServer then startServer env (d\<lparr>dm_fs := fs\<rparr>) t token
          else startClient env (d\<lparr>dm_fs := fs\<rparr>) t token) = (d1, Inr th)"
    using assms(3) by (auto simp: start_def split: prod.splits sum.splits)
  have inv: "daemon_inv (de_host env) (d\<lparr>dm_fs := fs\<rparr>)" by (rule daemon_inv_cong [OF assms(1)]) simp_all
  show ?thesis
    using S server_started_inv [OF inv, of name t token d1 th] client_started_inv [OF inv, of name env t token d1 th] assms(2)
    by (auto split: if_splits)
qed

end
