(* ===== verification/Daemon_Lifecycle.thy ===== *)
theory Daemon_Lifecycle
  imports Daemon_Resources
begin

text \<open>
  The life of a daemon: starting a whole configuration, reloading another one, the sessions it
  starts for incoming streams after any such history, and what a failed reload leaves behind.
\<close>

section \<open>Reloading\<close>

definition unchanged :: "(string \<rightharpoonup> Tunnel) \<Rightarrow> (string \<rightharpoonup> Tunnel) \<Rightarrow> string \<Rightarrow> bool" where
  "unchanged old new name \<longleftrightarrow> old name \<noteq> None \<and> old name = new name"



definition started_from :: "os_host \<Rightarrow> (string \<Rightarrow> bool) \<Rightarrow> string list \<Rightarrow> daemon \<Rightarrow> daemon \<Rightarrow> daemon_error option \<Rightarrow> bool" where
  "started_from h keeps names d d' r \<longleftrightarrow> daemon_inv h d' \<and> dm_cfg d' = dm_cfg d \<and>
     (\<forall>n. keeps n \<or> n \<notin> set names \<longrightarrow> dm_handles d' n = dm_handles d n) \<and>
     (r = None \<longrightarrow> (\<forall>n\<in>set names. keeps n \<or> dm_handles d' n \<noteq> None))"

lemma started_fromD:
  assumes "started_from h keeps names d d' r"
  shows "daemon_inv h d'" and "dm_cfg d' = dm_cfg d" and "keeps n \<or> n \<notin> set names \<Longrightarrow> dm_handles d' n = dm_handles d n"
    and "r = None \<Longrightarrow> n \<in> set names \<Longrightarrow> keeps n \<or> dm_handles d' n \<noteq> None"
  using assms unfolding started_from_def by blast+


lemma started_from_handle:
  assumes "\<not> keeps name" and "name \<notin> set names" and "started_from h keeps names d1 d' r"
    and "dm_handles d1 = (dm_handles d)(name \<mapsto> th)" and "dm_cfg d1 = dm_cfg d"
  shows "started_from h keeps (name # names) d d' r"
proof -
  note D = started_fromD [OF assms(3)]
  have "dm_handles d' name = Some th" using D(3) [of name] assms(2,4) by simp
  moreover have "dm_handles d' n = dm_handles d n" if "keeps n \<or> n \<notin> set (name # names)" for n
  proof -
    have "n \<noteq> name" using that assms(1) by auto
    then show ?thesis using D(3) [of n] that assms(4) by auto
  qed
  ultimately show ?thesis unfolding started_from_def using D(1,2,4) assms(5) by (simp only: set_simps) (metis insertE option.distinct(1))
qed

lemma start_changed_Cons:
  "start_changed env old new (name # names) d =
     (if unchanged old new name then start_changed env old new names d
      else case start env d (the (new name)) of
             (d1, Inl e) \<Rightarrow> (d1, Some e)
           | (d1, Inr th) \<Rightarrow> start_changed env old new names (with_handle name th d1))"
  unfolding start_changed.simps(2) unchanged_def with_handle_def ..

declare start_changed.simps(2) [simp del]


definition tunnel_names_of :: "Config \<Rightarrow> string set" where
  "tunnel_names_of cfg = tn_Name ` set (cf_Tunnels cfg)"

lemma tunnelsByName_map_of: "tunnelsByName ts = map_of (rev (map (\<lambda>t. (tn_Name t, t)) ts))"
proof -
  have "fold (\<lambda>t m. m(tn_Name t \<mapsto> t)) ts m = m ++ map_of (rev (map (\<lambda>t. (tn_Name t, t)) ts))" for m
    by (induction ts arbitrary: m) (simp_all add: map_add_assoc [symmetric])
  then show ?thesis by (simp add: tunnelsByName_def)
qed

lemma tunnelsByName_Some:
  assumes "distinct (map tn_Name ts)"
  shows "tunnelsByName ts n = Some t \<longleftrightarrow> t \<in> set ts \<and> tn_Name t = n"
proof -
  have "distinct (map fst (rev (map (\<lambda>t. (tn_Name t, t)) ts)))" using assms by (simp add: rev_map [symmetric] o_def)
  then show ?thesis unfolding tunnelsByName_map_of by (auto simp: map_of_eq_Some_iff)
qed

lemma tunnelsByName_None: "tunnelsByName ts n = None \<longleftrightarrow> n \<notin> tn_Name ` set ts"
  unfolding tunnelsByName_map_of by (simp add: map_of_eq_None_iff image_image)

definition running :: "daemon \<Rightarrow> bool" where
  "running d \<longleftrightarrow> config_ok (dm_cfg d) \<and> dom (dm_handles d) = tunnel_names_of (dm_cfg d)"



section \<open>Starting and closing the daemon\<close>

lemma started_from_Cons:
  assumes "start env d t = (d1, Inr th)" and "daemon_inv (de_host env) d" and "dm_handles d (tn_Name t) = None"
    and "tn_Name t \<notin> set names"
    and "daemon_inv (de_host env) (with_handle (tn_Name t) th d1) \<Longrightarrow>
      started_from (de_host env) (\<lambda>_. False) names (with_handle (tn_Name t) th d1) d' r"
  shows "started_from (de_host env) (\<lambda>_. False) (tn_Name t # names) d d' r"
proof -
  note st = start_started [OF assms(2,3,1)]
  have "dm_handles (with_handle (tn_Name t) th d1) = (dm_handles d)(tn_Name t \<mapsto> th)" "dm_cfg (with_handle (tn_Name t) th d1) = dm_cfg d"
    using st by (simp_all add: with_handle_def)
  then show ?thesis using started_from_handle [OF _ assms(4) assms(5)] st by blast
qed

lemma start_all_spec:
  assumes "daemon_inv (de_host env) d" and "distinct (map tn_Name ts)" and "\<And>t. t \<in> set ts \<Longrightarrow> dm_handles d (tn_Name t) = None"
    and "start_all env d ts = (d', r)"
  shows "started_from (de_host env) (\<lambda>_. False) (map tn_Name ts) d d' r"
  using assms
proof (induction ts arbitrary: d)
  case Nil
  then show ?case by (simp add: started_from_def)
next
  case (Cons t ts)
  obtain d1 x where s: "start env d t = (d1, x)" by fastforce
  show ?case
  proof (cases x)
    case (Inl e)
    have "d' = d1" "r = Some e" using Cons.prems(4) s Inl by simp_all
    then show ?thesis using start_failed [OF s [unfolded Inl], of "de_host env"] Cons.prems(1) by (simp add: started_from_def)
  next
    case (Inr th)
    have r: "start_all env (with_handle (tn_Name t) th d1) ts = (d', r)" using Cons.prems(4) s Inr by (simp add: with_handle_def)
    have h: "dm_handles (with_handle (tn_Name t) th d1) = (dm_handles d)(tn_Name t \<mapsto> th)"
      using start_started [OF Cons.prems(1) Cons.prems(3) s [unfolded Inr], of t] by (simp add: with_handle_def)
    have free: "dm_handles (with_handle (tn_Name t) th d1) (tn_Name u) = None" if "u \<in> set ts" for u
    proof -
      have "tn_Name u \<noteq> tn_Name t" using Cons.prems(2) image_eqI [OF refl that, of tn_Name] by auto
      then show ?thesis using Cons.prems(3) [of u] that by (simp add: h)
    qed
    have "started_from (de_host env) (\<lambda>_. False) (tn_Name t # map tn_Name ts) d d' r"
    proof (rule started_from_Cons [OF s [unfolded Inr] Cons.prems(1)])
      show "dm_handles d (tn_Name t) = None" by (rule Cons.prems(3)) simp
      show "tn_Name t \<notin> set (map tn_Name ts)" using Cons.prems(2) by simp
      show "started_from (de_host env) (\<lambda>_. False) (map tn_Name ts) (with_handle (tn_Name t) th d1) d' r"
        if "daemon_inv (de_host env) (with_handle (tn_Name t) th d1)"
        by (rule Cons.IH [OF that _ free r]) (use Cons.prems(2) in simp)
    qed
    then show ?thesis by simp
  qed
qed

lemma stop_all_inv: "daemon_inv h d \<Longrightarrow> daemon_inv h (fold (\<lambda>name d. stop d name) names d)"
  by (induction names arbitrary: d) (simp_all add: stop_inv)

lemma stop_all_handles: "dm_handles (fold (\<lambda>name d. stop d name) names d) = dm_handles d |` (- set names)"
  by (induction names arbitrary: d) (auto simp: stop_handles restrict_map_def fun_eq_iff)

lemma daemon_inv_empty:
  assumes "daemon_inv h d" and "dm_handles d = Map.empty"
  shows "dm_handlers d = Map.empty" and "dm_listeners d = {}" and "held_ports h (dm_locks d) = {}"
  using daemon_invD(5-7) [OF assms(1)] assms(2) by (simp_all add: owned_def)

lemma daemon_Close_spec:
  assumes "daemon_inv h d" and "dom (dm_handles d) \<subseteq> set names"
  shows "dm_handles (daemon_Close d names) = Map.empty" and "daemon_inv h (daemon_Close d names)" and "\<not> dm_nodeOpen (daemon_Close d names)"
proof -
  let ?d = "d\<lparr>dm_cancelled := True\<rparr>" and ?e = "fold (\<lambda>name d. stop d name) names (d\<lparr>dm_cancelled := True\<rparr>)"
  have inv: "daemon_inv h ?d" by (rule daemon_inv_cong [OF assms(1)]) simp_all
  show "daemon_inv h (daemon_Close d names)"
    by (rule daemon_inv_cong [OF stop_all_inv [OF inv, of names]]) (simp_all add: daemon_Close_def)
  show "dm_handles (daemon_Close d names) = Map.empty"
    using assms(2) by (auto simp: daemon_Close_def stop_all_handles restrict_map_def fun_eq_iff)
  show "\<not> dm_nodeOpen (daemon_Close d names)" by (simp add: daemon_Close_def)
qed

definition fresh_locks :: "lock_world \<Rightarrow> bool" where
  "fresh_locks w \<longleftrightarrow> lw_paths w = {} \<and> lw_closed w = {}"

lemma daemon_inv_initial:
  assumes "fresh_locks (dm_locks d)" and "dm_handles d = Map.empty" and "dm_handlers d = Map.empty" and "dm_listeners d = {}"
  shows "daemon_inv h d"
  using assms by (simp add: daemon_inv_def owned_def separate_def held_ports_def fresh_locks_def lock_wf_def split: option.split)

lemma RunD:
  assumes "Run env w fs names (Some cfg) = Some (Some d, r)" and "fresh_locks w"
  obtains d0 d1 where "config_ok cfg" and "dm_cfg d0 = cfg" and "dm_nodeOpen d0" and "dm_handles d0 = Map.empty"
    and "dm_handlers d0 = Map.empty" and "daemon_inv (de_host env) d0" and "start_all env d0 (cf_Tunnels cfg) = (d1, r)"
    and "d = (if r = None then d1 else daemon_Close d1 (names d1))"
proof -
  from assms(1) obtain fs1 key where ok: "config_Validate cfg = None" and "daemon_identity env fs cfg = Some (fs1, Inr key)"
    "de_node env (daemon_node_config key cfg)"
    by (auto simp: Run_def Let_def split: option.splits sum.splits if_splits)
  define d0 where "d0 = \<lparr>dm_cfg = cfg, dm_handles = Map.empty, dm_locks = w, dm_handlers = Map.empty, dm_listeners = {},
    dm_carriers = {}, dm_next = 0, dm_advertised = [], dm_fs = fs1, dm_nodeOpen = True, dm_cancelled = False\<rparr>"
  have inv: "daemon_inv (de_host env) d0" by (rule daemon_inv_initial) (simp_all add: d0_def assms(2))
  obtain d1 where "start_all env d0 (cf_Tunnels cfg) = (d1, r)" "d = (if r = None then d1 else daemon_Close d1 (names d1))"
    using assms(1) ok \<open>daemon_identity env fs cfg = _\<close> \<open>de_node env _\<close>
    by (auto simp: Run_def d0_def [symmetric] split: prod.splits option.splits)
  with ok inv show thesis by (intro that) (simp_all add: config_Validate_None d0_def)
qed

lemma start_nodeOpen: "start env d t = (d1, x) \<Longrightarrow> dm_nodeOpen d1 = dm_nodeOpen d"
  by (auto simp: start_def startServer_def startClient_def Let_def split: prod.splits sum.splits if_splits option.splits)

lemma start_all_nodeOpen: "start_all env d ts = (d1, r) \<Longrightarrow> dm_nodeOpen d1 = dm_nodeOpen d"
proof (induction ts arbitrary: d)
  case (Cons t ts)
  then show ?case by (auto split: prod.splits sum.splits dest!: start_nodeOpen)
qed simp

lemma Run_starts:
  assumes "Run env w fs names (Some cfg) = Some (Some d, r)" and "fresh_locks w"
  obtains d1 where "started_from (de_host env) (\<lambda>_. False) (map tn_Name (cf_Tunnels cfg)) (d1\<lparr>dm_handles := Map.empty\<rparr>) d1 r"
    and "config_ok cfg" and "dm_cfg d1 = cfg" and "dm_nodeOpen d1" and "d = (if r = None then d1 else daemon_Close d1 (names d1))"
proof -
  obtain d0 d1 where R: "config_ok cfg" "dm_cfg d0 = cfg" "dm_nodeOpen d0" "dm_handles d0 = Map.empty"
    "daemon_inv (de_host env) d0" "start_all env d0 (cf_Tunnels cfg) = (d1, r)"
    and d: "d = (if r = None then d1 else daemon_Close d1 (names d1))" by (rule RunD [OF assms])
  have "distinct (map tn_Name (cf_Tunnels cfg))" using R(1) by (simp add: config_ok_def)
  then have "started_from (de_host env) (\<lambda>_. False) (map tn_Name (cf_Tunnels cfg)) d0 d1 r"
    by (rule start_all_spec [OF R(5) _ _ R(6)]) (simp add: R(4))
  then show thesis using R d start_all_nodeOpen [OF R(6)] by (intro that [of d1]) (simp_all add: started_from_def)
qed

lemma Run_running:
  assumes "Run env w fs names (Some cfg) = Some (Some d, None)" and "fresh_locks w"
  shows "running d \<and> dm_cfg d = cfg \<and> dm_nodeOpen d \<and> daemon_inv (de_host env) d"
proof -
  obtain d1 where R: "started_from (de_host env) (\<lambda>_. False) (map tn_Name (cf_Tunnels cfg)) (d1\<lparr>dm_handles := Map.empty\<rparr>) d1 None"
    "config_ok cfg" "dm_cfg d1 = cfg" "dm_nodeOpen d1" "d = d1" using Run_starts [OF assms] by (metis (full_types))
  note I = started_fromD [OF R(1), simplified]
  have "dm_handles d1 n \<noteq> None \<longleftrightarrow> n \<in> tunnel_names_of cfg" for n
    using I(3) [of n] I(4) [of n] unfolding tunnel_names_of_def by (cases "n \<in> tn_Name ` set (cf_Tunnels cfg)") auto
  then have "dom (dm_handles d1) = tunnel_names_of cfg" by (simp only: set_eq_iff domIff) blast
  then show ?thesis using R(2-5) I(1) by (simp add: running_def)
qed

text \<open>
  C11: a start is all or nothing. In a process that holds no port lock, whatever order the started
  tunnels are closed in, a daemon that Run hands out runs exactly the tunnels of its
  configuration, each owning its port lock, stream handler or listener alone, on an open node;
  and when a tunnel does not start, no tunnel, port lock, stream handler, listener or node is
  left.
\<close>

theorem Run_all_or_nothing:
  assumes "fresh_locks w" and "\<And>d. finite (dom (dm_handles d)) \<Longrightarrow> set (names d) = dom (dm_handles d)"
    and "Run env w fs names (Some cfg) = Some (Some d, r)"
  shows "if r = None then running d \<and> dm_cfg d = cfg \<and> dm_nodeOpen d \<and> daemon_inv (de_host env) d
    else dm_handles d = Map.empty \<and> dm_handlers d = Map.empty \<and> dm_listeners d = {} \<and>
      held_ports (de_host env) (dm_locks d) = {} \<and> \<not> dm_nodeOpen d"
proof (cases "r = None")
  case True
  then show ?thesis using Run_running [OF assms(3) [unfolded True] assms(1)] by simp
next
  case False
  obtain d1 where R: "started_from (de_host env) (\<lambda>_. False) (map tn_Name (cf_Tunnels cfg)) (d1\<lparr>dm_handles := Map.empty\<rparr>) d1 r"
    and "d = (if r = None then d1 else daemon_Close d1 (names d1))" by (rule Run_starts [OF assms(3,1)])
  then have d: "d = daemon_Close d1 (names d1)" unfolding if_not_P [OF False] by blast
  have "dm_handles d1 n = None" if "n \<notin> set (map tn_Name (cf_Tunnels cfg))" for n
    using started_fromD(3) [OF R, of n] that by simp
  then have "dom (dm_handles d1) \<subseteq> set (map tn_Name (cf_Tunnels cfg))" by (metis domIff subsetI)
  then have "finite (dom (dm_handles d1))" by (rule finite_subset) simp
  then have "dom (dm_handles d1) \<subseteq> set (names d1)" using assms(2) by simp
  note C = daemon_Close_spec [OF started_fromD(1) [OF R] this]
  show ?thesis using False d C daemon_inv_empty [OF C(2,1)] by simp
qed

section \<open>Who gets a session\<close>

definition handlers_ok :: "daemon \<Rightarrow> bool" where
  "handlers_ok d \<longleftrightarrow> (\<forall>p t token. dm_handlers d p = Some (t, token) \<longrightarrow> tunnel_ok t \<and> (tn_TokenFile t \<noteq> [] \<longrightarrow> token \<noteq> None))"

lemma handlers_okD: "handlers_ok d \<Longrightarrow> dm_handlers d p = Some (t, token) \<Longrightarrow> tunnel_ok t \<and> (tn_TokenFile t \<noteq> [] \<longrightarrow> token \<noteq> None)"
  unfolding handlers_ok_def by blast

lemma handlers_ok_submap:
  assumes "handlers_ok d" and "dm_handlers d' \<subseteq>\<^sub>m dm_handlers d"
  shows "handlers_ok d'"
  unfolding handlers_ok_def
proof (intro allI impI)
  fix p t token assume "dm_handlers d' p = Some (t, token)"
  then have "dm_handlers d p = Some (t, token)" using assms(2) by (simp add: map_le_def) (metis domI)
  then show "tunnel_ok t \<and> (tn_TokenFile t \<noteq> [] \<longrightarrow> token \<noteq> None)" by (rule handlers_okD [OF assms(1)])
qed

lemma stop_handlers: "dm_handlers (stop d name) \<subseteq>\<^sub>m dm_handlers d"
  by (simp add: stop_def Let_def map_le_def split: option.split)

lemma start_handlers_ok:
  assumes "handlers_ok d" and "tunnel_ok t" and "start env d t = (d1, x)"
  shows "handlers_ok d1"
proof -
  obtain fs y where L: "loadTunnelToken (de_lp env) (de_cb env) (de_host env) (de_ft env) (de_now env) (dm_fs d) (tn_TokenFile t) = (fs, y)"
    by fastforce
  have "dm_handlers d1 = dm_handlers d \<or> (\<exists>p token. y = Inr token \<and> dm_handlers d1 = (dm_handlers d)(p \<mapsto> (t, token)))"
    using assms(3) unfolding start_def L
    by (cases y) (auto simp: startServer_def startClient_def Let_def split: prod.splits sum.splits if_splits option.splits)
  moreover have "token \<noteq> None" if "tn_TokenFile t \<noteq> []" "y = Inr token" for token
    using L that by (auto simp: loadTunnelToken_def split: prod.splits sum.splits option.splits)
  ultimately show ?thesis
  proof (elim disjE exE conjE)
    fix p token
    assume u: "y = Inr token" "dm_handlers d1 = (dm_handlers d)(p \<mapsto> (t, token))"
      and tok: "\<And>token. tn_TokenFile t \<noteq> [] \<Longrightarrow> y = Inr token \<Longrightarrow> token \<noteq> None"
    show ?thesis unfolding handlers_ok_def u(2)
      using handlers_okD [OF assms(1)] assms(2) tok [OF _ u(1)] by (auto split: if_splits)
  qed (use assms(1) in \<open>simp add: handlers_ok_def\<close>)
qed

lemma start_all_handlers_ok:
  assumes "handlers_ok d" and "list_all tunnel_ok ts" and "start_all env d ts = (d1, r)"
  shows "handlers_ok d1"
  using assms
proof (induction ts arbitrary: d)
  case (Cons t ts)
  obtain d2 x where s: "start env d t = (d2, x)" by fastforce
  have ok: "handlers_ok d2" using start_handlers_ok [OF Cons.prems(1) _ s] Cons.prems(2) by simp
  show ?case
  proof (cases x)
    case (Inl e)
    then show ?thesis using ok s Cons.prems(3) by simp
  next
    case (Inr th)
    have "handlers_ok (d2\<lparr>dm_handles := (dm_handles d2)(tn_Name t \<mapsto> th)\<rparr>)" using ok by (simp add: handlers_ok_def)
    then show ?thesis by (rule Cons.IH) (use s Inr Cons.prems(2,3) in simp_all)
  qed
qed simp

lemma stop_changed_handlers_ok: "handlers_ok d \<Longrightarrow> handlers_ok (stop_changed old new names d)"
  by (induction names arbitrary: d) (simp_all add: handlers_ok_submap [OF _ stop_handlers])

lemma start_changed_handlers_ok:
  assumes "handlers_ok d" and "\<forall>n\<in>set names. \<exists>t. new n = Some t \<and> tunnel_ok t" and "start_changed env old new names d = (d1, r)"
  shows "handlers_ok d1"
  using assms
proof (induction names arbitrary: d)
  case (Cons name names)
  show ?case
  proof (cases "unchanged old new name")
    case True
    then show ?thesis using Cons.IH [OF Cons.prems(1)] Cons.prems(2,3) by (simp add: start_changed_Cons)
  next
    case False
    obtain d2 x where s: "start env d (the (new name)) = (d2, x)" by fastforce
    have ok: "handlers_ok d2" using start_handlers_ok [OF Cons.prems(1) _ s] Cons.prems(2) by auto
    show ?thesis
    proof (cases x)
      case (Inl e)
      then show ?thesis using ok s False Cons.prems(3) by (simp add: start_changed_Cons)
    next
      case (Inr th)
      have "handlers_ok (with_handle name th d2)" using ok by (simp add: handlers_ok_def with_handle_def)
      then show ?thesis by (rule Cons.IH) (use s Inr False Cons.prems(2,3) in \<open>simp_all add: start_changed_Cons\<close>)
    qed
  qed
qed simp

text \<open>
  The daemons that come from a start and any number of reloads, successful or not, each with its
  own answers of the system and its own iteration orders.
\<close>

inductive daemon_reachable :: "daemon \<Rightarrow> bool" where
  reach_run: "fresh_locks w \<Longrightarrow> Run env w fs names (Some cfg) = Some (Some d, None) \<Longrightarrow> daemon_reachable d"
| reach_reload: "daemon_reachable d \<Longrightarrow> set news \<subseteq> tunnel_names_of cfg \<Longrightarrow>
    Reload env d (Some cfg) olds news = (d', r) \<Longrightarrow> daemon_reachable d'"

lemma reachable_handlers_ok: "daemon_reachable d \<Longrightarrow> handlers_ok d"
proof (induction rule: daemon_reachable.induct)
  case (reach_run w env fs names cfg d)
  obtain d0 d1 where R: "config_ok cfg" "dm_handlers d0 = Map.empty" "start_all env d0 (cf_Tunnels cfg) = (d1, None)" "d = d1"
    using RunD [OF reach_run(2,1)] by (metis (full_types))
  have "handlers_ok d0" using R(2) by (simp add: handlers_ok_def)
  moreover have "list_all tunnel_ok (cf_Tunnels cfg)" using R(1) by (auto simp: config_ok_def list_all_iff)
  ultimately show ?case using start_all_handlers_ok R(3,4) by blast
next
  case (reach_reload d news cfg env olds d' r)
  show ?case
  proof (cases "config_Validate cfg")
    case (Some e)
    then show ?thesis using reach_reload by (simp add: Reload_def)
  next
    case None
    let ?old = "tunnelsByName (cf_Tunnels (dm_cfg d))" and ?new = "tunnelsByName (cf_Tunnels cfg)"
    have ok: "config_ok cfg" using None config_Validate_None by blast
    obtain d1 where R: "start_changed env ?old ?new news (stop_changed ?old ?new olds d) = (d1, r)" and h: "dm_handlers d' = dm_handlers d1"
      using reach_reload(3) None by (auto simp: Reload_def Let_def split: prod.splits option.splits)
    have "\<exists>t. ?new n = Some t \<and> tunnel_ok t" if n: "n \<in> set news" for n
    proof -
      obtain t where "t \<in> set (cf_Tunnels cfg)" "tn_Name t = n" using n reach_reload(2) by (auto simp: tunnel_names_of_def)
      then show ?thesis using ok tunnelsByName_Some [of "cf_Tunnels cfg" n t] by (auto simp: config_ok_def list_all_iff)
    qed
    then have "handlers_ok d1"
      using start_changed_handlers_ok [OF stop_changed_handlers_ok [OF reach_reload(4)] _ R] by blast
    then show ?thesis using h by (simp add: handlers_ok_def)
  qed
qed

text \<open>
  C1: no shell, command or proxy without authentication. When a daemon, after any history of
  reloads, starts a SOCKS, PTY or exec session for an incoming stream, then the tunnel was
  configured to allow unauthenticated peers, or the peer passed the admission handshake on this
  stream with the pairing token of the tunnel.
\<close>

theorem privileged_session_authenticated:
  assumes "daemon_reachable d"
    and "handle_stream env cr rnd now now' d proto s = SessionStarted s' (Inr call)"
    and "call \<in> {CallSOCKS, CallPTY} \<union> range CallExec"
  shows "\<exists>t token. dm_handlers d proto = Some (t, token) \<and>
    (case token of
       None \<Rightarrow> tn_AllowUnauthenticated t
     | Some tok \<Rightarrow> AuthenticateServer (de_lp env) cr rnd now now' s (Some tok) authTimeout = (s', None))"
proof -
  obtain t token where h: "dm_handlers d proto = Some (t, token)" and call: "runServerSession t = Inr call"
    and auth: "\<And>tok. token = Some tok \<Longrightarrow> AuthenticateServer (de_lp env) cr rnd now now' s (Some tok) authTimeout = (s', None)"
    using assms(2) by (auto simp: handle_stream_def split: option.splits prod.splits)
  have "tn_Type t \<noteq> TunnelForward"
    using call assms(3) by (auto simp: runServerSession_def Let_def split: sum.splits option.splits if_splits)
  moreover have "TrimSpace [] = []" by code_simp
  ultimately have "tn_AllowUnauthenticated t" if "token = None"
    using handlers_okD [OF reachable_handlers_ok [OF assms(1)] h] that by (auto simp: tunnel_ok_def)
  with h auth show ?thesis by (auto split: option.split)
qed

section \<open>After a failed reload\<close>

lemma stop_changed_same: "\<forall>n\<in>set names. old n \<noteq> None \<Longrightarrow> stop_changed old old names d = d"
  by (induction names) auto

lemma start_changed_same: "\<forall>n\<in>set names. old n \<noteq> None \<Longrightarrow> start_changed env old old names d = (d, None)"
  by (induction names) (auto simp: start_changed_Cons unchanged_def)

lemma stop_changed_cfg: "dm_cfg (stop_changed old new names d) = dm_cfg d"
proof -
  have "dm_cfg (stop d name) = dm_cfg d" for d name by (simp add: stop_def Let_def split: option.split)
  then show ?thesis by (induction names arbitrary: d) simp_all
qed

lemma start_cfg: "start env d t = (d1, x) \<Longrightarrow> dm_cfg d1 = dm_cfg d"
  by (auto simp: start_def startServer_def startClient_def Let_def split: prod.splits sum.splits if_splits option.splits)

lemma start_changed_cfg: "start_changed env old new names d = (d1, r) \<Longrightarrow> dm_cfg d1 = dm_cfg d"
proof (induction names arbitrary: d)
  case (Cons name names)
  then show ?case
    by (auto simp: start_changed_Cons with_handle_def split: if_splits prod.splits sum.splits dest!: start_cfg)
qed simp

text \<open>
  C35: a failed reload is not undone by going back. When a reload fails, the daemon still reports the
  old configuration, and reloading that configuration succeeds without starting or stopping
  anything: whatever the failed reload stopped stays stopped.
\<close>

theorem failed_reload_sticks:
  assumes "config_ok (dm_cfg d)" and "Reload env d (Some cfg) olds news = (d1, Some e)"
    and "set olds' = tunnel_names_of (dm_cfg d)" and "set news' = tunnel_names_of (dm_cfg d)"
  shows "dm_cfg d1 = dm_cfg d \<and> Reload env' d1 (Some (dm_cfg d)) olds' news' = (d1, None)"
proof -
  have cfg: "dm_cfg d1 = dm_cfg d"
  proof (cases "config_Validate cfg")
    case None
    let ?old = "tunnelsByName (cf_Tunnels (dm_cfg d))" and ?new = "tunnelsByName (cf_Tunnels cfg)"
    have "start_changed env ?old ?new news (stop_changed ?old ?new olds d) = (d1, Some e)"
      using assms(2) None by (auto simp: Reload_def Let_def split: prod.splits option.splits)
    then show ?thesis using start_changed_cfg stop_changed_cfg by metis
  qed (use assms(2) in \<open>simp add: Reload_def\<close>)
  let ?old = "tunnelsByName (cf_Tunnels (dm_cfg d))"
  have "?old n \<noteq> None" if "n \<in> tunnel_names_of (dm_cfg d)" for n using that by (simp add: tunnelsByName_None tunnel_names_of_def)
  then have "stop_changed ?old ?old olds' d1 = d1" "start_changed env' ?old ?old news' d1 = (d1, None)"
    using stop_changed_same [of olds' ?old d1] start_changed_same [of news' ?old env' d1] assms(3,4) by blast+
  moreover have "d1\<lparr>dm_cfg := dm_cfg d\<rparr> = d1" using cfg by (cases d1) simp
  ultimately show ?thesis using cfg assms(1) by (simp add: Reload_def Let_def config_Validate_None [THEN iffD2])
qed

section \<open>Instances\<close>

definition sample_env :: daemon_env where
  "sample_env =
     \<lparr>de_lp = sample_libp2p, de_cb = sample_cbor, de_host = sample_host, de_ft = no_faults, de_lc = sample_lock_calls, de_now = 0,
      de_dial = \<lambda>t token. False, de_listen = \<lambda>host port. True, de_listen_udp = \<lambda>host port. True, de_keys = sample_key_files,
      de_other = quiet, de_node = \<lambda>cfg. True\<rparr>"

definition sample_tunnel :: "string \<Rightarrow> string \<Rightarrow> string \<Rightarrow> string \<Rightarrow> Tunnel" where
  "sample_tunnel name typ mode protocol =
     \<lparr>tn_Name = name, tn_Type = typ, tn_Mode = mode, tn_LogicalPort = 1, tn_Protocol = protocol, tn_Target = ''127.0.0.1:80'',
      tn_Listen = ''127.0.0.1:80'', tn_Peer = ''p'', tn_Exec = [], tn_TokenFile = [], tn_AllowUnauthenticated = True\<rparr>"

definition sample_config :: "Tunnel \<Rightarrow> Config" where
  "sample_config t = \<lparr>cf_Identity = ''/id'', cf_Relays = [], cf_FallbackToPublicDHT = None, cf_UpstreamSOCKS = [], cf_Tunnels = [t]\<rparr>"

definition sample_shell :: Tunnel where
  "sample_shell = sample_tunnel ''a'' ''pty'' ''server'' []"

definition sample_udp :: Tunnel where
  "sample_udp = sample_tunnel ''b'' ''forward'' ''client'' ''udp''"

lemma sample_config_ok: "config_ok (sample_config sample_shell)" "config_ok (sample_config sample_udp)"
proof -
  have "config_Validate (sample_config sample_shell) = None" "config_Validate (sample_config sample_udp) = None" by code_simp+
  then show "config_ok (sample_config sample_shell)" "config_ok (sample_config sample_udp)" by (simp_all add: config_Validate_None)
qed

lemma sample_Run:
  "\<exists>fs w l. Run sample_env sample_locks sample_fs names (Some (sample_config sample_shell)) =
     Some (Some \<lparr>dm_cfg = sample_config sample_shell,
       dm_handles = [''a'' \<mapsto> \<lparr>th_lock = Some l, th_proto = ProtocolForService 1, th_closer = None\<rparr>],
       dm_locks = w, dm_handlers = [ProtocolForService 1 \<mapsto> (sample_shell, None)], dm_listeners = {}, dm_carriers = {}, dm_next = 0,
       dm_advertised = [None], dm_fs = fs, dm_nodeOpen = True, dm_cancelled = False\<rparr>, None)"
proof -
  obtain fs where "LoadOrCreate sample_host sample_key_files no_faults quiet 0 sample_fs ''/id'' = Some (fs, Inr [1, 2, 3])"
    using sample_identity by blast
  moreover have "ResolvePath sample_host no_faults sample_fs ''/id'' = (sample_fs, Inr ''/id'')"
    by (simp add: ResolvePath_def HasPrefix_def IsAbs_def)
  ultimately have "daemon_identity sample_env sample_fs (sample_config sample_shell) = Some (fs, Inr [1, 2, 3])"
    by (simp add: daemon_identity_def sample_env_def sample_config_def)
  moreover obtain w l where "Acquire sample_host sample_lock_calls sample_locks 1 = (w, Inr l)"
    using sample_Acquire [of 1 sample_locks] by (simp add: sample_locks_def)
  ultimately show ?thesis using sample_config_ok(1)
    by (simp add: Run_def config_Validate_None [THEN iffD2] start_def startServer_def loadTunnelToken_def Let_def tunnel_names
        sample_env_def sample_config_def sample_shell_def sample_tunnel_def) blast
qed

lemma sample_running:
  "\<exists>d. Run sample_env sample_locks sample_fs names (Some (sample_config sample_shell)) = Some (Some d, None) \<and>
     daemon_reachable d \<and> running d \<and> daemon_inv sample_host d \<and> dm_cfg d = sample_config sample_shell \<and>
     dm_handlers d (ProtocolForService 1) = Some (sample_shell, None) \<and> dm_handles d ''a'' \<noteq> None \<and> dom (dm_handles d) = {''a''}"
proof -
  obtain d where R: "Run sample_env sample_locks sample_fs names (Some (sample_config sample_shell)) = Some (Some d, None)"
    and h: "dm_handlers d (ProtocolForService 1) = Some (sample_shell, None)" "dm_handles d ''a'' \<noteq> None" "dom (dm_handles d) = {''a''}"
    using sample_Run [of names] by auto
  have w: "fresh_locks sample_locks" by (simp add: fresh_locks_def sample_locks_def)
  show ?thesis using R h Run_running [OF R w] reach_run [OF w R] by (auto simp: sample_env_def)
qed

lemma sample_failed_reload:
  assumes "dm_cfg d = sample_config sample_shell"
  shows "Reload sample_env d (Some (sample_config sample_udp)) [''a''] [''b''] = (stop d ''a'', Some InitialCarrier)"
proof -
  have "SplitHostPort ''127.0.0.1:80'' = Inr (''127.0.0.1'', ''80'')" "Atoi ''80'' = Some 80" by code_simp+
  then show ?thesis using assms sample_config_ok(2)
    by (simp add: Reload_def config_Validate_None [THEN iffD2] Let_def start_changed_Cons unchanged_def tunnelsByName_def
        start_def startClient_def loadTunnelToken_def tunnel_names sample_env_def sample_config_def sample_shell_def sample_udp_def
        sample_tunnel_def)
qed

theorem Run_all_or_nothing_witness:
  "\<exists>names d. Run sample_env sample_locks sample_fs names (Some (sample_config sample_shell)) = Some (Some d, None) \<and>
     running d \<and> daemon_inv sample_host d"
proof -
  define names where "names d = (SOME ns. set ns = dom (dm_handles d))" for d :: daemon
  have names: "set (names d) = dom (dm_handles d)" if "finite (dom (dm_handles d))" for d
    unfolding names_def by (rule someI_ex [OF finite_list [OF that]])
  obtain d where R: "Run sample_env sample_locks sample_fs names (Some (sample_config sample_shell)) = Some (Some d, None)"
    using sample_running [of names] by auto
  have "fresh_locks sample_locks" by (simp add: fresh_locks_def sample_locks_def)
  from Run_all_or_nothing [OF this names R] R show ?thesis by (auto simp: sample_env_def)
qed


theorem privileged_session_authenticated_witness:
  "\<exists>d. daemon_reachable d \<and>
     (\<forall>cr rnd s. handle_stream sample_env cr rnd 0 0 d (ProtocolForService 1) s = SessionStarted s (Inr CallPTY) \<and>
       (\<exists>t token. dm_handlers d (ProtocolForService 1) = Some (t, token) \<and> (token = None \<longrightarrow> tn_AllowUnauthenticated t)))"
proof -
  obtain d where d: "daemon_reachable d" "dm_handlers d (ProtocolForService 1) = Some (sample_shell, None)"
    using sample_running [of "\<lambda>d. []"] by auto
  have S: "handle_stream sample_env cr rnd 0 0 d (ProtocolForService 1) s = SessionStarted s (Inr CallPTY)" for cr rnd s
    by (simp add: handle_stream_def d(2) runServerSession_def sample_shell_def sample_tunnel_def tunnel_names)
  have "\<exists>t token. dm_handlers d (ProtocolForService 1) = Some (t, token) \<and> (token = None \<longrightarrow> tn_AllowUnauthenticated t)"
    using privileged_session_authenticated [OF d(1) S, of undefined undefined undefined] d(2) by auto
  with d(1) S show ?thesis by blast
qed

theorem failed_reload_sticks_witness:
  "\<exists>d d1. running d \<and> dm_handles d ''a'' \<noteq> None \<and>
     Reload sample_env d (Some (sample_config sample_udp)) [''a''] [''b''] = (d1, Some InitialCarrier) \<and>
     Reload sample_env d1 (Some (dm_cfg d)) [''a''] [''a''] = (d1, None) \<and> dm_cfg d1 = dm_cfg d \<and> dm_handles d1 ''a'' = None"
proof -
  obtain d where d: "running d" "dm_cfg d = sample_config sample_shell" "dm_handles d ''a'' \<noteq> None"
    using sample_running [of "\<lambda>d. []"] by auto
  note R = sample_failed_reload [OF d(2)]
  have "config_ok (dm_cfg d)" "set [''a''] = tunnel_names_of (dm_cfg d)"
    using d(1) by (simp_all add: running_def tunnel_names_of_def d(2) sample_config_def sample_shell_def sample_tunnel_def)
  from failed_reload_sticks [OF this(1) R this(2,2), of sample_env] d R show ?thesis by (auto simp: stop_handles)
qed

end
