(* ===== verification/Go_IP.thy ===== *)
theory Go_IP
  imports Go_Paths
begin

text \<open>
  Which texts \<open>net.ParseIP\<close> accepts: four decimal numbers, or groups of hexadecimal digits with at
  most one \<open>::\<close> and possibly four decimal numbers at the end. A zone is never accepted.
\<close>

definition decimal_octet :: "string \<Rightarrow> bool" where
  "decimal_octet s \<longleftrightarrow> (case digits_value s of None \<Rightarrow> False | Some n \<Rightarrow> n \<le> 255 \<and> (length s = 1 \<or> hd s \<noteq> CHR ''0''))"

definition parse_IPv4 :: "string \<Rightarrow> bool" where
  "parse_IPv4 s \<longleftrightarrow> length (split_on (CHR ''.'') s) = 4 \<and> list_all decimal_octet (split_on (CHR ''.'') s)"

definition is_hex :: "char \<Rightarrow> bool" where
  "is_hex c \<longleftrightarrow> c \<in> set ''0123456789abcdefABCDEF''"

text \<open>
  The loop of \<open>parseIPv6\<close>: \<open>i\<close> bytes are filled, \<open>ellipsis\<close> tells whether a \<open>::\<close> was seen, and \<open>s\<close> is the
  text from the next group on. The first argument bounds the number of groups.
\<close>

fun parse_groups :: "nat \<Rightarrow> nat \<Rightarrow> bool \<Rightarrow> string \<Rightarrow> bool" where
  "parse_groups 0 i ellipsis s \<longleftrightarrow> s = [] \<and> \<not> ellipsis"
| "parse_groups (Suc n) i ellipsis s \<longleftrightarrow>
     (let digits = takeWhile is_hex s; rest = dropWhile is_hex s
      in if digits = [] \<or> 4 < length digits then False
         else if rest \<noteq> [] \<and> hd rest = CHR ''.'' then
           (ellipsis \<or> i = 12) \<and> i + 4 \<le> 16 \<and> parse_IPv4 s \<and> (i + 4 < 16 \<longleftrightarrow> ellipsis)
         else if rest = [] then (i + 2 < 16 \<longleftrightarrow> ellipsis)
         else if hd rest \<noteq> CHR '':'' \<or> length rest = 1 then False
         else if hd (tl rest) = CHR '':'' then
           \<not> ellipsis \<and> (if tl (tl rest) = [] then i + 2 < 16 else parse_groups n (i + 2) True (tl (tl rest)))
         else parse_groups n (i + 2) ellipsis (tl rest))"

definition parse_IPv6 :: "string \<Rightarrow> bool" where
  "parse_IPv6 s \<longleftrightarrow>
     (if HasPrefix s ''::'' then drop 2 s = [] \<or> parse_groups 8 0 True (drop 2 s) else parse_groups 8 0 False s)"

definition ParseIP :: "string \<Rightarrow> bool" where
  "ParseIP s \<longleftrightarrow>
     (case find (\<lambda>c. c \<in> set ''.:%'') s of
        Some c \<Rightarrow> if c = CHR ''.'' then parse_IPv4 s else c = CHR '':'' \<and> CHR ''%'' \<notin> set s \<and> parse_IPv6 s
      | None \<Rightarrow> False)"

lemma ParseIP_examples:
  "ParseIP ''127.0.0.1''" "ParseIP ''::1''" "ParseIP ''fe80::1:2''" "ParseIP ''::ffff:10.0.0.1''" "ParseIP ''::''" "ParseIP ''1:2:3:4:5:6:7:8''"
  "\<not> ParseIP ''127.0.0.01''" "\<not> ParseIP ''localhost''" "\<not> ParseIP ''fe80::1%eth0''" "\<not> ParseIP ''1:2:3:4:5:6:7::8''"
  "\<not> ParseIP ''1::2::3''" "\<not> ParseIP ''256.0.0.1''" "\<not> ParseIP ''1:2:3:4:5:6:7''" "\<not> ParseIP ''1:2:3:4:5:6:7:8:9''" "ParseIP ''1:2:3:4:5:6:7::''"
  by code_simp+

end
