(* ===== verification/App_Run.thy ===== *)
theory App_Run
  imports Daemon_Lifecycle Cli_Options Go_IP
begin

text \<open>
  The entry point and the commands around the daemon: \<open>src/internal/app/run.go\<close> and
  \<open>autoconfig.go\<close>, \<open>src/internal/cli/run_command.go\<close> and the configuration loader of
  \<open>src/internal/service/service.go\<close>. The YAML decoder and the outcome of a child process are
  parameters. Printing is left out.
\<close>

section \<open>Configuration files\<close>

datatype load_error = ConfigPathRequired | ReadConfig | BadConfig config_error

definition loadTunnelConfigFile :: "(bytes \<Rightarrow> Config option) \<Rightarrow> os_faults \<Rightarrow> fs \<Rightarrow> string \<Rightarrow> load_error + Config" where
  "loadTunnelConfigFile yaml ft fs path =
     (case os_ReadFile ft fs path of None \<Rightarrow> Inl ReadConfig | Some data \<Rightarrow>
      (case Parse yaml data of Inl e \<Rightarrow> Inl (BadConfig e) | Inr cfg \<Rightarrow> Inr cfg))"

definition loadConfigFile :: "(bytes \<Rightarrow> Config option) \<Rightarrow> os_faults \<Rightarrow> fs \<Rightarrow> string \<Rightarrow> load_error + Config" where
  "loadConfigFile yaml ft fs path =
     (case os_ReadFile ft fs path of None \<Rightarrow> Inl ReadConfig | Some data \<Rightarrow>
      (case Parse yaml data of Inl e \<Rightarrow> Inl (BadConfig e) | Inr cfg \<Rightarrow> Inr cfg))"

definition service_loadConfig :: "(bytes \<Rightarrow> Config option) \<Rightarrow> os_faults \<Rightarrow> fs \<Rightarrow> string \<Rightarrow> load_error + Config" where
  "service_loadConfig yaml ft fs path =
     (if path = [] then Inl ConfigPathRequired
      else case os_ReadFile ft fs path of None \<Rightarrow> Inl ReadConfig | Some data \<Rightarrow>
        (case Parse yaml data of Inl e \<Rightarrow> Inl (BadConfig e) | Inr cfg \<Rightarrow> Inr cfg))"

section \<open>The run command\<close>

datatype run_error = RunLoad load_error | RunDaemon daemon_error

text \<open>The running daemon, or why there is none. A failed start leaves the daemon closed.\<close>

definition run_command ::
  "(bytes \<Rightarrow> Config option) \<Rightarrow> daemon_env \<Rightarrow> lock_world \<Rightarrow> fs \<Rightarrow> (daemon \<Rightarrow> string list) \<Rightarrow> string \<Rightarrow> (run_error + daemon) option" where
  "run_command yaml env w fs names configPath =
     (if configPath = [] then Some (Inl (RunLoad ConfigPathRequired))
      else case loadTunnelConfigFile yaml (de_ft env) fs configPath of Inl e \<Rightarrow> Some (Inl (RunLoad e)) | Inr cfg \<Rightarrow>
        (case Run env w fs names (Some cfg) of
           None \<Rightarrow> None
         | Some (d, Some e) \<Rightarrow> Some (Inl (RunDaemon e))
         | Some (d, None) \<Rightarrow> Some (Inr (the d))))"

text \<open>
  The watcher. At a tick the file has a modification time and can be read or not; None is a
  failed \<open>os.Stat\<close>. \<open>olds\<close> and \<open>news\<close> are the orders in which \<open>Reload\<close> iterates over its maps, and
  each tick has its own answers of the system.
\<close>

record tick =
  tk_file :: "(go_time \<times> bytes option) option"
  tk_env :: daemon_env
  tk_olds :: "string list"
  tk_news :: "string list"

definition watch_start :: "(go_time \<times> bytes option) option \<Rightarrow> go_time" where
  "watch_start file = (case file of None \<Rightarrow> 0 | Some (modified, data) \<Rightarrow> modified)"

definition watch_tick :: "(bytes \<Rightarrow> Config option) \<Rightarrow> tick \<Rightarrow> go_time \<times> daemon \<Rightarrow> go_time \<times> daemon" where
  "watch_tick yaml k state =
     (case state of (lastModified, d) \<Rightarrow>
      (case tk_file k of None \<Rightarrow> state | Some (modified, data) \<Rightarrow>
       if \<not> lastModified < modified then state
       else (modified,
         case data of None \<Rightarrow> d | Some bs \<Rightarrow>
         (case Parse yaml bs of Inl e \<Rightarrow> d | Inr cfg \<Rightarrow> fst (Reload (tk_env k) d (Some cfg) (tk_olds k) (tk_news k))))))"

definition watchConfigFile :: "(bytes \<Rightarrow> Config option) \<Rightarrow> (go_time \<times> bytes option) option \<Rightarrow> tick list \<Rightarrow> daemon \<Rightarrow> go_time \<times> daemon" where
  "watchConfigFile yaml file ticks d = fold (watch_tick yaml) ticks (watch_start file, d)"

section \<open>The configuration next to the executable\<close>

definition autoConfigExtensions :: "string list" where
  "autoConfigExtensions = [''.cfg'', ''.ini'', ''.yaml'', ''.mui'']"

definition isRegularFile :: "os_faults \<Rightarrow> fs \<Rightarrow> string \<Rightarrow> bool" where
  "isRegularFile ft fs path \<longleftrightarrow> (case os_Stat ft fs path of Inl e \<Rightarrow> False | Inr node \<Rightarrow> IsRegular node)"

fun first_config :: "os_faults \<Rightarrow> fs \<Rightarrow> string \<Rightarrow> string \<Rightarrow> string list \<Rightarrow> string option" where
  "first_config ft fs dir base [] = None"
| "first_config ft fs dir base (ext # exts) =
     (let candidate = Join [dir, base @ ext]
      in if isRegularFile ft fs candidate then Some candidate else first_config ft fs dir base exts)"

definition findAdjacentConfig :: "os_faults \<Rightarrow> fs \<Rightarrow> string \<Rightarrow> string option" where
  "findAdjacentConfig ft fs exePath =
     (let dir = Dir exePath; base = TrimSuffix (Base exePath) (Ext exePath)
      in case first_config ft fs dir base autoConfigExtensions of
           Some candidate \<Rightarrow> Some candidate
         | None \<Rightarrow> if base = ''p2p-nc'' then None else first_config ft fs dir ''p2p-nc'' autoConfigExtensions)"

datatype auto_result = NotHandled | AutoConfigError load_error | AutoDaemonError daemon_error | AutoRan daemon

definition tryAutoConfig ::
  "(bytes \<Rightarrow> Config option) \<Rightarrow> daemon_env \<Rightarrow> lock_world \<Rightarrow> fs \<Rightarrow> (daemon \<Rightarrow> string list) \<Rightarrow> string list \<Rightarrow> auto_result option" where
  "tryAutoConfig yaml env w fs names args =
     (if args \<noteq> [] then Some NotHandled
      else case os_Executable (de_host env) of None \<Rightarrow> Some NotHandled | Some exePath \<Rightarrow>
        (case findAdjacentConfig (de_ft env) fs exePath of None \<Rightarrow> Some NotHandled | Some configPath \<Rightarrow>
         (case loadConfigFile yaml (de_ft env) fs configPath of Inl e \<Rightarrow> Some (AutoConfigError e) | Inr cfg \<Rightarrow>
          (case Run env w fs names (Some cfg) of
             None \<Rightarrow> None
           | Some (d, Some e) \<Rightarrow> Some (AutoDaemonError e)
           | Some (d, None) \<Rightarrow> Some (AutoRan (the d))))))"

section \<open>Tor\<close>

definition torActive :: string where "torActive = ''P2P_NETCAT_TOR_ACTIVE''"

definition environmentOr :: "os_host \<Rightarrow> string \<Rightarrow> string \<Rightarrow> string" where
  "environmentOr h name fallback = (if os_Getenv h name \<noteq> [] then os_Getenv h name else fallback)"

datatype child_outcome = ChildOK | ChildExit int | ChildNotFound | ChildFailed

datatype tor_error = TorUnsupported | TorHost string | TorPort string | TorExecutable | TorsocksMissing string | TorChild

text \<open>The child process: a program and its arguments, run with \<open>torActive\<close> set.\<close>

type_synonym child = "string \<Rightarrow> string list \<Rightarrow> child_outcome"

definition runUnderTor :: "os_host \<Rightarrow> child \<Rightarrow> string list \<Rightarrow> int \<times> bool \<times> tor_error option" where
  "runUnderTor h child args =
     (if \<not> TorRequested args \<or> os_Getenv h torActive = ''1'' then (0, False, None)
      else if os_GOOS h = ''windows'' then (1, True, Some TorUnsupported)
      else if list_ex (\<lambda>v. v = ''-h'' \<or> v = ''--help'' \<or> v = ''-V'' \<or> v = ''--version'') args then (0, False, None)
      else let host = environmentOr h ''P2P_NETCAT_TOR_HOST'' (environmentOr h ''GSOCKET_SOCKS_IP'' ''127.0.0.1'');
               port = environmentOr h ''P2P_NETCAT_TOR_PORT'' (environmentOr h ''GSOCKET_SOCKS_PORT'' ''9050'')
           in if \<not> ParseIP host then (1, True, Some (TorHost host))
              else case Atoi port of None \<Rightarrow> (1, True, Some (TorPort port)) | Some portNumber \<Rightarrow>
                if portNumber < 1 \<or> 65535 < portNumber then (1, True, Some (TorPort port))
                else case os_Executable h of None \<Rightarrow> (1, True, Some TorExecutable) | Some executable \<Rightarrow>
                  (let commandName = environmentOr h ''P2P_NETCAT_TORSOCKS_COMMAND'' ''torsocks'';
                       torArgs = (if QuietRequested args then [''-q''] else []) @
                         [''-i'', ''-a'', host, ''-P'', port, executable] @ args
                   in case child commandName torArgs of
                        ChildOK \<Rightarrow> (0, True, None)
                      | ChildExit code \<Rightarrow> (code, True, None)
                      | ChildNotFound \<Rightarrow> (1, True, Some (TorsocksMissing commandName))
                      | ChildFailed \<Rightarrow> (1, True, Some TorChild)))"

section \<open>The program\<close>

datatype run_outcome = PrintVersion | AutoConfig auto_result | UnderTor int | RootCommand

definition app_Run ::
  "(bytes \<Rightarrow> Config option) \<Rightarrow> daemon_env \<Rightarrow> lock_world \<Rightarrow> fs \<Rightarrow> (daemon \<Rightarrow> string list) \<Rightarrow> child \<Rightarrow> string list \<Rightarrow> run_outcome option" where
  "app_Run yaml env w fs names child args =
     (if ''-V'' \<in> set args then Some PrintVersion
      else case tryAutoConfig yaml env w fs names args of
             None \<Rightarrow> None
           | Some NotHandled \<Rightarrow>
               (case runUnderTor (de_host env) child args of
                  (code, True, err) \<Rightarrow> Some (UnderTor code)
                | (code, False, err) \<Rightarrow> Some RootCommand)
           | Some r \<Rightarrow> Some (AutoConfig r))"

section \<open>Tor is not bypassed by the flag\<close>



text \<open>
  the scan misses \<open>--tor=true\<close>. That form sets the same flag when the command line is parsed, but
  the root command then runs outside torsocks and dials directly.
\<close>

theorem tor_assignment_direct:
  assumes "\<not> HasPrefix target ''-''"
  shows "app_Run yaml env w fs names child [''--tor=true'', ''--relay='' @ relay, target] = Some RootCommand"
proof -
  have t: "target \<noteq> ''-V''" "target \<noteq> ''--tor''" "target \<noteq> ''-T''" using assms by (auto simp: HasPrefix_def)
  have "\<not> TorRequested [''--tor=true'', ''--relay='' @ relay, target]"
    using assms t by (simp add: TorRequested_def booleanShortOptionRequested_def value_flags_def HasPrefix_def)
  with t show ?thesis by (simp add: app_Run_def tryAutoConfig_def runUnderTor_def)
qed

section \<open>Watching the configuration\<close>

lemma Reload_cfg: "dm_cfg (fst (Reload env d (Some cfg) olds news)) \<in> {dm_cfg d, cfg}"
  by (auto simp: Reload_def Let_def stop_changed_cfg split: option.splits prod.splits dest: start_changed_cfg)

lemma watch_tick_sound:
  assumes "daemon_reachable d"
    and "\<And>m bs cfg. tk_file k = Some (m, Some bs) \<Longrightarrow> Parse yaml bs = Inr cfg \<Longrightarrow> set (tk_news k) \<subseteq> tunnel_names_of cfg"
  shows "daemon_reachable (snd (watch_tick yaml k (since, d)))"
    and "dm_cfg (snd (watch_tick yaml k (since, d))) = dm_cfg d \<or>
      (\<exists>m bs. tk_file k = Some (m, Some bs) \<and> Parse yaml bs = Inr (dm_cfg (snd (watch_tick yaml k (since, d)))))"
proof -
  consider "snd (watch_tick yaml k (since, d)) = d"
    | m bs cfg where "tk_file k = Some (m, Some bs)" "Parse yaml bs = Inr cfg"
      "snd (watch_tick yaml k (since, d)) = fst (Reload (tk_env k) d (Some cfg) (tk_olds k) (tk_news k))"
    by (force simp: watch_tick_def split: option.splits sum.splits if_splits)
  note C = this
  show "daemon_reachable (snd (watch_tick yaml k (since, d)))"
    by (cases rule: C) (use assms reach_reload [OF assms(1)] in \<open>metis prod.collapse\<close>)+
  show "dm_cfg (snd (watch_tick yaml k (since, d))) = dm_cfg d \<or>
      (\<exists>m bs. tk_file k = Some (m, Some bs) \<and> Parse yaml bs = Inr (dm_cfg (snd (watch_tick yaml k (since, d)))))"
    by (cases rule: C) (use Reload_cfg in fastforce)+
qed

lemma watch_unchanged:
  "\<forall>k\<in>set ticks. \<forall>m data. tk_file k = Some (m, data) \<longrightarrow> m \<le> since \<Longrightarrow> fold (watch_tick yaml) ticks (since, d) = (since, d)"
  by (induction ticks) (auto simp: watch_tick_def split: option.splits)

text \<open>
  the watcher only applies good configurations. After any sequence of ticks the daemon is one
  that starts and reloads can reach, and its configuration is the one it had or one that some
  tick read and validation accepted. If no tick sees a later modification time than the file
  had when watching began, the daemon is the same, even when the file was changed after it was
  loaded and before watching began.
\<close>

theorem watch_applies_valid:
  assumes "daemon_reachable d"
    and "\<And>k m bs cfg. k \<in> set ticks \<Longrightarrow> tk_file k = Some (m, Some bs) \<Longrightarrow> Parse yaml bs = Inr cfg \<Longrightarrow> set (tk_news k) \<subseteq> tunnel_names_of cfg"
    and "watchConfigFile yaml file ticks d = (m', d')"
  shows "daemon_reachable d' \<and>
    (dm_cfg d' = dm_cfg d \<or> (\<exists>k\<in>set ticks. \<exists>m bs. tk_file k = Some (m, Some bs) \<and> Parse yaml bs = Inr (dm_cfg d'))) \<and>
    ((\<forall>k\<in>set ticks. \<forall>m data. tk_file k = Some (m, data) \<longrightarrow> m \<le> watch_start file) \<longrightarrow> d' = d)"
proof -
  have "daemon_reachable d' \<and> (dm_cfg d' = dm_cfg d \<or> (\<exists>k\<in>set ticks. \<exists>m bs. tk_file k = Some (m, Some bs) \<and> Parse yaml bs = Inr (dm_cfg d')))"
    if "fold (watch_tick yaml) ticks (since, d) = (m', d')" for since
    using that assms(1,2)
  proof (induction ticks arbitrary: since d)
    case (Cons k ticks)
    obtain since1 d1 where k: "watch_tick yaml k (since, d) = (since1, d1)" by force
    have 1: "daemon_reachable d1" "dm_cfg d1 = dm_cfg d \<or> (\<exists>m bs. tk_file k = Some (m, Some bs) \<and> Parse yaml bs = Inr (dm_cfg d1))"
      using watch_tick_sound [of d k yaml since] Cons.prems(2,3) k by auto
    have "fold (watch_tick yaml) ticks (since1, d1) = (m', d')" using Cons.prems(1) k by simp
    then have "daemon_reachable d' \<and> (dm_cfg d' = dm_cfg d1 \<or>
        (\<exists>k\<in>set ticks. \<exists>m bs. tk_file k = Some (m, Some bs) \<and> Parse yaml bs = Inr (dm_cfg d')))"
      by (rule Cons.IH [OF _ 1(1)]) (use Cons.prems(3) in auto)
    then show ?case using 1(2) by auto
  qed simp
  moreover have "fold (watch_tick yaml) ticks (watch_start file, d) = (m', d')" using assms(3) by (simp add: watchConfigFile_def)
  ultimately show ?thesis using watch_unchanged [of ticks "watch_start file" yaml d] by auto
qed

section \<open>Instances\<close>


theorem tor_assignment_direct_witness:
  "app_Run (\<lambda>bs. None) sample_env sample_locks Map.empty (\<lambda>d. []) (\<lambda>p args. ChildOK) [''--tor=true'', ''--relay=/r'', ''peer''] = Some RootCommand"
  using tor_assignment_direct [of "''peer''" _ _ _ _ _ _ "''/r''"] by (simp add: HasPrefix_def)

theorem watch_applies_valid_witness:
  "\<exists>d d'. watchConfigFile (\<lambda>bs. Some (sample_config sample_shell)) (Some (3, None))
      [\<lparr>tk_file = Some (5, Some []), tk_env = sample_env, tk_olds = [''a''], tk_news = [''a'']\<rparr>] d = (5, d') \<and>
     daemon_reachable d' \<and> dm_cfg d' = sample_config sample_shell"
proof -
  let ?yaml = "\<lambda>bs. Some (sample_config sample_shell)"
  let ?k = "\<lparr>tk_file = Some (5, Some []), tk_env = sample_env, tk_olds = [''a''], tk_news = [''a'']\<rparr>"
  obtain d where d: "daemon_reachable d" "dm_cfg d = sample_config sample_shell" using sample_running by blast
  obtain d' where W: "watchConfigFile ?yaml (Some (3, None)) [?k] d = (5, d')"
    by (simp add: watchConfigFile_def watch_tick_def watch_start_def)
  have names: "tunnel_names_of (sample_config sample_shell) = {''a''}"
    by (simp add: tunnel_names_of_def sample_config_def sample_shell_def sample_tunnel_def)
  have P: "Parse ?yaml bs = Inr cfg \<Longrightarrow> cfg = sample_config sample_shell" for bs cfg by (auto simp: Parse_def split: option.splits)
  have "daemon_reachable d' \<and> (dm_cfg d' = dm_cfg d \<or> (\<exists>k\<in>set [?k]. \<exists>m bs. tk_file k = Some (m, Some bs) \<and> Parse ?yaml bs = Inr (dm_cfg d')))"
    using watch_applies_valid [OF d(1) _ W] P names by fastforce
  then show ?thesis using W d(2) P by auto
qed

end
