(* ===== verification/Service.thy ===== *)
theory Service
  imports App_Run
begin

text \<open>
  The service on Linux (\<open>src/internal/service/service_linux.go\<close>) and the relay server
  (\<open>src/relay/relay.go\<close>, \<open>newRelayCommand\<close> of \<open>src/internal/cli/root.go\<close>). \<open>systemctl\<close> is a parameter: whether
  a call with given arguments succeeds, and what \<open>is-active\<close> prints.
\<close>

section \<open>The unit file\<close>

definition service_Name :: string where "service_Name = ''p2p-netcat''"

definition service_Description :: string where
  "service_Description = ''Runs every tunnel in a p2p-netcat YAML config on one shared node (see 'p2p-nc run --config').''"

definition unitPath :: string where "unitPath = ''/etc/systemd/system/'' @ service_Name @ ''.service''"

definition quoteArg :: "string \<Rightarrow> string" where "quoteArg arg = [CHR 0x22] @ arg @ [CHR 0x22]"

definition unit_line :: "string \<Rightarrow> string" where "unit_line s = s @ [CHR 0x0A]"

definition buildSystemdUnit :: "string \<Rightarrow> string \<Rightarrow> string" where
  "buildSystemdUnit exePath configPath =
     unit_line ''[Unit]'' @
     unit_line (''Description='' @ service_Description) @
     unit_line ''After=network-online.target'' @
     unit_line ''Wants=network-online.target'' @
     unit_line [] @
     unit_line ''[Service]'' @
     unit_line ''Type=simple'' @
     unit_line (''ExecStart='' @ quoteArg exePath @ '' run --config '' @ quoteArg configPath) @
     unit_line ''Restart=on-failure'' @
     unit_line ''RestartSec=2'' @
     unit_line [] @
     unit_line ''[Install]'' @
     unit_line ''WantedBy=multi-user.target''"

section \<open>Operations\<close>

datatype service_error =
    ServiceConfig load_error
  | ServicePath
  | ServiceExecutable
  | UnitExists
  | UnitWrite
  | UnitRemove
  | Systemctl "string list"
  | NotInstalled
  | WindowsOnly

definition runSystemctl :: "(string list \<Rightarrow> bool) \<Rightarrow> string list \<Rightarrow> service_error option" where
  "runSystemctl systemctl args = (if systemctl args then None else Some (Systemctl args))"

definition service_Install ::
  "(bytes \<Rightarrow> Config option) \<Rightarrow> os_host \<Rightarrow> os_faults \<Rightarrow> (string list \<Rightarrow> bool) \<Rightarrow> fs \<Rightarrow> string \<Rightarrow> fs \<times> service_error option" where
  "service_Install yaml h ft systemctl fs configPath =
     (case service_loadConfig yaml ft fs configPath of Inl e \<Rightarrow> (fs, Some (ServiceConfig e)) | Inr cfg \<Rightarrow>
      (case Abs (os_Getwd h) configPath of None \<Rightarrow> (fs, Some ServicePath) | Some absoluteConfigPath \<Rightarrow>
       (case os_Executable h of None \<Rightarrow> (fs, Some ServiceExecutable) | Some exePath \<Rightarrow>
        (case os_Stat ft fs unitPath of Inr node \<Rightarrow> (fs, Some UnitExists) | Inl e \<Rightarrow>
         (case os_WriteFile ft fs unitPath 0x1A4 (string_bytes (buildSystemdUnit exePath absoluteConfigPath)) of
            (fs1, False) \<Rightarrow> (fs1, Some UnitWrite)
          | (fs1, True) \<Rightarrow>
              (case runSystemctl systemctl [''daemon-reload''] of Some e \<Rightarrow> (fs1, Some e) | None \<Rightarrow>
               (fs1, runSystemctl systemctl [''enable'', service_Name])))))))"

definition service_Uninstall :: "os_faults \<Rightarrow> (string list \<Rightarrow> bool) \<Rightarrow> fs \<Rightarrow> fs \<times> service_error option" where
  "service_Uninstall ft systemctl fs =
     (if fs unitPath \<noteq> None \<and> ft_remove ft then (fs, Some UnitRemove)
      else (os_Remove ft fs unitPath, runSystemctl systemctl [''daemon-reload'']))"

definition service_Start :: "(string list \<Rightarrow> bool) \<Rightarrow> service_error option" where
  "service_Start systemctl = runSystemctl systemctl [''start'', service_Name]"

definition service_Stop :: "(string list \<Rightarrow> bool) \<Rightarrow> service_error option" where
  "service_Stop systemctl = runSystemctl systemctl [''stop'', service_Name]"

definition service_StatusText :: "os_faults \<Rightarrow> (string list \<Rightarrow> string) \<Rightarrow> fs \<Rightarrow> service_error + string" where
  "service_StatusText ft output fs =
     (case os_Stat ft fs unitPath of Inl e \<Rightarrow> Inl NotInstalled | Inr node \<Rightarrow> Inr (TrimSpace (output [''is-active'', service_Name])))"

definition service_RunAsService :: "string \<Rightarrow> service_error option" where
  "service_RunAsService configPath = Some WindowsOnly"

section \<open>What installing changes\<close>

lemma write_new_unit:
  assumes "fs p = None"
  shows "os_WriteFile ft fs p perm data = (fs1, ok) \<Longrightarrow> (fs1 = fs \<and> \<not> ok) \<or>
    (\<exists>written. fs1 = fs(p \<mapsto> Regular (perm AND NOT (ft_umask ft)) written) \<and> (ok \<longrightarrow> written = data))"
  using assms by (auto simp: os_WriteFile_def WriteFile_def split: if_splits option.splits)

lemma os_Open_extends:
  assumes "os_Open ft fs p = Inr node" and "\<And>q node. fs q = Some node \<Longrightarrow> fs' q = Some node"
  shows "os_Open ft fs' p = Inr node"
  using assms(1) follow_extends [of fs fs', OF assms(2)] by (simp add: os_Open_def split: if_splits)

lemma service_loadConfig_extends:
  assumes "service_loadConfig yaml ft fs path = Inr cfg" and "fs q = None"
  shows "service_loadConfig yaml ft (fs(q \<mapsto> node)) path = Inr cfg"
proof -
  obtain opened where "os_Open ft fs path = Inr opened"
    using assms(1) by (auto simp: service_loadConfig_def os_ReadFile_def split: if_splits sum.splits option.splits)
  then have "os_Open ft (fs(q \<mapsto> node)) path = Inr opened"
    by (rule os_Open_extends) (use assms(2) in auto)
  with \<open>os_Open ft fs path = Inr opened\<close> have "os_ReadFile ft (fs(q \<mapsto> node)) path = os_ReadFile ft fs path" by (simp add: os_ReadFile_def)
  with assms(1) show ?thesis unfolding service_loadConfig_def by (simp only:)
qed

lemma service_Install_cases:
  assumes "service_Install yaml h ft systemctl fs path = (fs1, r)" and "\<not> ft_stat ft" and "\<And>q. fs unitPath \<noteq> Some (Symlink q)"
  shows "fs1 = fs \<and> r \<noteq> None \<and> (\<forall>args. r \<noteq> Some (Systemctl args)) \<or>
    (\<exists>data. fs unitPath = None \<and> fs1 = fs(unitPath \<mapsto> data) \<and> r = Some UnitWrite) \<or>
    (\<exists>cfg exePath configPath. service_loadConfig yaml ft fs path = Inr cfg \<and> os_Executable h = Some exePath \<and>
       Abs (os_Getwd h) path = Some configPath \<and> fs unitPath = None \<and>
       fs1 = fs(unitPath \<mapsto> Regular (0x1A4 AND NOT (ft_umask ft)) (string_bytes (buildSystemdUnit exePath configPath))))"
proof (cases "\<exists>cfg exePath configPath. service_loadConfig yaml ft fs path = Inr cfg \<and> os_Executable h = Some exePath \<and>
    Abs (os_Getwd h) path = Some configPath \<and> fs unitPath = None")
  case True
  then obtain cfg exePath configPath where c: "service_loadConfig yaml ft fs path = Inr cfg" "os_Executable h = Some exePath"
    "Abs (os_Getwd h) path = Some configPath" and n: "fs unitPath = None" by blast
  obtain fs2 ok where W: "os_WriteFile ft fs unitPath 0x1A4 (string_bytes (buildSystemdUnit exePath configPath)) = (fs2, ok)" by force
  have "os_Stat ft fs unitPath = Inl ErrNotExist" using n assms(2) by (simp add: os_Stat_def follow.simps)
  then have "fs1 = fs2" "ok \<or> r = Some UnitWrite" using assms(1) c W by (auto simp: service_Install_def split: option.splits bool.splits)
  with write_new_unit [OF n W] c n show ?thesis by auto
next
  case False
  then have "fs1 = fs \<and> r \<noteq> None \<and> (\<forall>args. r \<noteq> Some (Systemctl args))"
    using assms by (auto simp: service_Install_def os_Stat_def follow.simps split: sum.splits option.splits fs_node.splits)
  then show ?thesis by blast
qed

text \<open>
  installing the service is guarded and can be undone, but not retried. It writes no file but the
  unit, and only when none was there and the configuration is valid; on success the unit starts
  the running executable with the absolute path of that configuration. Uninstalling gives the
  files from before back. When \<open>systemctl\<close> fails the unit stays, and every later attempt fails
  because it exists.
\<close>

theorem service_install_effect:
  assumes "service_Install yaml h ft systemctl fs path = (fs1, r)" and "\<not> ft_stat ft" and "\<And>q. fs unitPath \<noteq> Some (Symlink q)"
  shows "(\<forall>q. q \<noteq> unitPath \<longrightarrow> fs1 q = fs q) \<and> (fs unitPath \<noteq> None \<longrightarrow> fs1 = fs \<and> r \<noteq> None) \<and>
    (r = None \<longrightarrow> (\<exists>cfg exePath configPath. service_loadConfig yaml ft fs path = Inr cfg \<and> os_Executable h = Some exePath \<and>
       Abs (os_Getwd h) path = Some configPath \<and>
       fs1 unitPath = Some (Regular (0x1A4 AND NOT (ft_umask ft)) (string_bytes (buildSystemdUnit exePath configPath))))) \<and>
    (fs unitPath = None \<longrightarrow> \<not> ft_remove ft \<longrightarrow> fst (service_Uninstall ft systemctl' fs1) = fs) \<and>
    (\<forall>args. r = Some (Systemctl args) \<longrightarrow> service_Install yaml h ft systemctl' fs1 path = (fs1, Some UnitExists))"
proof -
  consider (kept) "fs1 = fs" "r \<noteq> None" "\<And>args. r \<noteq> Some (Systemctl args)"
    | (partial) data where "fs unitPath = None" "fs1 = fs(unitPath \<mapsto> data)" "r = Some UnitWrite"
    | (written) cfg exePath configPath where "service_loadConfig yaml ft fs path = Inr cfg" "os_Executable h = Some exePath"
      "Abs (os_Getwd h) path = Some configPath" "fs unitPath = None"
      "fs1 = fs(unitPath \<mapsto> Regular (0x1A4 AND NOT (ft_umask ft)) (string_bytes (buildSystemdUnit exePath configPath)))"
    using service_Install_cases [OF assms] by blast
  then show ?thesis
  proof cases
    case kept
    then show ?thesis by (auto simp: service_Uninstall_def os_Remove_def)
  next
    case partial
    then show ?thesis by (auto simp: service_Uninstall_def os_Remove_def)
  next
    case written
    have "os_Stat ft fs1 unitPath = Inr (Regular (0x1A4 AND NOT (ft_umask ft)) (string_bytes (buildSystemdUnit exePath configPath)))"
      using assms(2) written(5) by (simp add: os_Stat_def follow.simps)
    then have "service_Install yaml h ft systemctl' fs1 path = (fs1, Some UnitExists)"
      using service_loadConfig_extends [OF written(1,4)] written(2,3,5) by (simp add: service_Install_def)
    with written show ?thesis by (auto simp: service_Uninstall_def os_Remove_def)
  qed
qed

section \<open>An instance\<close>

definition service_fs :: fs where
  "service_fs = [''/c'' \<mapsto> Regular 0x1A4 []]"

theorem service_install_effect_witness:
  "\<exists>fs1. service_Install (\<lambda>bs. Some (sample_config sample_shell)) sample_host no_faults (\<lambda>args. hd args \<noteq> ''enable'') service_fs ''/c'' =
       (fs1, Some (Systemctl [''enable'', service_Name])) \<and>
     fst (service_Uninstall no_faults (\<lambda>args. True) fs1) = service_fs"
proof -
  have v: "config_Validate (sample_config sample_shell) = None" using sample_config_ok config_Validate_None by blast
  have n: "service_fs unitPath = None" "''/c'' \<noteq> unitPath" by (simp_all add: service_fs_def unitPath_def)
  have a: "Abs (os_Getwd sample_host) ''/c'' = Some ''/c''" by code_simp
  have L: "service_loadConfig (\<lambda>bs. Some (sample_config sample_shell)) no_faults service_fs ''/c'' = Inr (sample_config sample_shell)"
    by (simp add: service_loadConfig_def os_ReadFile_def os_Open_def follow.simps no_faults_def service_fs_def Parse_def v)
  have "\<exists>fs1. service_Install (\<lambda>bs. Some (sample_config sample_shell)) sample_host no_faults (\<lambda>args. hd args \<noteq> ''enable'') service_fs ''/c'' =
      (fs1, Some (Systemctl [''enable'', service_Name]))"
    using n by (simp add: service_Install_def L a)
      (simp add: no_faults_def os_Stat_def follow.simps os_WriteFile_def WriteFile_def sample_host_def runSystemctl_def)
  then obtain fs1 where I: "service_Install (\<lambda>bs. Some (sample_config sample_shell)) sample_host no_faults (\<lambda>args. hd args \<noteq> ''enable'') service_fs ''/c'' =
      (fs1, Some (Systemctl [''enable'', service_Name]))" ..
  have "fst (service_Uninstall no_faults (\<lambda>args. True) fs1) = service_fs"
    using service_install_effect [OF I, of "\<lambda>args. True"] n by (simp add: no_faults_def)
  with I show ?thesis by blast
qed

end
