(* ===== verification/Relay_Server.thy ===== *)
theory Relay_Server
  imports Cli_Listener
begin

text \<open>
  The relay server: \<open>src/relay/relay.go\<close> and \<open>newRelayCommand\<close> of \<open>src/internal/cli/root.go\<close>. The once-guard of
  \<open>Stop\<close> is a flag of the handle.
\<close>

record relay_Options =
  ro_IdentityPath :: string
  ro_PrivateKey :: "bytes option"
  ro_LocalPort :: int
  ro_WebsocketPort :: int
  ro_DisableWebsocket :: bool
  ro_IPVersion :: int
  ro_Announce :: "string list"
  ro_NoMDNS :: bool
  ro_NoPubSub :: bool
  ro_NoQUIC :: bool
  ro_Verbose :: bool

record Handle =
  rh_Node :: "node option"
  rh_IdentityPath :: string
  rh_stopped :: bool

datatype relay_error =
    RelayLocalPort
  | RelayWebsocketPort
  | RelayIPVersion
  | RelayIdentity identity_error
  | RelayNode node_error
  | RelayFamilies
  | RelayPorts

definition websocket_port :: "relay_Options \<Rightarrow> int" where
  "websocket_port options =
     (if ro_DisableWebsocket options then 0 else if ro_WebsocketPort options = 0 then 9091 else ro_WebsocketPort options)"

definition relay_key :: "cli_env \<Rightarrow> fs \<Rightarrow> relay_Options \<Rightarrow> (fs \<times> (relay_error + bytes \<times> string)) option" where
  "relay_key env fs options =
     (case ro_PrivateKey options of
        Some key \<Rightarrow> Some (fs, Inr (key, []))
      | None \<Rightarrow>
          (let (fs1, path) =
                 (if ro_IdentityPath options = [] then apsnd (\<lambda>p. p @ ''.relay'') (DefaultPath (ce_host env) (ce_ft env) fs)
                  else (fs, ro_IdentityPath options))
           in case LoadOrCreate (ce_host env) (ce_keys env) (ce_ft env) (ce_other env) 0 fs1 path of
                None \<Rightarrow> None
              | Some (fs2, Inl e) \<Rightarrow> Some (fs2, Inl (RelayIdentity e))
              | Some (fs2, Inr key) \<Rightarrow> Some (fs2, Inr (key, path))))"

definition relay_config :: "relay_Options \<Rightarrow> int \<Rightarrow> bytes \<Rightarrow> node_config" where
  "relay_config options websocketPort key =
     \<lparr>nc_PrivateKey = Some key, nc_TransportPort = ro_LocalPort options, nc_WebsocketPort = websocketPort,
      nc_IPVersion = ro_IPVersion options, nc_Announce = ro_Announce options, nc_Relays = [], nc_Bootstrap = [], nc_EnableDHT = False,
      nc_EnableMDNS = (\<not> ro_NoMDNS options), nc_EnablePubSub = (\<not> ro_NoPubSub options), nc_PubSubDiscover = (\<not> ro_NoPubSub options),
      nc_PubSubInterval = 0, nc_EnableQUIC = (\<not> ro_NoQUIC options), nc_EnableWebRTC = False, nc_Listen = True, nc_DHTServer = False,
      nc_RelayServer = True, nc_Verbose = ro_Verbose options, nc_UpstreamSOCKS = []\<rparr>"

definition relay_Start :: "cli_env \<Rightarrow> fs \<Rightarrow> relay_Options \<Rightarrow> (fs \<times> (relay_error + Handle)) option" where
  "relay_Start env fs options =
     (if ro_LocalPort options < 0 \<or> 65535 < ro_LocalPort options then Some (fs, Inl RelayLocalPort)
      else let websocketPort = websocket_port options
           in if websocketPort < 0 \<or> 65535 < websocketPort then Some (fs, Inl RelayWebsocketPort)
              else if ro_IPVersion options \<noteq> 0 \<and> ro_IPVersion options \<noteq> 4 \<and> ro_IPVersion options \<noteq> 6 then Some (fs, Inl RelayIPVersion)
              else case relay_key env fs options of
                     None \<Rightarrow> None
                   | Some (fs1, Inl e) \<Rightarrow> Some (fs1, Inl e)
                   | Some (fs1, Inr (key, path)) \<Rightarrow>
                       Some (fs1,
                         case ce_IDFromPrivateKey env key of None \<Rightarrow> Inl (RelayNode CreateHost) | Some self \<Rightarrow>
                         (case node_New (ce_lp env) (ce_swarm env) self (relay_config options websocketPort key) of
                            (n, Some e) \<Rightarrow> Inl (RelayNode e)
                          | (n, None) \<Rightarrow> Inr \<lparr>rh_Node = n, rh_IdentityPath = path, rh_stopped = False\<rparr>)))"

definition relay_PeerID :: "libp2p \<Rightarrow> Handle option \<Rightarrow> string" where
  "relay_PeerID lp h = (case h of None \<Rightarrow> [] | Some h \<Rightarrow> (case rh_Node h of None \<Rightarrow> [] | Some n \<Rightarrow> peer_String lp (nd_ID n)))"

definition relay_Stop :: "Handle option \<Rightarrow> Handle option" where
  "relay_Stop h =
     (case h of None \<Rightarrow> None | Some h \<Rightarrow> if rh_stopped h then Some h else Some (h\<lparr>rh_stopped := True, rh_Node := map_option node_Close (rh_Node h)\<rparr>))"

section \<open>The command\<close>

record relayOptions =
  rc_localPort :: int
  rc_websocketPort :: int
  rc_ipv4 :: bool
  rc_ipv6 :: bool
  rc_identity :: string
  rc_announce :: "string list"
  rc_noMDNS :: bool
  rc_noPubsub :: bool
  rc_noQUIC :: bool
  rc_verbose :: bool

definition relay_command :: "cli_env \<Rightarrow> fs \<Rightarrow> relayOptions \<Rightarrow> (fs \<times> (relay_error + Handle)) option" where
  "relay_command env fs opts =
     (if rc_ipv4 opts \<and> rc_ipv6 opts then Some (fs, Inl RelayFamilies)
      else if rc_localPort opts < 0 \<or> 65535 < rc_localPort opts \<or> rc_websocketPort opts < 1 \<or> 65535 < rc_websocketPort opts
        then Some (fs, Inl RelayPorts)
      else let (fs1, path) =
                 (if rc_identity opts = [] then apsnd (\<lambda>p. p @ ''.relay'') (DefaultPath (ce_host env) (ce_ft env) fs)
                  else (fs, rc_identity opts))
           in relay_Start env fs1
                \<lparr>ro_IdentityPath = path, ro_PrivateKey = None, ro_LocalPort = rc_localPort opts, ro_WebsocketPort = rc_websocketPort opts,
                 ro_DisableWebsocket = False, ro_IPVersion = (if rc_ipv4 opts then 4 else if rc_ipv6 opts then 6 else 0),
                 ro_Announce = rc_announce opts, ro_NoMDNS = rc_noMDNS opts, ro_NoPubSub = rc_noPubsub opts, ro_NoQUIC = rc_noQUIC opts,
                 ro_Verbose = rc_verbose opts\<rparr>)"

section \<open>Life of a relay\<close>

text \<open>
  a relay that starts can be stopped, once. Its ports are in range, the node it runs is a relay
  without a routing table of its own, \<open>Stop\<close> releases everything the node holds, and further calls
  change nothing.
\<close>

theorem relay_lifecycle:
  assumes "relay_Start env fs options = Some (fs', Inr h)"
  shows "0 \<le> ro_LocalPort options \<and> ro_LocalPort options \<le> 65535 \<and> 0 \<le> websocket_port options \<and> websocket_port options \<le> 65535 \<and>
    (websocket_port options = 0 \<longleftrightarrow> ro_DisableWebsocket options) \<and>
    (\<exists>n h'. rh_Node h = Some n \<and> \<not> nd_Closed n \<and> relay_Stop (Some h) = Some h' \<and> rh_Node h' = Some (node_Close n) \<and> released (node_Close n) \<and>
       relay_Stop (Some h') = Some h')"
proof -
  obtain fs1 key path self where "relay_key env fs options = Some (fs1, Inr (key, path))" and
    N: "node_New (ce_lp env) (ce_swarm env) self (relay_config options (websocket_port options) key) = (rh_Node h, None)"
    and h: "rh_stopped h = False"
    using assms by (auto simp: relay_Start_def Let_def split: if_splits option.splits sum.splits prod.splits)
  have ports: "0 \<le> ro_LocalPort options" "ro_LocalPort options \<le> 65535" "0 \<le> websocket_port options" "websocket_port options \<le> 65535"
    using assms by (auto simp: relay_Start_def Let_def split: if_splits)
  obtain n where n: "rh_Node h = Some n" "\<not> nd_Closed n"
    using node_New_releases [of "ce_lp env" "ce_swarm env" self "relay_config options (websocket_port options) key"] N
    by (cases "rh_Node h") auto
  have "websocket_port options = 0 \<longleftrightarrow> ro_DisableWebsocket options" by (simp add: websocket_port_def)
  then show ?thesis using ports n h node_Close_released [OF n(2)] by (simp add: relay_Stop_def)
qed

section \<open>An instance\<close>

definition sample_relay :: relay_Options where
  "sample_relay = \<lparr>ro_IdentityPath = [], ro_PrivateKey = Some [1, 2, 3], ro_LocalPort = 9090, ro_WebsocketPort = 0,
     ro_DisableWebsocket = False, ro_IPVersion = 0, ro_Announce = [], ro_NoMDNS = True, ro_NoPubSub = True, ro_NoQUIC = False,
     ro_Verbose = False\<rparr>"

theorem relay_lifecycle_witness:
  "\<exists>h. relay_Start listener_env Map.empty sample_relay = Some (Map.empty, Inr h) \<and> websocket_port sample_relay = 9091 \<and>
     (\<exists>h'. relay_Stop (Some h) = Some h' \<and> relay_Stop (Some h') = Some h')"
proof -
  have "\<exists>h. relay_Start listener_env Map.empty sample_relay = Some (Map.empty, Inr h)"
    by (simp add: relay_Start_def relay_key_def relay_config_def sample_relay_def websocket_port_def listener_env_def node_New_def
        node_options_def applyUpstreamSOCKSGuard_def sample_swarm_def fail_or_def start_dht_def start_mdns_def start_pubsub_def Let_def)
  then obtain h where "relay_Start listener_env Map.empty sample_relay = Some (Map.empty, Inr h)" ..
  with relay_lifecycle [OF this] show ?thesis by (auto simp: sample_relay_def websocket_port_def)
qed

end
