(* ===== verification/Opener.thy ===== *)
theory Opener
  imports Go_IO
begin

text \<open>
  The stream that a UDP forward opens before its first packet: \<open>preconnectedStreamOpener\<close> of
  \<open>src/internal/cli/root.go\<close> and its copy \<open>preconnectedOpener\<close> in \<open>src/internal/daemon/client.go\<close>.
  Each method is one critical section; \<open>Open\<close> answers None when it goes on to the fallback.
  What users rely on is the locale \<open>one_shot_opener\<close>, which both copies interpret.
\<close>

locale one_shot_opener =
  fixes fresh :: "'s \<Rightarrow> 'o" and pending :: "'o \<Rightarrow> 's option" and opens :: "'o \<Rightarrow> 'o \<times> 's option" and closes :: "'o \<Rightarrow> 'o \<times> 's option"
  assumes pending_fresh: "pending (fresh s) = Some s"
    and opens_pending: "pending (fst (opens c)) = None \<and> snd (opens c) = pending c"
    and closes_pending: "pending (fst (closes c)) = None \<and> snd (closes c) = pending c"
begin

text \<open>A history of calls, True for \<open>Open\<close>, and what each of them did with the first stream.\<close>

fun calls :: "bool list \<Rightarrow> 'o \<Rightarrow> 's option list" where
  "calls [] c = []"
| "calls (b # bs) c = (let (c', s) = (if b then opens c else closes c) in s # calls bs c')"

lemma calls_used: "pending c = None \<Longrightarrow> calls bs c = replicate (length bs) None"
proof (induction bs arbitrary: c)
  case (Cons b bs)
  then show ?case using opens_pending [of c] closes_pending [of c]
    by (cases "opens c"; cases "closes c") (auto simp: Let_def)
qed simp

lemma calls_fresh: "calls (b # bs) (fresh s) = Some s # replicate (length bs) None"
  using opens_pending [of "fresh s"] closes_pending [of "fresh s"] pending_fresh [of s]
  by (cases "opens (fresh s)"; cases "closes (fresh s)") (auto simp: Let_def calls_used)

end

section \<open>The command line\<close>

record 's preconnectedStreamOpener =
  po_first :: "'s option"

definition newPreconnectedStreamOpener :: "'s \<Rightarrow> 's preconnectedStreamOpener" where
  "newPreconnectedStreamOpener first = \<lparr>po_first = Some first\<rparr>"

definition opener_Open :: "'s preconnectedStreamOpener \<Rightarrow> 's preconnectedStreamOpener \<times> 's option" where
  "opener_Open p =
     (case po_first p of
        Some stream \<Rightarrow> (p\<lparr>po_first := None\<rparr>, Some stream)
      | None \<Rightarrow> (p, None))"

definition opener_Close :: "'s preconnectedStreamOpener \<Rightarrow> 's preconnectedStreamOpener \<times> 's option" where
  "opener_Close p = (p\<lparr>po_first := None\<rparr>, po_first p)"

interpretation cli_opener: one_shot_opener newPreconnectedStreamOpener po_first opener_Open opener_Close
  by unfold_locales (simp_all add: newPreconnectedStreamOpener_def opener_Open_def opener_Close_def split: option.split)

section \<open>The daemon\<close>

record 's preconnectedOpener =
  dp_first :: "'s option"

definition newPreconnectedOpener :: "'s \<Rightarrow> 's preconnectedOpener" where
  "newPreconnectedOpener first = \<lparr>dp_first = Some first\<rparr>"

definition daemon_opener_Open :: "'s preconnectedOpener \<Rightarrow> 's preconnectedOpener \<times> 's option" where
  "daemon_opener_Open p =
     (case dp_first p of
        Some stream \<Rightarrow> (p\<lparr>dp_first := None\<rparr>, Some stream)
      | None \<Rightarrow> (p, None))"

definition daemon_opener_Close :: "'s preconnectedOpener \<Rightarrow> 's preconnectedOpener \<times> 's option" where
  "daemon_opener_Close p = (p\<lparr>dp_first := None\<rparr>, dp_first p)"

interpretation daemon_opener: one_shot_opener newPreconnectedOpener dp_first daemon_opener_Open daemon_opener_Close
  by unfold_locales (simp_all add: newPreconnectedOpener_def daemon_opener_Open_def daemon_opener_Close_def split: option.split)

text \<open>
  a preconnected stream has one owner. Whatever the history of \<open>Open\<close> and \<open>Close\<close> calls, the
  first call alone gets the stream, to use it or to close it, in both copies of the opener.
\<close>

theorem preconnected_once:
  "cli_opener.calls (b # bs) (newPreconnectedStreamOpener s) = Some s # replicate (length bs) None \<and>
   daemon_opener.calls (b # bs) (newPreconnectedOpener s) = Some s # replicate (length bs) None"
  by (intro conjI cli_opener.calls_fresh daemon_opener.calls_fresh)

end
