(* ===== verification/Stream_Race.thy ===== *)
theory Stream_Race
  imports Prelude
begin

text \<open>
  \<open>openAnyStream\<close> of \<open>src/internal/cli/root.go\<close> with native WebRTC enabled: two goroutines dial, one
  through libp2p and one through native WebRTC, and offer what they got on an unbuffered
  channel; the caller takes the first stream or two failures, or gives up when its context
  ends. A stream is a number, an attempt that failed offers None. True names the libp2p
  attempt. The steps interleave in any order.
\<close>

datatype attempt = Dialing | Offering "nat option" | Delivered "nat option" | Dropped "nat option"

datatype race_result = Won nat | AllFailed | ContextDone

record race =
  ra_attempt :: "bool \<Rightarrow> attempt"
  ra_failures :: nat
  ra_result :: "race_result option"
  ra_cancelled :: bool
  ra_parent :: bool

definition race_start :: race where
  "race_start = \<lparr>ra_attempt = \<lambda>i. Dialing, ra_failures = 0, ra_result = None, ra_cancelled = False, ra_parent = False\<rparr>"

definition race_dialled :: "bool \<Rightarrow> nat option \<Rightarrow> race \<Rightarrow> race" where
  "race_dialled i v r = r\<lparr>ra_attempt := (ra_attempt r)(i := Offering v)\<rparr>"

text \<open>The caller receives an attempt.\<close>

definition race_deliver :: "bool \<Rightarrow> nat option \<Rightarrow> race \<Rightarrow> race" where
  "race_deliver i v r =
     (let r1 = r\<lparr>ra_attempt := (ra_attempt r)(i := Delivered v)\<rparr>
      in case v of
           Some s \<Rightarrow> r1\<lparr>ra_result := Some (Won s), ra_cancelled := True\<rparr>
         | None \<Rightarrow>
             (let r2 = r1\<lparr>ra_failures := Suc (ra_failures r1)\<rparr>
              in if ra_failures r2 = 2 then r2\<lparr>ra_result := Some AllFailed, ra_cancelled := True\<rparr> else r2))"

text \<open>The race is over: an attempt resets or closes the stream it got.\<close>

definition race_drop :: "bool \<Rightarrow> nat option \<Rightarrow> race \<Rightarrow> race" where
  "race_drop i v r = r\<lparr>ra_attempt := (ra_attempt r)(i := Dropped v)\<rparr>"

definition race_give_up :: "race \<Rightarrow> race" where
  "race_give_up r = r\<lparr>ra_result := Some ContextDone, ra_cancelled := True\<rparr>"

text \<open>The stream an attempt has or had.\<close>

fun attempt_stream :: "attempt \<Rightarrow> nat option" where
  "attempt_stream Dialing = None"
| "attempt_stream (Offering v) = v"
| "attempt_stream (Delivered v) = v"
| "attempt_stream (Dropped v) = v"

definition fresh_stream :: "nat option \<Rightarrow> attempt \<Rightarrow> bool" where
  "fresh_stream v other \<longleftrightarrow> v = None \<or> v \<noteq> attempt_stream other"

inductive race_step :: "race \<Rightarrow> race \<Rightarrow> bool" where
  rs_dialled: "ra_attempt r i = Dialing \<Longrightarrow> fresh_stream v (ra_attempt r (\<not> i)) \<Longrightarrow> race_step r (race_dialled i v r)"
| rs_deliver: "ra_attempt r i = Offering v \<Longrightarrow> ra_result r = None \<Longrightarrow> race_step r (race_deliver i v r)"
| rs_drop: "ra_attempt r i = Offering v \<Longrightarrow> ra_cancelled r \<or> ra_parent r \<Longrightarrow> race_step r (race_drop i v r)"
| rs_parent: "race_step r (r\<lparr>ra_parent := True\<rparr>)"
| rs_give_up: "ra_parent r \<Longrightarrow> ra_result r = None \<Longrightarrow> race_step r (race_give_up r)"

section \<open>The invariant\<close>

definition failed_count :: "race \<Rightarrow> nat" where
  "failed_count r = (if ra_attempt r True = Delivered None then 1 else 0) + (if ra_attempt r False = Delivered None then 1 else 0)"

definition race_inv :: "race \<Rightarrow> bool" where
  "race_inv r \<longleftrightarrow>
     fresh_stream (attempt_stream (ra_attempt r True)) (ra_attempt r False) \<and>
     (\<forall>s. ra_result r = Some (Won s) \<longleftrightarrow> ra_attempt r True = Delivered (Some s) \<or> ra_attempt r False = Delivered (Some s)) \<and>
     ra_failures r = failed_count r \<and> (ra_result r = None \<longrightarrow> ra_failures r < 2) \<and>
     (ra_cancelled r \<longleftrightarrow> ra_result r \<noteq> None) \<and>
     (\<forall>v. ra_attempt r True = Dropped v \<or> ra_attempt r False = Dropped v \<longrightarrow> ra_cancelled r \<or> ra_parent r)"

lemma race_invI:
  assumes "fresh_stream (attempt_stream (ra_attempt r True)) (ra_attempt r False)"
    and "\<And>s. ra_result r = Some (Won s) \<longleftrightarrow> ra_attempt r True = Delivered (Some s) \<or> ra_attempt r False = Delivered (Some s)"
    and "ra_failures r = failed_count r" and "ra_result r = None \<Longrightarrow> ra_failures r < 2" and "ra_cancelled r \<longleftrightarrow> ra_result r \<noteq> None"
    and "\<And>v. ra_attempt r True = Dropped v \<or> ra_attempt r False = Dropped v \<Longrightarrow> ra_cancelled r \<or> ra_parent r"
  shows "race_inv r"
  using assms unfolding race_inv_def by blast

lemma race_invD:
  assumes "race_inv r"
  shows "fresh_stream (attempt_stream (ra_attempt r True)) (ra_attempt r False)"
    and "ra_result r = Some (Won s) \<longleftrightarrow> ra_attempt r True = Delivered (Some s) \<or> ra_attempt r False = Delivered (Some s)"
    and "ra_failures r = failed_count r" and "ra_result r = None \<Longrightarrow> ra_failures r < 2" and "ra_cancelled r \<longleftrightarrow> ra_result r \<noteq> None"
    and "ra_attempt r True = Dropped v \<or> ra_attempt r False = Dropped v \<Longrightarrow> ra_cancelled r \<or> ra_parent r"
  using assms unfolding race_inv_def by blast+

lemma race_inv_step: "race_step r r' \<Longrightarrow> race_inv r \<Longrightarrow> race_inv r'"
proof (induction rule: race_step.induct)
  case (rs_dialled r i v)
  then show ?case by (cases i) (auto simp: race_inv_def race_dialled_def failed_count_def fresh_stream_def)
next
  case (rs_deliver r i v)
  then show ?case by (cases i; cases v) (auto simp: race_inv_def race_deliver_def failed_count_def fresh_stream_def Let_def)
next
  case (rs_drop r i v)
  then show ?case by (cases i) (auto simp: race_inv_def race_drop_def failed_count_def fresh_stream_def)
next
  case (rs_parent r)
  note D = race_invD [OF rs_parent]
  show ?case
  proof (rule race_invI, goal_cases)
    case 1 show ?case using D(1) by simp
  next case (2 s) show ?case using D(2) [of s] by simp
  next case 3 show ?case using D(3) by (simp add: failed_count_def)
  next case 4 then show ?case using D(4) by simp
  next case 5 show ?case using D(5) by simp
  qed simp
next
  case (rs_give_up r)
  note D = race_invD [OF rs_give_up.prems]
  show ?case
  proof (rule race_invI, goal_cases)
    case 1 show ?case using D(1) by (simp add: race_give_up_def)
  next case (2 s) show ?case using D(2) [of s] rs_give_up.hyps by (simp add: race_give_up_def)
  next case 3 show ?case using D(3) by (simp add: race_give_up_def failed_count_def)
  qed (simp_all add: race_give_up_def)
qed

interpretation race_system: invariant_system race_step "\<lambda>r. r = race_start" race_inv
proof
  show "race_inv r" if "r = race_start" for r unfolding that by (simp add: race_inv_def race_start_def failed_count_def fresh_stream_def)
qed (rule race_inv_step)

text \<open>
  C16: the race leaks nothing. Under every interleaving, each stream that an attempt opened is still
  being offered, is the one stream the caller got, or was given back; the caller gets at most one
  stream; an attempt that offers can always go on; and once neither attempt is dialling or
  offering, the caller has its result unless its own context has ended.
\<close>

theorem race_no_leak:
  assumes "race_step\<^sup>*\<^sup>* race_start r"
  shows "(\<forall>i s. attempt_stream (ra_attempt r i) = Some s \<longrightarrow>
      ra_attempt r i \<in> {Offering (Some s), Dropped (Some s)} \<or> ra_attempt r i = Delivered (Some s) \<and> ra_result r = Some (Won s)) \<and>
    (\<forall>s. ra_result r = Some (Won s) \<longrightarrow> (\<exists>!i. attempt_stream (ra_attempt r i) = Some s \<and> ra_attempt r i = Delivered (Some s))) \<and>
    (\<forall>i v. ra_attempt r i = Offering v \<longrightarrow> (\<exists>r'. race_step r r' \<and> ra_attempt r' i \<in> {Delivered v, Dropped v})) \<and>
    ((\<forall>i. ra_attempt r i \<noteq> Dialing \<and> ra_attempt r i \<notin> range Offering) \<longrightarrow> ra_result r \<noteq> None \<or> ra_parent r)"
proof -
  have inv: "race_inv r" by (rule race_system.reachable_inv [OF refl assms])
  have won: "ra_result r = Some (Won s) \<longleftrightarrow> (\<exists>i. ra_attempt r i = Delivered (Some s))" for s
    using race_invD(2) [OF inv, of s] by (metis (full_types))
  have 1: "ra_attempt r i \<in> {Offering (Some s), Dropped (Some s)} \<or> ra_attempt r i = Delivered (Some s) \<and> ra_result r = Some (Won s)"
    if "attempt_stream (ra_attempt r i) = Some s" for i s
    using that won [of s] by (cases "ra_attempt r i") auto
  have 2: "\<exists>!i. attempt_stream (ra_attempt r i) = Some s \<and> ra_attempt r i = Delivered (Some s)" if w: "ra_result r = Some (Won s)" for s
  proof -
    obtain i where i: "ra_attempt r i = Delivered (Some s)" using won w by blast
    have unique: "j = i" if "ra_attempt r j = Delivered (Some s)" for j
      using race_invD(1) [OF inv] i that by (cases i; cases j) (simp_all add: fresh_stream_def)
    show ?thesis
    proof (rule ex1I [of _ i])
      show "attempt_stream (ra_attempt r i) = Some s \<and> ra_attempt r i = Delivered (Some s)" using i by simp
    qed (rule unique, blast)
  qed
  have 3: "\<exists>r'. race_step r r' \<and> ra_attempt r' i \<in> {Delivered v, Dropped v}" if o: "ra_attempt r i = Offering v" for i v
  proof (cases "ra_result r = None")
    case True
    then have "race_step r (race_deliver i v r)" using o by (rule rs_deliver [rotated])
    moreover have "ra_attempt (race_deliver i v r) i = Delivered v" by (simp add: race_deliver_def Let_def split: option.split)
    ultimately show ?thesis by blast
  next
    case False
    then have "ra_cancelled r" using race_invD(5) [OF inv] by blast
    then have "race_step r (race_drop i v r)" using o by (intro rs_drop) simp_all
    moreover have "ra_attempt (race_drop i v r) i = Dropped v" by (simp add: race_drop_def)
    ultimately show ?thesis by blast
  qed
  have 4: "ra_result r \<noteq> None \<or> ra_parent r" if q: "\<forall>i. ra_attempt r i \<noteq> Dialing \<and> ra_attempt r i \<notin> range Offering"
  proof (rule ccontr)
    assume n: "\<not> (ra_result r \<noteq> None \<or> ra_parent r)"
    have "ra_attempt r i = Delivered None" for i
    proof (cases "ra_attempt r i")
      case (Delivered v)
      then show ?thesis using won n by (cases v) auto
    next
      case (Dropped v)
      then show ?thesis using race_invD(5,6) [OF inv] n by (metis (full_types))
    qed (use q [rule_format, of i] in auto)
    then have "failed_count r = 2" by (simp add: failed_count_def)
    then show False using race_invD(3,4) [OF inv] n by simp
  qed
  show ?thesis using 1 2 3 4 by blast
qed

theorem race_no_leak_witness:
  "let r = race_drop False (Some 8) (race_deliver True (Some 7) (race_dialled False (Some 8) (race_dialled True (Some 7) race_start)))
   in ra_result r = Some (Won 7) \<and> ra_attempt r False = Dropped (Some 8) \<and>
      (\<exists>!i. attempt_stream (ra_attempt r i) = Some 7 \<and> ra_attempt r i = Delivered (Some 7))"
proof -
  let ?r1 = "race_dialled True (Some 7) race_start"
  let ?r2 = "race_dialled False (Some 8) ?r1"
  let ?r3 = "race_deliver True (Some 7) ?r2"
  let ?r4 = "race_drop False (Some 8) ?r3"
  note defs = race_start_def race_dialled_def race_deliver_def race_drop_def Let_def fresh_stream_def
  have "race_step race_start ?r1" by (rule rs_dialled) (simp_all add: defs)
  moreover have "race_step ?r1 ?r2" by (rule rs_dialled) (simp_all add: defs)
  moreover have "race_step ?r2 ?r3" by (rule rs_deliver) (simp_all add: defs)
  moreover have "race_step ?r3 ?r4" by (rule rs_drop) (simp_all add: defs)
  ultimately have "race_step\<^sup>*\<^sup>* race_start ?r4" by (meson rtranclp.rtrancl_into_rtrancl rtranclp.rtrancl_refl)
  moreover have won: "ra_result ?r4 = Some (Won 7)" "ra_attempt ?r4 False = Dropped (Some 8)" by (simp_all add: defs)
  ultimately have "\<exists>!i. attempt_stream (ra_attempt ?r4 i) = Some 7 \<and> ra_attempt ?r4 i = Delivered (Some 7)"
    using race_no_leak [of ?r4] by blast
  with won show ?thesis by (simp only: Let_def simp_thms)
qed

end
