(* ===== verification/Cli_Client.thy ===== *)
theory Cli_Client
  imports Cli_Listener
begin

text \<open>
  The single-tunnel client: \<open>runClient\<close> of \<open>src/internal/cli/root.go\<close>. \<open>start_client\<close> is the part before
  the first stream, \<open>open_libp2p\<close> the libp2p side of \<open>openAnyStream\<close>, \<open>client_stream\<close> the admission of
  an opened stream and \<open>client_action\<close> what the client does with it.
\<close>

section \<open>Set-up\<close>






section \<open>Streams\<close>




datatype client_session =
    CUDPForward string int duration
  | CTCPForward string int
  | CZero
  | CPTY
  | CBridge duration duration

definition client_action :: "options \<Rightarrow> client_session" where
  "client_action opts =
     (if op_port opts \<noteq> 0
      then if op_udp opts then CUDPForward (op_bind opts) (op_port opts) (op_udpIdleTimeout opts * Second)
           else CTCPForward (op_bind opts) (op_port opts)
      else if op_zero opts then CZero
      else if op_interactive opts then CPTY
      else CBridge (op_quitDelay opts * Second) (if op_timeoutExplicit opts then op_timeout opts * Second else 0))"

section \<open>What a client talks to\<close>






section \<open>An instance\<close>




end
