(* ===== verification/Socks.thy ===== *)
theory Socks
  imports Go_IO Go_IP Libraries
begin

text \<open>
  The SOCKS server on the remote side of a stream: \<open>src/session/forwarding.go\<close>. The buffered reader
  of \<open>SOCKS\<close> is a reader of \<open>Go_IO\<close>: what it has buffered is not lost, because the same reader is
  bridged afterwards. Parameters are whether the handshake timer fires before the handshake ends
  and whether the destination can be reached.
\<close>

section \<open>Addresses as text\<close>

fun show_hex :: "nat \<Rightarrow> string" where
  "show_hex n = (if n < 16 then [''0123456789abcdef'' ! n] else show_hex (n div 16) @ [''0123456789abcdef'' ! (n mod 16)])"

declare show_hex.simps [simp del]

definition ipv4_String :: "bytes \<Rightarrow> string" where
  "ipv4_String ip = join_with ''.'' (map (\<lambda>b. show_nat (unat b)) ip)"

definition zero_run :: "nat list \<Rightarrow> nat" where
  "zero_run groups = length (takeWhile (\<lambda>g. g = 0) groups)"

text \<open>The leftmost longest run of at least two zero groups, as its start and length.\<close>

fun longest_run :: "nat \<Rightarrow> nat \<times> nat \<Rightarrow> nat list \<Rightarrow> nat \<times> nat" where
  "longest_run i best [] = best"
| "longest_run i best (g # groups) =
     (let l = zero_run (g # groups)
      in longest_run (Suc i) (if 2 \<le> l \<and> snd best < l then (i, l) else best) groups)"

definition ipv6_String :: "nat list \<Rightarrow> string" where
  "ipv6_String groups =
     (case longest_run 0 (0, 0) groups of (start, l) \<Rightarrow>
      if l = 0 then join_with '':'' (map show_hex groups)
      else join_with '':'' (map show_hex (take start groups)) @ ''::'' @ join_with '':'' (map show_hex (drop (start + l) groups)))"

fun ip_groups :: "bytes \<Rightarrow> nat list" where
  "ip_groups (a # b # bs) = (unat a * 256 + unat b) # ip_groups bs"
| "ip_groups _ = []"

definition ip_String :: "bytes \<Rightarrow> string" where
  "ip_String ip =
     (if length ip = 4 then ipv4_String ip
      else if take 12 ip = replicate 10 0 @ [255, 255] then ipv4_String (drop 12 ip)
      else ipv6_String (ip_groups ip))"

section \<open>The handshakes\<close>

definition maxSOCKS4UserIDLength :: nat where "maxSOCKS4UserIDLength = 255"
definition maxSOCKS4DomainLength :: nat where "maxSOCKS4DomainLength = 255"

datatype socks_error =
    SocksIO io_error
  | NoMethod
  | NotConnect
  | AddressType byte
  | FieldTooLong
  | Unreachable
  | SocksVersion byte
  | SocksTimeout
  | SocksDial

record socks_request =
  sq_host :: string
  sq_port :: int
  sq_success :: bytes
  sq_failure :: bytes

definition read_address :: "reader \<Rightarrow> byte \<Rightarrow> reader \<times> (socks_error + string)" where
  "read_address r kind =
     (if kind = 1 then (case ReadFull r 4 of (r1, Inl e) \<Rightarrow> (r1, Inl (SocksIO e)) | (r1, Inr v) \<Rightarrow> (r1, Inr (ip_String v)))
      else if kind = 3 then
        (case ReadByte r of
           (r1, Inl e) \<Rightarrow> (r1, Inl (SocksIO e))
         | (r1, Inr l) \<Rightarrow>
             (case ReadFull r1 (unat l) of (r2, Inl e) \<Rightarrow> (r2, Inl (SocksIO e)) | (r2, Inr v) \<Rightarrow> (r2, Inr (bytes_string v))))
      else if kind = 4 then (case ReadFull r 16 of (r1, Inl e) \<Rightarrow> (r1, Inl (SocksIO e)) | (r1, Inr v) \<Rightarrow> (r1, Inr (ip_String v)))
      else (r, Inl (AddressType kind)))"

definition socks5_request :: "reader \<Rightarrow> reader \<times> (socks_error + socks_request)" where
  "socks5_request r =
     (case ReadFull r 4 of (r1, Inl e) \<Rightarrow> (r1, Inl (SocksIO e)) | (r1, Inr header) \<Rightarrow>
      if header ! 0 \<noteq> 5 \<or> header ! 1 \<noteq> 1 \<or> header ! 2 \<noteq> 0 then (r1, Inl NotConnect)
      else case read_address r1 (header ! 3) of (r2, Inl e) \<Rightarrow> (r2, Inl e) | (r2, Inr host) \<Rightarrow>
        (case ReadFull r2 2 of (r3, Inl e) \<Rightarrow> (r3, Inl (SocksIO e)) | (r3, Inr portBytes) \<Rightarrow>
         (r3, Inr \<lparr>sq_host = host, sq_port = uint (get_uint16 portBytes), sq_success = [5, 0, 0, 1, 0, 0, 0, 0, 0, 0],
            sq_failure = [5, 5, 0, 1, 0, 0, 0, 0, 0, 0]\<rparr>)))"

definition negotiateSOCKS5 :: "reader \<Rightarrow> writer \<Rightarrow> reader \<times> writer \<times> (socks_error + socks_request)" where
  "negotiateSOCKS5 r w =
     (case ReadByte r of (r1, Inl e) \<Rightarrow> (r1, w, Inl (SocksIO e)) | (r1, Inr count) \<Rightarrow>
      (case ReadFull r1 (unat count) of (r2, Inl e) \<Rightarrow> (r2, w, Inl (SocksIO e)) | (r2, Inr methods) \<Rightarrow>
       if 0 \<notin> set methods then (r2, fst (Write w [5, 0xFF]), Inl NoMethod)
       else case Write w [5, 0] of (w1, n, Some e) \<Rightarrow> (r2, w1, Inl (SocksIO e)) | (w1, n, None) \<Rightarrow>
         (case socks5_request r2 of (r3, res) \<Rightarrow> (r3, w1, res))))"

text \<open>
  \<open>readSOCKS4Field\<close>. The loop condition fails only where the source panics, which is the value
  Unreachable. The first argument is the room that is left, one more than the field may hold.
\<close>

fun read_field :: "nat \<Rightarrow> nat \<Rightarrow> bytes \<Rightarrow> reader \<Rightarrow> reader \<times> (socks_error + string)" where
  "read_field 0 maximum v r = (r, Inl Unreachable)"
| "read_field (Suc room) maximum v r =
     (case ReadByte r of (r1, Inl e) \<Rightarrow> (r1, Inl (SocksIO e)) | (r1, Inr current) \<Rightarrow>
      if current = 0 then (r1, Inr (bytes_string v))
      else if length v = maximum then (r1, Inl FieldTooLong)
      else read_field room maximum (v @ [current]) r1)"

definition readSOCKS4Field :: "reader \<Rightarrow> nat \<Rightarrow> reader \<times> (socks_error + string)" where
  "readSOCKS4Field r maximum = read_field (Suc maximum) maximum [] r"

definition negotiateSOCKS4 :: "reader \<Rightarrow> reader \<times> (socks_error + socks_request)" where
  "negotiateSOCKS4 r =
     (case ReadByte r of (r1, Inl e) \<Rightarrow> (r1, Inl (SocksIO e)) | (r1, Inr command) \<Rightarrow>
     (case ReadFull r1 2 of (r2, Inl e) \<Rightarrow> (r2, Inl (SocksIO e)) | (r2, Inr portBytes) \<Rightarrow>
     (case ReadFull r2 4 of (r3, Inl e) \<Rightarrow> (r3, Inl (SocksIO e)) | (r3, Inr ip) \<Rightarrow>
     (case readSOCKS4Field r3 maxSOCKS4UserIDLength of (r4, Inl e) \<Rightarrow> (r4, Inl e) | (r4, Inr user) \<Rightarrow>
      if command \<noteq> 1 then (r4, Inl NotConnect)
      else case (if ip ! 0 = 0 \<and> ip ! 1 = 0 \<and> ip ! 2 = 0 \<and> ip ! 3 \<noteq> 0
                 then readSOCKS4Field r4 maxSOCKS4DomainLength else (r4, Inr (ip_String ip))) of
             (r5, Inl e) \<Rightarrow> (r5, Inl e)
           | (r5, Inr host) \<Rightarrow>
               (r5, Inr \<lparr>sq_host = host, sq_port = uint (get_uint16 portBytes), sq_success = [0, 0x5A] @ portBytes @ ip,
                  sq_failure = [0, 0x5B] @ portBytes @ ip\<rparr>)))))"

definition socks_negotiate :: "reader \<Rightarrow> writer \<Rightarrow> reader \<times> writer \<times> (socks_error + socks_request)" where
  "socks_negotiate r w =
     (case ReadByte r of (r1, Inl e) \<Rightarrow> (r1, w, Inl (SocksIO e)) | (r1, Inr version) \<Rightarrow>
      if version = 5 then negotiateSOCKS5 r1 w
      else if version = 4 then (case negotiateSOCKS4 r1 of (r2, res) \<Rightarrow> (r2, w, res))
      else (r1, w, Inl (SocksVersion version)))"

text \<open>
  \<open>SOCKS\<close> up to the bridge: the reader and writer that are bridged with the connection to the
  address, or the error. \<open>expired\<close> says that the timer fires during the handshake.
\<close>

definition SOCKS :: "bool \<Rightarrow> (string \<Rightarrow> bool) \<Rightarrow> reader \<Rightarrow> writer \<Rightarrow> reader \<times> writer \<times> (socks_error + string)" where
  "SOCKS expired dial r w =
     (case socks_negotiate r w of
        (r1, w1, Inl e) \<Rightarrow> (r1, w1, Inl (if expired then SocksTimeout else e))
      | (r1, w1, Inr q) \<Rightarrow>
          if expired then (r1, w1, Inl SocksTimeout)
          else let address = JoinHostPort (sq_host q) (show_nat (nat (sq_port q)))
               in if \<not> dial address then (r1, fst (Write w1 (sq_failure q)), Inl SocksDial)
                  else case Write w1 (sq_success q) of
                         (w2, n, Some e) \<Rightarrow> (r1, w2, Inl (SocksIO e))
                       | (w2, n, None) \<Rightarrow> (r1, w2, Inr address))"

section \<open>How much a handshake reads\<close>

definition consumes :: "nat \<Rightarrow> reader \<Rightarrow> reader \<Rightarrow> bool" where
  "consumes n r r' \<longleftrightarrow> (\<exists>k\<le>n. avail r' = drop k (avail r))"

lemma consumes_0 [simp]: "consumes n r r"
  unfolding consumes_def by (rule exI [of _ 0]) simp

lemma consumes_mono: "consumes m r r' \<Longrightarrow> m \<le> n \<Longrightarrow> consumes n r r'"
  unfolding consumes_def using le_trans by blast

lemma consumes_trans: "consumes m r r1 \<Longrightarrow> consumes n r1 r2 \<Longrightarrow> consumes (m + n) r r2"
  unfolding consumes_def by (metis add.commute add_mono drop_drop)

lemma ReadFull_consumes: "ReadFull r n = (r', x) \<Longrightarrow> consumes n r r'"
proof (cases "n \<le> length (avail r)")
  case True
  assume "ReadFull r n = (r', x)"
  with ReadFull_enough [OF True] have "avail r' = drop n (avail r)" by auto
  then show ?thesis unfolding consumes_def by blast
next
  case False
  assume "ReadFull r n = (r', x)"
  moreover have "length (avail r) < n" using False by simp
  ultimately have "avail r' = drop (length (avail r)) (avail r)" using ReadFull_short [of r n] by auto
  then show ?thesis unfolding consumes_def using False by (intro exI [of _ "length (avail r)"]) simp
qed

lemma ReadByte_consumes: "ReadByte r = (r', x) \<Longrightarrow> consumes 1 r r'"
  by (auto simp: ReadByte_def dest: ReadFull_consumes split: prod.splits sum.splits)

lemma read_field_consumes: "read_field room maximum v r = (r', x) \<Longrightarrow> consumes room r r'"
proof (induction room maximum v r rule: read_field.induct)
  case (2 room maximum v r)
  obtain r1 y where R: "ReadByte r = (r1, y)" by force
  have 1: "consumes 1 r r1" by (rule ReadByte_consumes [OF R])
  show ?case
  proof (cases "\<exists>c. y = Inr c \<and> c \<noteq> 0 \<and> length v \<noteq> maximum")
    case True
    then obtain c where c: "y = Inr c" "c \<noteq> 0" "length v \<noteq> maximum" by blast
    then have "read_field room maximum (v @ [c]) r1 = (r', x)" using "2.prems" R by simp
    from "2.IH" [OF R [symmetric] c this] have "consumes room r1 r'" .
    from consumes_trans [OF 1 this] show ?thesis by simp
  next
    case False
    then have "r' = r1" using "2.prems" R by (auto split: sum.splits if_splits)
    then show ?thesis using consumes_mono [OF 1, of "Suc room"] by simp
  qed
qed simp

lemma read_field_reachable: "length v + room = Suc maximum \<Longrightarrow> snd (read_field room maximum v r) \<noteq> Inl Unreachable \<or> room = 0"
proof (induction room maximum v r rule: read_field.induct)
  case (2 room maximum v r)
  obtain r1 y where R: "ReadByte r = (r1, y)" by force
  show ?case
  proof (cases y)
    case (Inr c)
    show ?thesis
    proof (cases "c \<noteq> 0 \<and> length v \<noteq> maximum")
      case True
      have "length (v @ [c]) + room = Suc maximum" "room \<noteq> 0" using "2.prems" True by auto
      with "2.IH" [OF R [symmetric] Inr] True show ?thesis using R Inr by simp
    qed (use R Inr in auto)
  qed (use R in simp)
qed simp

lemma consumes_then:
  assumes "consumes m r r1" and "r' = r1 \<or> consumes n r1 r'"
  shows "consumes (m + n) r r'"
  using assms consumes_trans consumes_mono [of m r r1 "m + n"] by auto

lemma unat_byte: "unat (b :: byte) \<le> 255"
  using unsigned_less [of b, where ?'a = nat] by simp

lemma read_address_consumes: "read_address r kind = (r', x) \<Longrightarrow> consumes 256 r r'"
proof -
  assume A: "read_address r kind = (r', x)"
  have fixed: "consumes 256 r r1" if "ReadFull r n = (r1, y)" "n \<le> 16" for n r1 y
    using consumes_mono [OF ReadFull_consumes [OF that(1)], of 256] that(2) by simp
  show ?thesis
  proof (cases "kind = 3")
    case True
    obtain r1 y where B: "ReadByte r = (r1, y)" by force
    have "r' = r1 \<or> consumes 255 r1 r'"
    proof (cases y)
      case (Inr l)
      obtain r2 z where F: "ReadFull r1 (unat l) = (r2, z)" by force
      then have "r' = r2" using A True B Inr by (auto simp: read_address_def split: sum.splits)
      then show ?thesis using consumes_mono [OF ReadFull_consumes [OF F] unat_byte] by simp
    qed (use A True B in \<open>simp add: read_address_def\<close>)
    from consumes_then [OF ReadByte_consumes [OF B] this] show ?thesis by simp
  next
    case False
    obtain r4 y4 r16 y16 where F: "ReadFull r 4 = (r4, y4)" "ReadFull r 16 = (r16, y16)" by (meson surj_pair)
    have "r' = r4 \<or> r' = r16 \<or> r' = r" using A False F by (simp add: read_address_def split: sum.splits if_splits)
    then show ?thesis using fixed [OF F(1)] fixed [OF F(2)] by auto
  qed
qed

lemma socks5_request_consumes: "socks5_request r = (r', x) \<Longrightarrow> consumes 262 r r'"
proof -
  assume A: "socks5_request r = (r', x)"
  obtain r1 y where 1: "ReadFull r 4 = (r1, y)" by force
  obtain r2 z where 2: "read_address r1 (projr y ! 3) = (r2, z)" by force
  obtain r3 p where 3: "ReadFull r2 2 = (r3, p)" by force
  have "r' = r1 \<or> r' = r2 \<or> r' = r3"
    using A 1 2 3 by (auto simp: socks5_request_def split: sum.splits if_splits)
  then have "r' = r1 \<or> consumes 258 r1 r'"
    using consumes_then [OF read_address_consumes [OF 2], of r3 2] ReadFull_consumes [OF 3] consumes_mono [OF read_address_consumes [OF 2], of 258]
    by auto
  from consumes_then [OF ReadFull_consumes [OF 1] this] show ?thesis by simp
qed

lemma negotiateSOCKS5_consumes: "negotiateSOCKS5 r w = (r', w', x) \<Longrightarrow> consumes 519 r r'"
proof -
  assume A: "negotiateSOCKS5 r w = (r', w', x)"
  obtain r1 y where 1: "ReadByte r = (r1, y)" by force
  obtain r2 z where 2: "ReadFull r1 (unat (projr y)) = (r2, z)" by force
  obtain r3 q where 3: "socks5_request r2 = (r3, q)" by force
  have "r' = r1 \<or> r' = r2 \<or> r' = r3"
    using A 1 2 3 by (auto simp: negotiateSOCKS5_def split: sum.splits if_splits prod.splits option.splits)
  moreover have "consumes 255 r1 r2" by (rule consumes_mono [OF ReadFull_consumes [OF 2] unat_byte])
  ultimately have "r' = r1 \<or> consumes (255 + 262) r1 r'"
    using consumes_then [of 255 r1 r2 r3 262] socks5_request_consumes [OF 3] consumes_mono [of 255 r1 r2 "255 + 262"] by auto
  from consumes_then [OF ReadByte_consumes [OF 1] this] show ?thesis by (rule consumes_mono) simp
qed

lemma negotiateSOCKS4_consumes: "negotiateSOCKS4 r = (r', x) \<Longrightarrow> consumes 519 r r'"
proof -
  assume A: "negotiateSOCKS4 r = (r', x)"
  obtain r1 c where 1: "ReadByte r = (r1, c)" by force
  obtain r2 p where 2: "ReadFull r1 2 = (r2, p)" by force
  obtain r3 i where 3: "ReadFull r2 4 = (r3, i)" by force
  obtain r4 u where 4: "readSOCKS4Field r3 255 = (r4, u)" by force
  obtain r5 d where 5: "readSOCKS4Field r4 255 = (r5, d)" by force
  have field: "consumes 256 a b" if "readSOCKS4Field a 255 = (b, y)" for a b y
    using read_field_consumes that by (simp add: readSOCKS4Field_def del: read_field.simps)
  have "r' = r1 \<or> r' = r2 \<or> r' = r3 \<or> r' = r4 \<or> r' = r5"
    using A 1 2 3 4 5
    by (auto simp: negotiateSOCKS4_def maxSOCKS4UserIDLength_def maxSOCKS4DomainLength_def split: sum.splits if_splits)
  moreover note c = ReadByte_consumes [OF 1] ReadFull_consumes [OF 2] ReadFull_consumes [OF 3] field [OF 4] field [OF 5]
  ultimately have "consumes (((1 + 2) + 4) + 256 + 256) r r'"
    using consumes_trans [OF c(1,2)] consumes_trans [OF consumes_trans [OF c(1,2)] c(3)]
      consumes_trans [OF consumes_trans [OF consumes_trans [OF c(1,2)] c(3)] c(4)]
      consumes_trans [OF consumes_trans [OF consumes_trans [OF consumes_trans [OF c(1,2)] c(3)] c(4)] c(5)]
    by (elim disjE) (auto elim: consumes_mono)
  then show ?thesis by (rule consumes_mono) simp
qed

lemma readSOCKS4Field_reachable: "readSOCKS4Field r m \<noteq> (r', Inl Unreachable)"
  using read_field_reachable [of "[]" "Suc m" m r] by (auto simp: readSOCKS4Field_def simp del: read_field.simps)

lemma negotiateSOCKS4_reachable: "negotiateSOCKS4 r \<noteq> (r', Inl Unreachable)"
  by (auto simp: negotiateSOCKS4_def readSOCKS4Field_reachable split: sum.splits prod.splits if_splits)

lemma read_address_reachable: "read_address r kind \<noteq> (r', Inl Unreachable)"
  by (auto simp: read_address_def split: sum.splits prod.splits if_splits)

lemma socks5_request_reachable: "socks5_request r \<noteq> (r', Inl Unreachable)"
  by (auto simp: socks5_request_def read_address_reachable split: sum.splits prod.splits if_splits)

lemma negotiateSOCKS5_reachable: "negotiateSOCKS5 r w \<noteq> (r', w', Inl Unreachable)"
  by (auto simp: negotiateSOCKS5_def socks5_request_reachable split: sum.splits prod.splits if_splits option.splits)

lemma socks_negotiate_reachable: "socks_negotiate r w \<noteq> (r', w', Inl Unreachable)"
  by (auto simp: socks_negotiate_def negotiateSOCKS4_reachable negotiateSOCKS5_reachable split: sum.splits prod.splits if_splits)

lemma socks_negotiate_consumes: "socks_negotiate r w = (r', w', x) \<Longrightarrow> consumes 520 r r'"
proof -
  assume N: "socks_negotiate r w = (r', w', x)"
  obtain r1 y where 1: "ReadByte r = (r1, y)" by force
  have "r' = r1 \<or> consumes 519 r1 r'"
  proof (cases "\<exists>v. y = Inr v \<and> (v = 4 \<or> v = 5)")
    case True
    then consider "y = Inr 4" | "y = Inr 5" by blast
    then show ?thesis
    proof cases
      case 1
      then obtain res where "negotiateSOCKS4 r1 = (r', res)"
        using N \<open>ReadByte r = (r1, y)\<close> by (cases "negotiateSOCKS4 r1") (simp add: socks_negotiate_def)
      then show ?thesis using negotiateSOCKS4_consumes by blast
    next
      case 2
      then have "negotiateSOCKS5 r1 w = (r', w', x)" using N \<open>ReadByte r = (r1, y)\<close> by (simp add: socks_negotiate_def)
      then show ?thesis using negotiateSOCKS5_consumes by blast
    qed
  next
    case False
    then have "r' = r1" using N 1 by (cases y) (auto simp: socks_negotiate_def split: if_splits)
    then show ?thesis ..
  qed
  from consumes_then [OF ReadByte_consumes [OF 1] this] show ?thesis by simp
qed

text \<open>
  a SOCKS handshake is bounded. Whatever the peer sends, the handshake reads at most 520 bytes and
  ends without a panic; what follows in the stream is still there for the bridge.
\<close>

theorem socks_bounded:
  assumes "SOCKS expired dial r w = (r', w', x)"
  shows "x \<noteq> Inl Unreachable \<and> (\<exists>k\<le>520. avail r' = drop k (avail r))"
proof -
  obtain r2 w2 z where N: "socks_negotiate r w = (r2, w2, z)" by (cases "socks_negotiate r w") auto
  have "r' = r2" "x = Inl Unreachable \<Longrightarrow> z = Inl Unreachable"
    using assms N by (auto simp: SOCKS_def Let_def split: sum.splits if_splits prod.splits option.splits)
  with socks_negotiate_consumes [OF N] socks_negotiate_reachable [of r w r2 w2] N show ?thesis by (auto simp: consumes_def)
qed

section \<open>Clients\<close>

text \<open>What a client sends for a CONNECT, the text of the host it names, and the replies it expects.\<close>

datatype socks_address = IPv4 bytes | DomainName string | IPv6 bytes

datatype socks_client =
    Socks5 bytes socks_address u16
  | Socks4 string u16 bytes
  | Socks4a string u16 byte string

fun address_bytes :: "socks_address \<Rightarrow> bytes" where
  "address_bytes (IPv4 ip) = 1 # ip"
| "address_bytes (DomainName name) = 3 # of_nat (length name) # string_bytes name"
| "address_bytes (IPv6 ip) = 4 # ip"

fun address_host :: "socks_address \<Rightarrow> string" where
  "address_host (IPv4 ip) = ip_String ip"
| "address_host (DomainName name) = name"
| "address_host (IPv6 ip) = ip_String ip"

fun address_ok :: "socks_address \<Rightarrow> bool" where
  "address_ok (IPv4 ip) \<longleftrightarrow> length ip = 4"
| "address_ok (DomainName name) \<longleftrightarrow> length name \<le> 255"
| "address_ok (IPv6 ip) \<longleftrightarrow> length ip = 16"

definition field_ok :: "string \<Rightarrow> bool" where
  "field_ok s \<longleftrightarrow> length s \<le> 255 \<and> 0 \<notin> set (string_bytes s)"

fun client_ok :: "socks_client \<Rightarrow> bool" where
  "client_ok (Socks5 methods a port) \<longleftrightarrow> length methods \<le> 255 \<and> 0 \<in> set methods \<and> address_ok a"
| "client_ok (Socks4 user port ip) \<longleftrightarrow> field_ok user \<and> length ip = 4 \<and> \<not> (take 3 ip = [0, 0, 0] \<and> ip ! 3 \<noteq> 0)"
| "client_ok (Socks4a user port x name) \<longleftrightarrow> field_ok user \<and> x \<noteq> 0 \<and> field_ok name"

fun client_bytes :: "socks_client \<Rightarrow> bytes" where
  "client_bytes (Socks5 methods a port) = [5, of_nat (length methods)] @ methods @ [5, 1, 0] @ address_bytes a @ put_uint16 port"
| "client_bytes (Socks4 user port ip) = [4, 1] @ put_uint16 port @ ip @ string_bytes user @ [0]"
| "client_bytes (Socks4a user port x name) = [4, 1] @ put_uint16 port @ [0, 0, 0, x] @ string_bytes user @ [0] @ string_bytes name @ [0]"

fun client_address :: "socks_client \<Rightarrow> string" where
  "client_address (Socks5 methods a port) = JoinHostPort (address_host a) (show_nat (unat port))"
| "client_address (Socks4 user port ip) = JoinHostPort (ip_String ip) (show_nat (unat port))"
| "client_address (Socks4a user port x name) = JoinHostPort name (show_nat (unat port))"

fun client_replies :: "bool \<Rightarrow> socks_client \<Rightarrow> bytes" where
  "client_replies ok (Socks5 methods a port) = [5, 0] @ [5, if ok then 0 else 5, 0, 1, 0, 0, 0, 0, 0, 0]"
| "client_replies ok (Socks4 user port ip) = [0, if ok then 0x5A else 0x5B] @ put_uint16 port @ ip"
| "client_replies ok (Socks4a user port x name) = [0, if ok then 0x5A else 0x5B] @ put_uint16 port @ [0, 0, 0, x]"

lemma ReadByte_Cons:
  assumes "avail r = b # rest"
  obtains r' where "ReadByte r = (r', Inr b)" and "avail r' = rest"
proof -
  obtain r' where "ReadFull r 1 = (r', Inr [b])" "avail r' = rest" using ReadFull_append [of r "[b]" rest 1] assms by auto
  then show ?thesis using that by (simp add: ReadByte_def)
qed

lemma read_field_string:
  assumes "avail r = bs @ 0 # rest" and "0 \<notin> set bs" and "length v + length bs \<le> maximum" and "length bs < room"
  shows "\<exists>r'. read_field room maximum v r = (r', Inr (bytes_string (v @ bs))) \<and> avail r' = rest"
  using assms
proof (induction bs arbitrary: v r room)
  case Nil
  then obtain n where n: "room = Suc n" by (cases room) auto
  obtain r' where "ReadByte r = (r', Inr 0)" "avail r' = rest" by (rule ReadByte_Cons [of r 0 rest]) (use Nil.prems(1) in auto)
  then show ?case by (simp add: n)
next
  case (Cons b bs)
  then obtain n where n: "room = Suc n" by (cases room) auto
  obtain r1 where r1: "ReadByte r = (r1, Inr b)" "avail r1 = bs @ 0 # rest" by (rule ReadByte_Cons [of r b "bs @ 0 # rest"]) (use Cons.prems(1) in auto)
  have "\<exists>r'. read_field n maximum (v @ [b]) r1 = (r', Inr (bytes_string ((v @ [b]) @ bs))) \<and> avail r' = rest"
    by (rule Cons.IH [OF r1(2)]) (use Cons.prems n in auto)
  then show ?case using Cons.prems r1(1) by (simp add: n)
qed

lemma readSOCKS4Field_string:
  assumes "avail r = string_bytes s @ 0 # rest" and "field_ok s"
  obtains r' where "readSOCKS4Field r 255 = (r', Inr s)" and "avail r' = rest"
  using read_field_string [of r "string_bytes s" rest "[]" 255 256] assms
  by (auto simp: readSOCKS4Field_def field_ok_def simp del: read_field.simps)

lemma read_address_client:
  assumes "avail r = tl (address_bytes a) @ rest" and "address_ok a"
  obtains r' where "read_address r (hd (address_bytes a)) = (r', Inr (address_host a))" and "avail r' = rest"
proof (cases a)
  case (DomainName name)
  have len: "unat (of_nat (length name) :: byte) = length name" using assms(2) DomainName by (simp add: unat_of_nat)
  obtain r1 where 1: "ReadByte r = (r1, Inr (of_nat (length name)))" "avail r1 = string_bytes name @ rest"
    by (rule ReadByte_Cons [of r "of_nat (length name)" "string_bytes name @ rest"]) (use assms(1) DomainName in auto)
  obtain r2 where "ReadFull r1 (length name) = (r2, Inr (string_bytes name))" "avail r2 = rest"
    using ReadFull_append [OF 1(2), of "length name"] by auto
  then show ?thesis using that DomainName 1(1) len by (simp add: read_address_def)
next
  case (IPv4 ip)
  then obtain r1 where "ReadFull r 4 = (r1, Inr ip)" "avail r1 = rest" using ReadFull_append [of r ip rest 4] assms by auto
  then show ?thesis using that IPv4 by (simp add: read_address_def)
next
  case (IPv6 ip)
  then obtain r1 where "ReadFull r 16 = (r1, Inr ip)" "avail r1 = rest" using ReadFull_append [of r ip rest 16] assms by auto
  then show ?thesis using that IPv6 by (simp add: read_address_def)
qed

lemma negotiateSOCKS5_client:
  assumes "avail r = tl (client_bytes (Socks5 methods a port)) @ rest" and "client_ok (Socks5 methods a port)" and "wr_plan w = []"
  obtains r' where "negotiateSOCKS5 r w = (r', w\<lparr>wr_sink := wr_sink w @ [5, 0]\<rparr>, Inr \<lparr>sq_host = address_host a, sq_port = uint port,
      sq_success = [5, 0, 0, 1, 0, 0, 0, 0, 0, 0], sq_failure = [5, 5, 0, 1, 0, 0, 0, 0, 0, 0]\<rparr>)" and "avail r' = rest"
proof -
  obtain kind tail where a: "address_bytes a = kind # tail" by (cases a) auto
  have len: "unat (of_nat (length methods) :: byte) = length methods" using assms(2) by (simp add: unat_of_nat)
  let ?q = "[5, 1, 0, kind] @ tail @ put_uint16 port @ rest"
  obtain r1 where 1: "ReadByte r = (r1, Inr (of_nat (length methods)))" "avail r1 = methods @ ?q"
    by (rule ReadByte_Cons [of r "of_nat (length methods)" "methods @ ?q"]) (use assms(1) a in simp_all)
  obtain r2 where 2: "ReadFull r1 (length methods) = (r2, Inr methods)" "avail r2 = ?q"
    using ReadFull_append [OF 1(2) refl] by auto
  obtain r3 where 3: "ReadFull r2 4 = (r3, Inr [5, 1, 0, kind])" "avail r3 = tail @ put_uint16 port @ rest"
    using ReadFull_append [OF 2(2), of 4] by auto
  obtain r4 where 4: "read_address r3 kind = (r4, Inr (address_host a))" "avail r4 = put_uint16 port @ rest"
    using read_address_client [of r3 a "put_uint16 port @ rest"] 3(2) a assms(2) by auto
  obtain r5 where 5: "ReadFull r4 2 = (r5, Inr (put_uint16 port))" "avail r5 = rest"
    using ReadFull_append [OF 4(2), of 2] be16.width_enc by auto
  have "Write w [5, 0] = (w\<lparr>wr_sink := wr_sink w @ [5, 0]\<rparr>, 2, None)" using assms(3) by (simp add: Write_def)
  then show ?thesis
    using that 1(1) 2(1) 3(1) 4(1) 5 assms(2) len by (simp add: negotiateSOCKS5_def socks5_request_def be16.dec_enc)
qed

lemma negotiateSOCKS4_client:
  assumes "avail r = 1 # put_uint16 port @ ip @ string_bytes user @ 0 # rest'" and "length ip = 4" and "field_ok user"
    and "take 3 ip = [0, 0, 0] \<and> ip ! 3 \<noteq> 0 \<Longrightarrow> field_ok host \<and> rest' = string_bytes host @ 0 # rest"
    and "\<not> (take 3 ip = [0, 0, 0] \<and> ip ! 3 \<noteq> 0) \<Longrightarrow> host = ip_String ip \<and> rest' = rest"
  obtains r' where "negotiateSOCKS4 r = (r', Inr \<lparr>sq_host = host, sq_port = uint port,
      sq_success = [0, 0x5A] @ put_uint16 port @ ip, sq_failure = [0, 0x5B] @ put_uint16 port @ ip\<rparr>)" and "avail r' = rest"
proof -
  obtain r1 where 1: "ReadByte r = (r1, Inr 1)" "avail r1 = put_uint16 port @ ip @ string_bytes user @ 0 # rest'"
    by (rule ReadByte_Cons [OF assms(1)])
  obtain r2 where 2: "ReadFull r1 2 = (r2, Inr (put_uint16 port))" "avail r2 = ip @ string_bytes user @ 0 # rest'"
    using ReadFull_append [OF 1(2), of 2] be16.width_enc by auto
  obtain r3 where 3: "ReadFull r2 4 = (r3, Inr ip)" "avail r3 = string_bytes user @ 0 # rest'"
    using ReadFull_append [OF 2(2), of 4] assms(2) by auto
  obtain r4 where 4: "readSOCKS4Field r3 255 = (r4, Inr user)" "avail r4 = rest'"
    by (rule readSOCKS4Field_string [OF 3(2) assms(3)])
  have zero: "take 3 ip = [0, 0, 0] \<longleftrightarrow> ip ! 0 = 0 \<and> ip ! 1 = 0 \<and> ip ! 2 = 0"
    using assms(2) by (auto simp: take_Suc_conv_app_nth numeral_3_eq_3 numeral_2_eq_2)
  show ?thesis
  proof (cases "take 3 ip = [0, 0, 0] \<and> ip ! 3 \<noteq> 0")
    case True
    obtain r5 where "readSOCKS4Field r4 255 = (r5, Inr host)" "avail r5 = rest"
      by (rule readSOCKS4Field_string [of r4 host rest]) (use assms(4) [OF True] 4(2) in auto)
    then show ?thesis
      using that True zero 1(1) 2(1) 3(1) 4(1)
      by (simp add: negotiateSOCKS4_def maxSOCKS4UserIDLength_def maxSOCKS4DomainLength_def be16.dec_enc)
  next
    case False
    then have "\<not> (ip ! 0 = 0 \<and> ip ! 1 = 0 \<and> ip ! 2 = 0 \<and> ip ! 3 \<noteq> 0)" using zero by blast
    note plain = if_not_P [OF this, of "readSOCKS4Field r4 maxSOCKS4DomainLength" "(r4, Inr (ip_String ip))"]
    have "negotiateSOCKS4 r = (r4, Inr \<lparr>sq_host = host, sq_port = uint port,
        sq_success = [0, 0x5A] @ put_uint16 port @ ip, sq_failure = [0, 0x5B] @ put_uint16 port @ ip\<rparr>)"
      unfolding negotiateSOCKS4_def 1(1) 2(1) 3(1) prod.case sum.case maxSOCKS4UserIDLength_def 4(1) plain
      using assms(5) [OF False] by (simp add: be16.dec_enc)
    then show ?thesis using that 4(2) assms(5) [OF False] by simp
  qed
qed

text \<open>
  C24: a SOCKS client is connected to the address it named. For a well-formed CONNECT request of
  version 4, 4a or 5, however the stream is cut into reads, the server dials exactly the host and
  port of the request, sends the success or failure reply of that version, and hands on the
  bytes after the request unread.
\<close>

theorem socks_connects:
  assumes "client_ok c" and "avail r = client_bytes c @ rest" and "wr_plan w = []"
  shows "\<exists>r' w'. SOCKS False dial r w = (r', w', if dial (client_address c) then Inr (client_address c) else Inl SocksDial) \<and>
    avail r' = rest \<and> wr_sink w' = wr_sink w @ client_replies (dial (client_address c)) c"
proof -
  have wr: "Write w' v = (w'\<lparr>wr_sink := wr_sink w' @ v\<rparr>, length v, None)" if "wr_plan w' = []" for w' v using that by (simp add: Write_def)
  show ?thesis
  proof (cases c)
    case (Socks5 methods a port)
    obtain r1 where 1: "ReadByte r = (r1, Inr 5)" "avail r1 = tl (client_bytes c) @ rest"
      by (rule ReadByte_Cons [of r 5 "tl (client_bytes c) @ rest"]) (use assms(2) Socks5 in auto)
    obtain r2 where "negotiateSOCKS5 r1 w = (r2, w\<lparr>wr_sink := wr_sink w @ [5, 0]\<rparr>, Inr \<lparr>sq_host = address_host a, sq_port = uint port,
        sq_success = [5, 0, 0, 1, 0, 0, 0, 0, 0, 0], sq_failure = [5, 5, 0, 1, 0, 0, 0, 0, 0, 0]\<rparr>)" "avail r2 = rest"
      using negotiateSOCKS5_client [of r1 methods a port rest w] 1(2) assms(1,3) Socks5 by auto
    then show ?thesis using 1(1) Socks5 assms(3) by (simp add: SOCKS_def socks_negotiate_def wr)
  next
    case (Socks4 user port ip)
    obtain r1 where 1: "ReadByte r = (r1, Inr 4)" "avail r1 = 1 # put_uint16 port @ ip @ string_bytes user @ 0 # rest"
      by (rule ReadByte_Cons [of r 4 "1 # put_uint16 port @ ip @ string_bytes user @ 0 # rest"]) (use assms(2) Socks4 in auto)
    obtain r2 where "negotiateSOCKS4 r1 = (r2, Inr \<lparr>sq_host = ip_String ip, sq_port = uint port,
        sq_success = [0, 0x5A] @ put_uint16 port @ ip, sq_failure = [0, 0x5B] @ put_uint16 port @ ip\<rparr>)" "avail r2 = rest"
      by (rule negotiateSOCKS4_client [OF 1(2), of "ip_String ip" rest]) (use assms(1) Socks4 in auto)
    then show ?thesis using 1(1) Socks4 assms(3) by (simp add: SOCKS_def socks_negotiate_def wr)
  next
    case (Socks4a user port x name)
    let ?rest = "string_bytes name @ 0 # rest"
    obtain r1 where 1: "ReadByte r = (r1, Inr 4)" "avail r1 = 1 # put_uint16 port @ [0, 0, 0, x] @ string_bytes user @ 0 # ?rest"
      by (rule ReadByte_Cons [of r 4 "1 # put_uint16 port @ [0, 0, 0, x] @ string_bytes user @ 0 # ?rest"]) (use assms(2) Socks4a in auto)
    obtain r2 where "negotiateSOCKS4 r1 = (r2, Inr \<lparr>sq_host = name, sq_port = uint port,
        sq_success = [0, 0x5A] @ put_uint16 port @ [0, 0, 0, x], sq_failure = [0, 0x5B] @ put_uint16 port @ [0, 0, 0, x]\<rparr>)" "avail r2 = rest"
      by (rule negotiateSOCKS4_client [OF 1(2), of name rest]) (use assms(1) Socks4a in \<open>auto simp: numeral_3_eq_3\<close>)
    then show ?thesis using 1(1) Socks4a assms(3) by (simp add: SOCKS_def socks_negotiate_def wr)
  qed
qed

section \<open>Instances\<close>

theorem socks_bounded_witness:
  "\<exists>k\<le>520. avail (fst (SOCKS False (\<lambda>a. True) \<lparr>rd_chunks = [[9, 9]], rd_end = EOF\<rparr> \<lparr>wr_sink = [], wr_plan = []\<rparr>)) = drop k [9, 9]"
proof -
  obtain r' w' x where S: "SOCKS False (\<lambda>a. True) \<lparr>rd_chunks = [[9, 9]], rd_end = EOF\<rparr> \<lparr>wr_sink = [], wr_plan = []\<rparr> = (r', w', x)"
    by (metis prod_cases3)
  from socks_bounded [OF this] show ?thesis unfolding S by (auto simp: avail_def)
qed

theorem socks_connects_witness:
  "\<exists>r' w'. SOCKS False (\<lambda>a. a = ''ex.org:443'') \<lparr>rd_chunks = [client_bytes (Socks5 [0] (DomainName ''ex.org'') 443), [7]], rd_end = EOF\<rparr>
      \<lparr>wr_sink = [], wr_plan = []\<rparr> = (r', w', Inr ''ex.org:443'') \<and> avail r' = [7] \<and> wr_sink w' = [5, 0, 5, 0, 0, 1, 0, 0, 0, 0, 0, 0]"
proof -
  let ?c = "Socks5 [0] (DomainName ''ex.org'') 443"
  have a: "client_address ?c = ''ex.org:443''" by code_simp
  have "client_ok ?c" by simp
  then show ?thesis
    using socks_connects [of ?c "\<lparr>rd_chunks = [client_bytes ?c, [7]], rd_end = EOF\<rparr>" "[7]" "\<lparr>wr_sink = [], wr_plan = []\<rparr>" "\<lambda>a. a = ''ex.org:443''"]
    unfolding a by (simp add: avail_def del: client_bytes.simps)
qed

end
