(* ===== verification/Udp_Forward.thy ===== *)
theory Udp_Forward
  imports Datagram Go_Time "HOL-Library.Sublist"
begin

text \<open>
  UDP forwarding: \<open>src/session/udp.go\<close>. The local side keeps one association for each source address;
  its reader goroutine, its worker goroutines and the end of the listener interleave in any
  order, as a step relation. The remote side pumps framed datagrams into a connected socket.
  \<open>waitForDatagramBridge\<close> is a function of the events it receives and their times.
\<close>

definition DefaultUDPIdleTimeout :: duration where "DefaultUDPIdleTimeout = 5 * Minute"
definition maxUDPAssociations :: nat where "maxUDPAssociations = 256"
definition udpPacketQueueDepth :: nat where "udpPacketQueueDepth = 256"

section \<open>The local side\<close>

text \<open>
  An association is a number. \<open>us_key\<close> is the source that its goroutine captured, \<open>us_queue\<close> its
  channel, \<open>us_taken\<close> what its goroutine received from the channel so far, and \<open>us_pending\<close> the
  packet that the reader is about to put into a channel after it released the mutex.
  \<open>us_arrived\<close> lists the packets that the listener delivered, with their sources.
\<close>

record udp_state =
  us_associations :: "string \<rightharpoonup> nat"
  us_key :: "nat \<rightharpoonup> string"
  us_running :: "nat set"
  us_queue :: "nat \<Rightarrow> bytes list"
  us_taken :: "nat \<Rightarrow> bytes list"
  us_next :: nat
  us_pending :: "(nat \<times> bytes) option"
  us_cancelled :: "nat set"
  us_closed :: bool
  us_arrived :: "(string \<times> bytes) list"

definition udp_start :: udp_state where
  "udp_start = \<lparr>us_associations = Map.empty, us_key = Map.empty, us_running = {}, us_queue = \<lambda>a. [], us_taken = \<lambda>a. [], us_next = 0,
     us_pending = None, us_cancelled = {}, us_closed = False, us_arrived = []\<rparr>"

text \<open>A packet is read and its association found, created or refused, under the mutex.\<close>

definition udp_receive :: "string \<Rightarrow> bytes \<Rightarrow> udp_state \<Rightarrow> udp_state" where
  "udp_receive key payload s =
     (let s1 = s\<lparr>us_arrived := us_arrived s @ [(key, payload)]\<rparr>
      in case us_associations s1 key of
           Some a \<Rightarrow> s1\<lparr>us_pending := Some (a, payload)\<rparr>
         | None \<Rightarrow>
             if maxUDPAssociations \<le> card (dom (us_associations s1)) then s1
             else let a = us_next s1
                  in s1\<lparr>us_associations := (us_associations s1)(key \<mapsto> a), us_key := (us_key s1)(a \<mapsto> key),
                        us_running := insert a (us_running s1), us_next := Suc a, us_pending := Some (a, payload)\<rparr>)"

text \<open>The packet goes into the channel, or is dropped when that is full.\<close>

definition udp_enqueue :: "nat \<Rightarrow> bytes \<Rightarrow> udp_state \<Rightarrow> udp_state" where
  "udp_enqueue a payload s =
     (if length (us_queue s a) < udpPacketQueueDepth
      then s\<lparr>us_queue := (us_queue s)(a := us_queue s a @ [payload]), us_pending := None\<rparr>
      else s\<lparr>us_pending := None\<rparr>)"

definition udp_take :: "nat \<Rightarrow> udp_state \<Rightarrow> udp_state" where
  "udp_take a s =
     (case us_queue s a of
        [] \<Rightarrow> s
      | payload # rest \<Rightarrow> s\<lparr>us_queue := (us_queue s)(a := rest), us_taken := (us_taken s)(a := us_taken s a @ [payload])\<rparr>)"

text \<open>The deferred calls of an association's goroutine.\<close>

definition udp_finish :: "nat \<Rightarrow> string \<Rightarrow> udp_state \<Rightarrow> udp_state" where
  "udp_finish a key s =
     (let s1 = (if us_associations s key = Some a then s\<lparr>us_associations := (us_associations s)(key := None)\<rparr> else s)
      in s1\<lparr>us_running := us_running s1 - {a}, us_cancelled := insert a (us_cancelled s1)\<rparr>)"

text \<open>The reader goroutine ends and cancels the associations in the map.\<close>

definition udp_close :: "udp_state \<Rightarrow> udp_state" where
  "udp_close s = s\<lparr>us_closed := True, us_cancelled := us_cancelled s \<union> ran (us_associations s)\<rparr>"

inductive udp_step :: "udp_state \<Rightarrow> udp_state \<Rightarrow> bool" where
  step_receive: "\<not> us_closed s \<Longrightarrow> us_pending s = None \<Longrightarrow> udp_step s (udp_receive key payload s)"
| step_enqueue: "us_pending s = Some (a, payload) \<Longrightarrow> udp_step s (udp_enqueue a payload s)"
| step_take: "a \<in> us_running s \<Longrightarrow> udp_step s (udp_take a s)"
| step_finish: "a \<in> us_running s \<Longrightarrow> us_key s a = Some key \<Longrightarrow> udp_step s (udp_finish a key s)"
| step_close: "\<not> us_closed s \<Longrightarrow> us_pending s = None \<Longrightarrow> udp_step s (udp_close s)"

inductive_cases udp_stepE: "udp_step s s'"

section \<open>The remote side\<close>

text \<open>A connected socket takes one packet for each call; the plan says how much of it and with which error.\<close>

record packet_conn =
  pc_packets :: "bytes list"
  pc_plan :: "(nat \<times> io_error option) list"

definition conn_Write :: "packet_conn \<Rightarrow> bytes \<Rightarrow> packet_conn \<times> nat \<times> io_error option" where
  "conn_Write c payload =
     (case pc_plan c of
        [] \<Rightarrow> (c\<lparr>pc_packets := pc_packets c @ [payload]\<rparr>, length payload, None)
      | (n, err) # plan \<Rightarrow> (c\<lparr>pc_packets := (if err = None then pc_packets c @ [take n payload] else pc_packets c), pc_plan := plan\<rparr>,
          min n (length payload), err))"

definition writePacket :: "packet_conn \<Rightarrow> bytes \<Rightarrow> packet_conn \<times> io_error option" where
  "writePacket c payload =
     (case conn_Write c payload of (c', count, err) \<Rightarrow>
      if err = None \<and> count \<noteq> length payload then (c', Some ErrShortWrite) else (c', err))"

datatype pump_error = PumpFrame datagram_error | PumpPacket io_error

lemma ReadDatagram_shrinks: "ReadDatagram r = (r', Inr p) \<Longrightarrow> length (avail r') < length (avail r)"
proof -
  assume A: "ReadDatagram r = (r', Inr p)"
  then obtain r1 h where 1: "ReadFull r 2 = (r1, Inr h)" and 2: "ReadFull r1 (unat (get_uint16 h)) = (r', Inr p)"
    by (auto simp: ReadDatagram_def HeaderLength_def split: prod.splits sum.splits)
  show ?thesis using ReadFull_Inr [OF 1] ReadFull_Inr [OF 2] by simp
qed

text \<open>The goroutine of \<open>UDPForward\<close> from the stream to the socket, and the one from the socket to the stream.\<close>

function udp_pump :: "reader \<Rightarrow> packet_conn \<Rightarrow> reader \<times> packet_conn \<times> pump_error" where
  "udp_pump r c =
     (case ReadDatagram r of
        (r1, Inl e) \<Rightarrow> (r1, c, PumpFrame e)
      | (r1, Inr payload) \<Rightarrow>
          (case writePacket c payload of
             (c1, Some e) \<Rightarrow> (r1, c1, PumpPacket e)
           | (c1, None) \<Rightarrow> udp_pump r1 c1))"
  by pat_completeness auto
termination
  by (relation "measure (\<lambda>(r, c). length (avail r))") (auto dest: sym ReadDatagram_shrinks)

declare udp_pump.simps [simp del]

definition udp_return :: "writer \<Rightarrow> bytes list \<Rightarrow> writer \<times> datagram_error option" where
  "udp_return w packets = write_many WriteDatagram w packets"

section \<open>The end of a bridge\<close>

datatype bridge_event = ContextEnded | Activity | PumpEnded "io_error option"

datatype bridge_result = BridgeCancelled | BridgeIdle | BridgeDone | BridgeFailed io_error

definition net_ErrClosed :: io_error where
  "net_ErrClosed = IOFailure ''use of closed network connection''"

text \<open>
  The events in the order of their times; the timer, set to \<open>idleTimeout\<close> when the bridge starts and
  at every activity, fires before an event that comes later. The result is None while the
  bridge waits, and the flag tells whether the stream was reset.
\<close>

fun wait_bridge :: "duration \<Rightarrow> go_time \<Rightarrow> (go_time \<times> bridge_event) list \<Rightarrow> (bridge_result \<times> bool) option" where
  "wait_bridge idleTimeout since [] = None"
| "wait_bridge idleTimeout since ((now, event) # events) =
     (if 0 < idleTimeout \<and> since + idleTimeout < now then Some (BridgeIdle, False)
      else case event of
             ContextEnded \<Rightarrow> Some (BridgeCancelled, True)
           | Activity \<Rightarrow> wait_bridge idleTimeout now events
           | PumpEnded err \<Rightarrow>
               (case err of
                  None \<Rightarrow> Some (BridgeDone, False)
                | Some e \<Rightarrow> if e = EOF \<or> e = net_ErrClosed then Some (BridgeDone, False) else Some (BridgeFailed e, True)))"

definition waitForDatagramBridge :: "duration \<Rightarrow> go_time \<Rightarrow> (go_time \<times> bridge_event) list \<Rightarrow> (bridge_result \<times> bool) option" where
  "waitForDatagramBridge idleTimeout start events = wait_bridge idleTimeout start events"

section \<open>The invariant of the associations\<close>

definition packets_from :: "string \<Rightarrow> (string \<times> bytes) list \<Rightarrow> bytes list" where
  "packets_from key arrived = map snd (filter (\<lambda>(k, p). k = key) arrived)"

definition pending_for :: "udp_state \<Rightarrow> nat \<Rightarrow> bytes list" where
  "pending_for s a = (case us_pending s of Some (b, p) \<Rightarrow> if b = a then [p] else [] | None \<Rightarrow> [])"

definition udp_inv :: "udp_state \<Rightarrow> bool" where
  "udp_inv s \<longleftrightarrow>
     (finite (dom (us_associations s)) \<and> card (dom (us_associations s)) \<le> maxUDPAssociations) \<and>
     (\<forall>a. length (us_queue s a) \<le> udpPacketQueueDepth) \<and>
     (\<forall>k a. us_associations s k = Some a \<longleftrightarrow> a \<in> us_running s \<and> us_key s a = Some k) \<and>
     (\<forall>a\<in>us_running s. us_key s a \<noteq> None) \<and>
     (\<forall>a. us_next s \<le> a \<longrightarrow> us_key s a = None \<and> us_queue s a = [] \<and> us_taken s a = []) \<and>
     (\<forall>a k. us_key s a = Some k \<longrightarrow> subseq (us_taken s a @ us_queue s a @ pending_for s a) (packets_from k (us_arrived s))) \<and>
     (\<forall>a p. us_pending s = Some (a, p) \<longrightarrow> us_key s a \<noteq> None)"

lemma udp_invI:
  assumes "finite (dom (us_associations s)) \<and> card (dom (us_associations s)) \<le> maxUDPAssociations"
    and "\<And>a. length (us_queue s a) \<le> udpPacketQueueDepth"
    and "\<And>k a. us_associations s k = Some a \<longleftrightarrow> a \<in> us_running s \<and> us_key s a = Some k"
    and "\<And>a. a \<in> us_running s \<Longrightarrow> us_key s a \<noteq> None"
    and "\<And>a. us_next s \<le> a \<Longrightarrow> us_key s a = None \<and> us_queue s a = [] \<and> us_taken s a = []"
    and "\<And>a k. us_key s a = Some k \<Longrightarrow> subseq (us_taken s a @ us_queue s a @ pending_for s a) (packets_from k (us_arrived s))"
    and "\<And>a p. us_pending s = Some (a, p) \<Longrightarrow> us_key s a \<noteq> None"
  shows "udp_inv s"
  unfolding udp_inv_def using assms by blast

lemma udp_invD:
  assumes "udp_inv s"
  shows "finite (dom (us_associations s)) \<and> card (dom (us_associations s)) \<le> maxUDPAssociations"
    and "length (us_queue s a) \<le> udpPacketQueueDepth"
    and "us_associations s k = Some a \<longleftrightarrow> a \<in> us_running s \<and> us_key s a = Some k"
    and "a \<in> us_running s \<Longrightarrow> us_key s a \<noteq> None"
    and "us_next s \<le> a \<Longrightarrow> us_key s a = None \<and> us_queue s a = [] \<and> us_taken s a = []"
    and "us_key s a = Some k \<Longrightarrow> subseq (us_taken s a @ us_queue s a @ pending_for s a) (packets_from k (us_arrived s))"
    and "us_pending s = Some (a, p) \<Longrightarrow> us_key s a \<noteq> None"
  using assms unfolding udp_inv_def by blast+

lemma packets_from_snoc: "packets_from k (xs @ [(k', p)]) = packets_from k xs @ (if k' = k then [p] else [])"
  by (simp add: packets_from_def)

lemma subseq_snoc: "subseq xs ys \<Longrightarrow> subseq xs (ys @ zs)"
  by (simp add: list_emb_append_mono subseq_rev_drop_many)

lemma subseq_appendD: "subseq (xs @ ys) zs \<Longrightarrow> subseq xs zs"
  by (rule subseq_order.trans [OF prefix_imp_subseq]) auto

lemma udp_inv_start: "udp_inv udp_start"
  by (rule udp_invI) (simp_all add: udp_start_def pending_for_def)

lemma udp_inv_finish:
  assumes inv: "udp_inv s" and run: "a \<in> us_running s" and key: "us_key s a = Some key"
  shows "udp_inv (udp_finish a key s)"
proof -
  note D = udp_invD [OF inv]
  have as: "us_associations s key = Some a" using D(3) run key by blast
  have e: "udp_finish a key s = s\<lparr>us_associations := (us_associations s)(key := None), us_running := us_running s - {a},
      us_cancelled := insert a (us_cancelled s)\<rparr>" by (simp add: udp_finish_def as)
  show ?thesis unfolding e
  proof (rule udp_invI, goal_cases)
    case 1
    have "card (dom (us_associations s) - {key}) \<le> card (dom (us_associations s))" using D(1) by (simp add: card_Diff1_le)
    then show ?case using D(1) by (simp add: dom_fun_upd)
  next
    case (3 k b)
    show ?case using D(3) [of k b] D(3) [of key b] as by (auto simp: key)
  next
    case (6 b k)
    then show ?case using D(6) [of b k] by (simp add: pending_for_def)
  qed (use D in \<open>simp_all add: pending_for_def\<close>)
qed

lemma udp_inv_arrived:
  assumes inv: "udp_inv s"
  shows "udp_inv (s\<lparr>us_arrived := us_arrived s @ [(key, payload)]\<rparr>)"
proof -
  note D = udp_invD [OF inv]
  show ?thesis
  proof (rule udp_invI, goal_cases)
    case (6 a k)
    then show ?case using subseq_snoc [OF D(6) [of a k]] by (simp add: pending_for_def packets_from_snoc)
  qed (use D in simp_all)
qed

lemma udp_inv_found:
  assumes inv: "udp_inv s" and none: "us_pending s = None" and found: "us_associations s key = Some a"
  shows "udp_inv (s\<lparr>us_arrived := us_arrived s @ [(key, payload)], us_pending := Some (a, payload)\<rparr>)"
proof -
  note D = udp_invD [OF inv]
  have key: "us_key s a = Some key" using D(3) found by blast
  show ?thesis
  proof (rule udp_invI, goal_cases)
    case (6 b k)
    then have sub: "subseq (us_taken s b @ us_queue s b) (packets_from k (us_arrived s))"
      using D(6) [of b k] none by (simp add: pending_for_def)
    show ?case
    proof (cases "b = a")
      case True
      then have "k = key" using 6 key by simp
      then show ?thesis using list_emb_append_mono [OF sub, of "[payload]" "[payload]"] True by (simp add: pending_for_def packets_from_snoc)
    next
      case False
      then show ?thesis using subseq_snoc [OF sub] by (simp add: pending_for_def packets_from_snoc)
    qed
  next
    case (7 b p)
    then show ?case using key by auto
  qed (use D in simp_all)
qed

lemma udp_inv_create:
  assumes inv: "udp_inv s" and none: "us_associations s key = None" and room: "card (dom (us_associations s)) < maxUDPAssociations"
  shows "udp_inv (s\<lparr>us_associations := (us_associations s)(key \<mapsto> us_next s), us_key := (us_key s)(us_next s \<mapsto> key),
    us_running := insert (us_next s) (us_running s), us_next := Suc (us_next s)\<rparr>)"
proof -
  note D = udp_invD [OF inv]
  have fresh: "us_key s (us_next s) = None" "us_queue s (us_next s) = []" "us_taken s (us_next s) = []" "us_next s \<notin> us_running s"
    using D(5) [of "us_next s"] D(4) [of "us_next s"] by auto
  have nopend: "pending_for s (us_next s) = []"
    using D(7) fresh(1) by (auto simp: pending_for_def split: option.split)
  show ?thesis
  proof (rule udp_invI, goal_cases)
    case 1
    have "card (insert key (dom (us_associations s))) = Suc (card (dom (us_associations s)))"
      using D(1) none by (intro card_insert_disjoint) (auto simp: dom_def)
    then show ?case using D(1) room by simp
  next
    case (3 k a)
    show ?case using D(3) [of k a] D(3) [of key a] D(3) [of k "us_next s"] fresh none by auto
  next
    case (4 a)
    then show ?case using D(4) [of a] by auto
  next
    case (6 a k)
    show ?case
    proof (cases "a = us_next s")
      case True
      then show ?thesis using nopend fresh by (simp add: pending_for_def)
    next
      case False
      then show ?thesis using 6 D(6) [of a k] by (simp add: pending_for_def)
    qed
  next
    case (7 a p)
    then show ?case using D(7) [of a p] by auto
  qed (use D in simp_all)
qed

lemma udp_inv_receive:
  assumes inv: "udp_inv s" and none: "us_pending s = None"
  shows "udp_inv (udp_receive key payload s)"
proof (cases "us_associations s key")
  case (Some a)
  then show ?thesis using udp_inv_found [OF inv none Some] by (simp add: udp_receive_def)
next
  case None
  show ?thesis
  proof (cases "maxUDPAssociations \<le> card (dom (us_associations s))")
    case True
    then show ?thesis using None udp_inv_arrived [OF inv] by (simp add: udp_receive_def)
  next
    case False
    let ?s = "s\<lparr>us_associations := (us_associations s)(key \<mapsto> us_next s), us_key := (us_key s)(us_next s \<mapsto> key),
      us_running := insert (us_next s) (us_running s), us_next := Suc (us_next s)\<rparr>"
    have "udp_inv ?s" by (rule udp_inv_create [OF inv None]) (use False in simp)
    then have "udp_inv (?s\<lparr>us_arrived := us_arrived ?s @ [(key, payload)], us_pending := Some (us_next s, payload)\<rparr>)"
      by (rule udp_inv_found) (use none in simp_all)
    moreover have "udp_receive key payload s = ?s\<lparr>us_arrived := us_arrived ?s @ [(key, payload)], us_pending := Some (us_next s, payload)\<rparr>"
      using None False by (simp add: udp_receive_def Let_def)
    ultimately show ?thesis by simp
  qed
qed

lemma udp_inv_enqueue:
  assumes inv: "udp_inv s" and pend: "us_pending s = Some (a, payload)"
  shows "udp_inv (udp_enqueue a payload s)"
proof -
  note D = udp_invD [OF inv]
  have a: "a < us_next s" using D(5) [of a] D(7) [OF pend] by (meson not_le)
  show ?thesis
  proof (cases "length (us_queue s a) < udpPacketQueueDepth")
    case True
    then have e: "udp_enqueue a payload s = s\<lparr>us_queue := (us_queue s)(a := us_queue s a @ [payload]), us_pending := None\<rparr>"
      by (simp add: udp_enqueue_def)
    show ?thesis unfolding e
    proof (rule udp_invI, goal_cases)
      case (2 b)
      then show ?case using D(2) [of b] True by simp
    next
      case (5 b)
      then show ?case using D(5) [of b] a by auto
    next
      case (6 b k)
      then show ?case using D(6) [of b k] pend by (cases "b = a") (simp_all add: pending_for_def)
    qed (use D in simp_all)
  next
    case False
    then have e: "udp_enqueue a payload s = s\<lparr>us_pending := None\<rparr>" by (simp add: udp_enqueue_def)
    show ?thesis unfolding e
    proof (rule udp_invI, goal_cases)
      case (6 b k)
      then have "subseq (us_taken s b @ us_queue s b @ pending_for s b) (packets_from k (us_arrived s))" using D(6) by simp
      then have "subseq (us_taken s b @ us_queue s b) (packets_from k (us_arrived s))"
        using subseq_appendD [of "us_taken s b @ us_queue s b"] by simp
      then show ?case by (simp add: pending_for_def)
    qed (use D in simp_all)
  qed
qed

lemma udp_inv_take:
  assumes inv: "udp_inv s" and run: "a \<in> us_running s"
  shows "udp_inv (udp_take a s)"
proof (cases "us_queue s a")
  case (Cons p q)
  note D = udp_invD [OF inv]
  have a: "a < us_next s" using D(5) [of a] D(4) [OF run] by (meson not_le)
  have e: "udp_take a s = s\<lparr>us_queue := (us_queue s)(a := q), us_taken := (us_taken s)(a := us_taken s a @ [p])\<rparr>"
    by (simp add: udp_take_def Cons)
  show ?thesis unfolding e
  proof (rule udp_invI, goal_cases)
    case (2 b)
    then show ?case using D(2) [of b] D(2) [of a] Cons by simp
  next
    case (5 b)
    then show ?case using D(5) [of b] a by auto
  next
    case (6 b k)
    then show ?case using D(6) [of b k] Cons by (cases "b = a") (simp_all add: pending_for_def)
  qed (use D in simp_all)
qed (use inv in \<open>simp add: udp_take_def\<close>)

lemma udp_inv_close: "udp_inv s \<Longrightarrow> udp_inv (udp_close s)"
  unfolding udp_inv_def udp_close_def pending_for_def by simp

interpretation udp_system: invariant_system udp_step "\<lambda>s. s = udp_start" udp_inv
proof
  show "udp_inv s'" if "udp_inv s" "udp_step s s'" for s s'
    using that(2)
    by (cases rule: udp_stepE) (use that(1) udp_inv_receive udp_inv_enqueue udp_inv_take udp_inv_finish udp_inv_close in auto)
qed (simp add: udp_inv_start)

lemma udp_running_bounded:
  assumes "udp_inv s"
  shows "finite (us_running s)" and "card (us_running s) \<le> maxUDPAssociations"
proof -
  note D = udp_invD [OF assms]
  have sub: "us_running s \<subseteq> (\<lambda>k. the (us_associations s k)) ` dom (us_associations s)"
  proof
    fix a assume "a \<in> us_running s"
    then obtain k where "us_associations s k = Some a" using D(3,4) by blast
    then show "a \<in> (\<lambda>k. the (us_associations s k)) ` dom (us_associations s)" by force
  qed
  have fin: "finite ((\<lambda>k. the (us_associations s k)) ` dom (us_associations s))" using D(1) by simp
  then show "finite (us_running s)" using sub finite_subset by blast
  have "card (us_running s) \<le> card ((\<lambda>k. the (us_associations s k)) ` dom (us_associations s))" by (rule card_mono [OF fin sub])
  also have "\<dots> \<le> card (dom (us_associations s))" by (rule card_image_le) (use D(1) in simp)
  finally show "card (us_running s) \<le> maxUDPAssociations" using D(1) by simp
qed

text \<open>
  C23: the local UDP side keeps its sources apart and bounded. Under every interleaving at most 256
  associations run, each for another source, no channel holds more than 256 packets, and the
  packets that an association takes to its stream are packets of its own source, in the order of
  their arrival, each at most once.
\<close>

theorem udp_isolation:
  assumes "udp_step\<^sup>*\<^sup>* udp_start s"
  shows "card (us_running s) \<le> 256 \<and> inj_on (us_key s) (us_running s) \<and> length (us_queue s a) \<le> 256 \<and>
    (us_key s a = Some key \<longrightarrow> subseq (us_taken s a) (packets_from key (us_arrived s)))"
proof -
  have inv: "udp_inv s" by (rule udp_system.reachable_inv [OF refl assms])
  note D = udp_invD [OF inv]
  have "inj_on (us_key s) (us_running s)"
  proof (rule inj_onI)
    fix b c assume r: "b \<in> us_running s" "c \<in> us_running s" "us_key s b = us_key s c"
    then obtain k where "us_key s b = Some k" using D(4) by blast
    then have "us_associations s k = Some b" "us_associations s k = Some c" using D(3) r by auto
    then show "b = c" by simp
  qed
  moreover have "subseq (us_taken s a) (packets_from key (us_arrived s))" if "us_key s a = Some key"
    using subseq_appendD [OF D(6) [OF that]] .
  ultimately show ?thesis using udp_running_bounded(2) [OF inv] D(2) [of a] by (simp add: maxUDPAssociations_def udpPacketQueueDepth_def)
qed

section \<open>From a source to the target\<close>

lemma udp_pump_frames:
  assumes "list_all fits_datagram ps" and "avail r = concat (map datagram_frame ps)" and "pc_plan c = []"
  shows "\<exists>r' e. udp_pump r c = (r', c\<lparr>pc_packets := pc_packets c @ ps\<rparr>, PumpFrame (ReadHeader (rd_end r)))"
  using assms
proof (induction ps arbitrary: r c)
  case Nil
  have "\<exists>r'. ReadFull r 2 = (r', Inl (rd_end r))" using ReadFull_short [of r 2] Nil.prems(2) by (auto simp: short_error_def)
  then show ?case by (subst udp_pump.simps) (auto simp: ReadDatagram_def HeaderLength_def)
next
  case (Cons p ps)
  obtain r1 where r1: "ReadDatagram r = (r1, Inr p)" "avail r1 = concat (map datagram_frame ps)" "rd_end r1 = rd_end r"
    using ReadDatagram_frame [of p r "concat (map datagram_frame ps)"] Cons.prems by auto
  let ?c = "c\<lparr>pc_packets := pc_packets c @ [p]\<rparr>"
  have w: "writePacket c p = (?c, None)" using Cons.prems(3) by (simp add: writePacket_def conn_Write_def)
  obtain r' where "udp_pump r1 ?c = (r', ?c\<lparr>pc_packets := pc_packets ?c @ ps\<rparr>, PumpFrame (ReadHeader (rd_end r1)))"
    using Cons.IH [OF _ r1(2), of ?c] Cons.prems by auto
  then show ?case using r1 w by (subst udp_pump.simps) simp
qed

text \<open>
  datagrams cross the tunnel whole and in order. What an association took from its channel and
  wrote to a stream that accepts data arrives at the target as exactly these packets, none
  merged, split or reordered, however both ends cut the byte stream; so the target sees a
  subsequence of the packets that the source sent.
\<close>

theorem udp_end_to_end:
  assumes "udp_step\<^sup>*\<^sup>* udp_start s" and "us_key s a = Some key" and "\<And>p. p \<in> set (us_taken s a) \<Longrightarrow> length p \<le> 65535"
    and "productive w" and "wr_sink w = []" and "pc_plan c = []" and "pc_packets c = []"
  shows "\<exists>w'. write_many WriteDatagram w (us_taken s a) = (w', None) \<and>
    (\<forall>r. avail r = wr_sink w' \<longrightarrow> (\<exists>r' c'. udp_pump r c = (r', c', PumpFrame (ReadHeader (rd_end r))) \<and>
       pc_packets c' = us_taken s a \<and> subseq (pc_packets c') (packets_from key (us_arrived s))))"
proof -
  have fits: "list_all fits_datagram (us_taken s a)" using assms(3) by (simp add: list_all_iff fits_datagram_def)
  obtain w' where w': "write_many WriteDatagram w (us_taken s a) = (w', None)" "wr_sink w' = concat (map datagram_frame (us_taken s a))"
    using datagram.write_many_frames [OF fits assms(4)] assms(5) by auto
  have inv: "udp_inv s" by (rule udp_system.reachable_inv [OF refl assms(1)])
  have "subseq (us_taken s a) (packets_from key (us_arrived s))"
    using subseq_appendD [OF udp_invD(6) [OF inv assms(2)]] .
  then have "\<exists>r' c'. udp_pump r c = (r', c', PumpFrame (ReadHeader (rd_end r))) \<and> pc_packets c' = us_taken s a \<and>
      subseq (pc_packets c') (packets_from key (us_arrived s))" if "avail r = wr_sink w'" for r
    using udp_pump_frames [OF fits _ assms(6), of r] that w'(2) assms(7) by auto
  with w'(1) show ?thesis by blast
qed

section \<open>When a bridge ends\<close>

lemma wait_bridge_idle:
  assumes "wait_bridge idleTimeout since events = Some (BridgeIdle, reset)"
  shows "0 < idleTimeout \<and> \<not> reset \<and> (\<exists>active now event later. events = active @ (now, event) # later \<and>
    list_all (\<lambda>(t, e). e = Activity) active \<and> last (since # map fst active) + idleTimeout < now)"
  using assms
proof (induction idleTimeout since events rule: wait_bridge.induct)
  case (2 idleTimeout since now event events)
  show ?case
  proof (cases "0 < idleTimeout \<and> since + idleTimeout < now")
    case True
    then show ?thesis using "2.prems" by (auto intro!: exI [of _ "[]"])
  next
    case False
    then have e: "event = Activity" "wait_bridge idleTimeout now events = Some (BridgeIdle, reset)"
      using "2.prems" by (auto split: bridge_event.splits option.splits if_splits)
    from "2.IH" [OF False e] obtain active t ev later where "0 < idleTimeout" "\<not> reset" "events = active @ (t, ev) # later"
      "list_all (\<lambda>(t, e). e = Activity) active" "last (now # map fst active) + idleTimeout < t" by blast
    then show ?thesis using e(1) by (intro conjI exI [of _ "(now, event) # active"] exI [of _ t] exI [of _ ev] exI [of _ later]) auto
  qed
qed simp

text \<open>
  A bridge ends for idleness only after a silence longer than the timeout, and then the stream
  is not reset but closed.
\<close>

theorem bridge_idle_after_silence:
  assumes "waitForDatagramBridge idleTimeout start events = Some (BridgeIdle, reset)"
  shows "0 < idleTimeout \<and> \<not> reset \<and> (\<exists>active now event later. events = active @ (now, event) # later \<and>
    list_all (\<lambda>(t, e). e = Activity) active \<and> last (start # map fst active) + idleTimeout < now)"
  using wait_bridge_idle assms unfolding waitForDatagramBridge_def by blast

section \<open>Instances\<close>

definition sample_udp_state :: udp_state where
  "sample_udp_state = udp_take 0 (udp_enqueue 0 [7] (udp_receive ''k'' [7] udp_start))"

lemma sample_udp_reachable: "udp_step\<^sup>*\<^sup>* udp_start sample_udp_state"
proof -
  have 1: "udp_step udp_start (udp_receive ''k'' [7] udp_start)" by (rule step_receive) (simp_all add: udp_start_def)
  have 2: "udp_step (udp_receive ''k'' [7] udp_start) (udp_enqueue 0 [7] (udp_receive ''k'' [7] udp_start))"
    by (rule step_enqueue) (simp add: udp_start_def udp_receive_def maxUDPAssociations_def Let_def)
  have 3: "udp_step (udp_enqueue 0 [7] (udp_receive ''k'' [7] udp_start)) sample_udp_state"
    unfolding sample_udp_state_def
    by (rule step_take) (simp add: udp_start_def udp_receive_def udp_enqueue_def udpPacketQueueDepth_def maxUDPAssociations_def Let_def)
  show ?thesis using 1 2 3 by (meson rtranclp.rtrancl_into_rtrancl rtranclp.rtrancl_refl)
qed

lemma sample_udp_values: "us_key sample_udp_state 0 = Some ''k''" "us_taken sample_udp_state 0 = [[7]]" "us_arrived sample_udp_state = [(''k'', [7])]"
  by (simp_all add: sample_udp_state_def udp_start_def udp_receive_def udp_enqueue_def udp_take_def udpPacketQueueDepth_def maxUDPAssociations_def Let_def)

theorem udp_isolation_witness:
  "us_taken sample_udp_state 0 = [[7]] \<and> subseq (us_taken sample_udp_state 0) (packets_from ''k'' (us_arrived sample_udp_state))"
  using udp_isolation [OF sample_udp_reachable, of 0 "''k''"] sample_udp_values by simp

theorem udp_end_to_end_witness:
  "\<exists>w'. write_many WriteDatagram \<lparr>wr_sink = [], wr_plan = [(1, None), (1, None)]\<rparr> [[7]] = (w', None) \<and>
     (\<exists>r' c'. udp_pump \<lparr>rd_chunks = [wr_sink w'], rd_end = EOF\<rparr> \<lparr>pc_packets = [], pc_plan = []\<rparr> = (r', c', PumpFrame (ReadHeader EOF)) \<and>
        pc_packets c' = [[7]])"
proof -
  let ?w = "\<lparr>wr_sink = [], wr_plan = [(1, None), (1, None)]\<rparr> :: writer" and ?c = "\<lparr>pc_packets = [], pc_plan = []\<rparr> :: packet_conn"
  have "\<exists>w'. write_many WriteDatagram ?w (us_taken sample_udp_state 0) = (w', None) \<and>
    (\<forall>r. avail r = wr_sink w' \<longrightarrow> (\<exists>r' c'. udp_pump r ?c = (r', c', PumpFrame (ReadHeader (rd_end r))) \<and>
       pc_packets c' = us_taken sample_udp_state 0 \<and> subseq (pc_packets c') (packets_from ''k'' (us_arrived sample_udp_state))))"
    by (rule udp_end_to_end [OF sample_udp_reachable sample_udp_values(1)]) (simp_all add: sample_udp_values productive_def)
  then obtain w' where w': "write_many WriteDatagram ?w [[7]] = (w', None)" and
    R: "\<And>r. avail r = wr_sink w' \<Longrightarrow> \<exists>r' c'. udp_pump r ?c = (r', c', PumpFrame (ReadHeader (rd_end r))) \<and> pc_packets c' = [[7]]"
    unfolding sample_udp_values by blast
  show ?thesis using w' R [of "\<lparr>rd_chunks = [wr_sink w'], rd_end = EOF\<rparr>"] by (auto simp: avail_def simp del: write_many.simps)
qed

end
