(* ===== verification/Bridge.thy ===== *)
theory Bridge
  imports Go_IO "HOL-Library.Sublist"
begin

text \<open>
  Connecting a stream with local input and output: \<open>Bridge\<close> of \<open>src/session/session.go\<close> and
  \<open>bridgeBuffered\<close> of \<open>src/session/forwarding.go\<close>. The two copying goroutines and the loop that waits
  for them interleave in any order, as a step relation; what a writer accepts, when the context
  ends and when the inactivity timer fires is chosen by the environment.
\<close>

section \<open>The two directions\<close>

datatype side = Sending | Receiving

text \<open>
  A direction copies the chunks \<open>cp_source\<close> that its source still delivers before the source returns
  \<open>cp_end\<close>. \<open>CopyReturned\<close> is the time from the return of the copy to the half-close, with the
  quit delay of the sending direction.
\<close>

datatype copy_stage = Copying | CopyReturned "io_error option" | CopyReported "io_error option"

record copier =
  cp_source :: "bytes list"
  cp_end :: io_error
  cp_written :: bytes
  cp_stage :: copy_stage
  cp_halfClosed :: bool

text \<open>One round of \<open>io.Copy\<close>: the writer takes \<open>n\<close> bytes of the next chunk and returns \<open>err\<close>.\<close>

definition copy_return :: "copier \<Rightarrow> io_error option" where
  "copy_return c = (if cp_end c = EOF then None else Some (cp_end c))"

definition copy_round :: "nat \<Rightarrow> io_error option \<Rightarrow> copier \<Rightarrow> copier" where
  "copy_round n err c =
     (case cp_source c of
        [] \<Rightarrow> c\<lparr>cp_stage := CopyReturned (copy_return c)\<rparr>
      | chunk # rest \<Rightarrow>
          (let c' = c\<lparr>cp_source := rest, cp_written := cp_written c @ take n chunk\<rparr>
           in case err of
                Some e \<Rightarrow> c'\<lparr>cp_stage := CopyReturned (Some e)\<rparr>
              | None \<Rightarrow> if n < length chunk then c'\<lparr>cp_stage := CopyReturned (Some ErrShortWrite)\<rparr> else c'))"

section \<open>The bridge\<close>

datatype bridge_end = BridgeOK | BridgeContext | BridgeInactive | BridgeError io_error

text \<open>\<open>Plain\<close> is \<open>Bridge\<close>, \<open>Buffered\<close> is \<open>bridgeBuffered\<close>; \<open>br_outputCloses\<close> tells whether the output has a \<open>CloseWrite\<close>.\<close>

datatype bridge_kind = Plain | Buffered

record bridge =
  br_kind :: bridge_kind
  br_outputCloses :: bool
  br_inactivity :: bool
  br_copier :: "side \<Rightarrow> copier"
  br_errors :: "io_error option list"
  br_completed :: nat
  br_result :: "bridge_end option"
  br_reset :: bool

definition start_copier :: "bytes list \<Rightarrow> io_error \<Rightarrow> copier" where
  "start_copier chunks err = \<lparr>cp_source = chunks, cp_end = err, cp_written = [], cp_stage = Copying, cp_halfClosed = False\<rparr>"

definition bridge_start :: "bridge_kind \<Rightarrow> bool \<Rightarrow> bool \<Rightarrow> (side \<Rightarrow> bytes list) \<Rightarrow> (side \<Rightarrow> io_error) \<Rightarrow> bridge" where
  "bridge_start kind closes inactivity chunks ends =
     \<lparr>br_kind = kind, br_outputCloses = closes, br_inactivity = inactivity, br_copier = \<lambda>s. start_copier (chunks s) (ends s),
      br_errors = [], br_completed = 0, br_result = None, br_reset = False\<rparr>"

definition bridge_copy :: "side \<Rightarrow> nat \<Rightarrow> io_error option \<Rightarrow> bridge \<Rightarrow> bridge" where
  "bridge_copy s n err b = b\<lparr>br_copier := (br_copier b)(s := copy_round n err (br_copier b s))\<rparr>"

text \<open>The end of a goroutine: half-close, then the report to \<open>errorsCh\<close>.\<close>

definition report_error :: "bridge_kind \<Rightarrow> io_error option \<Rightarrow> io_error option \<Rightarrow> io_error option" where
  "report_error kind err closeErr = (case kind of Plain \<Rightarrow> if err = None then closeErr else err | Buffered \<Rightarrow> err)"

definition bridge_finish :: "side \<Rightarrow> io_error option \<Rightarrow> io_error option \<Rightarrow> bridge \<Rightarrow> bridge" where
  "bridge_finish s err closeErr b =
     (let closes = s = Sending \<or> br_outputCloses b;
          report = (if closes then report_error (br_kind b) err closeErr else err)
      in b\<lparr>br_copier := (br_copier b)(s := (br_copier b s)\<lparr>cp_stage := CopyReported report, cp_halfClosed := closes\<rparr>),
           br_errors := br_errors b @ [report]\<rparr>)"

text \<open>The loop receives a report.\<close>

definition bridge_collect :: "io_error option \<Rightarrow> bridge \<Rightarrow> bridge" where
  "bridge_collect err b =
     (let b1 = b\<lparr>br_errors := tl (br_errors b), br_completed := Suc (br_completed b)\<rparr>;
          b2 = (if br_completed b1 < 2 then b1 else b1\<lparr>br_result := Some BridgeOK\<rparr>)
      in case (br_kind b, err) of
           (Plain, Some e) \<Rightarrow> if e = EOF then b2 else b1\<lparr>br_reset := True, br_result := Some (BridgeError e)\<rparr>
         | (Buffered, Some e) \<Rightarrow> b1\<lparr>br_result := Some (BridgeError e)\<rparr>
         | (_, None) \<Rightarrow> b2)"

definition bridge_abort :: "bridge_end \<Rightarrow> bridge \<Rightarrow> bridge" where
  "bridge_abort result b = b\<lparr>br_reset := True, br_result := Some result\<rparr>"

text \<open>A reset stream stops delivering.\<close>

definition bridge_broken :: "io_error \<Rightarrow> bridge \<Rightarrow> bridge" where
  "bridge_broken e b = b\<lparr>br_copier := (br_copier b)(Receiving := (br_copier b Receiving)\<lparr>cp_source := [], cp_end := e\<rparr>)\<rparr>"

inductive bridge_step :: "bridge \<Rightarrow> bridge \<Rightarrow> bool" where
  bridge_copies: "cp_stage (br_copier b s) = Copying \<Longrightarrow> bridge_step b (bridge_copy s n err b)"
| bridge_finishes: "cp_stage (br_copier b s) = CopyReturned err \<Longrightarrow> bridge_step b (bridge_finish s err closeErr b)"
| bridge_collects: "br_result b = None \<Longrightarrow> br_errors b = err # rest \<Longrightarrow> bridge_step b (bridge_collect err b)"
| bridge_cancelled: "br_result b = None \<Longrightarrow> bridge_step b (bridge_abort BridgeContext b)"
| bridge_inactive: "br_result b = None \<Longrightarrow> br_inactivity b \<Longrightarrow> br_kind b = Plain \<Longrightarrow> bridge_step b (bridge_abort BridgeInactive b)"
| bridge_breaks: "br_reset b \<Longrightarrow> bridge_step b (bridge_broken e b)"

section \<open>The invariant\<close>

text \<open>
  What a direction has written is a prefix of what its source gave; it has written everything when its copy
  returned without an error. The reports are those of the finished directions, and the loop
  has received \<open>br_completed\<close> of them.
\<close>

definition within :: "bytes list \<Rightarrow> copier \<Rightarrow> bool" where
  "within chunks c \<longleftrightarrow> prefix (cp_written c) (concat chunks) \<and>
     (cp_stage c = Copying \<longrightarrow> prefix (cp_written c @ concat (cp_source c)) (concat chunks))"

definition copier_ok :: "bytes list \<Rightarrow> io_error \<Rightarrow> copier \<Rightarrow> bool" where
  "copier_ok chunks err c \<longleftrightarrow>
     (cp_stage c = Copying \<longrightarrow> cp_written c @ concat (cp_source c) = concat chunks \<and> cp_end c = err) \<and>
     (cp_stage c \<in> {CopyReturned None, CopyReported None} \<longrightarrow> cp_written c = concat chunks \<and> err = EOF)"

definition acceptable :: "bridge_kind \<Rightarrow> io_error option \<Rightarrow> bool" where
  "acceptable kind err \<longleftrightarrow> err = None \<or> kind = Plain \<and> err = Some EOF"

definition reported :: "bridge \<Rightarrow> side set" where
  "reported b = {s. \<exists>err. cp_stage (br_copier b s) = CopyReported err}"

definition bridge_inv :: "bridge_kind \<Rightarrow> bool \<Rightarrow> (side \<Rightarrow> bytes list) \<Rightarrow> (side \<Rightarrow> io_error) \<Rightarrow> bridge \<Rightarrow> bool" where
  "bridge_inv kind closes chunks ends b \<longleftrightarrow>
     (br_kind b = kind \<and> br_outputCloses b = closes) \<and>
     (\<forall>s. within (chunks s) (br_copier b s)) \<and>
     (\<not> br_reset b \<longrightarrow> (\<forall>s. copier_ok (chunks s) (ends s) (br_copier b s))) \<and>
     (\<forall>s\<in>reported b. cp_halfClosed (br_copier b s) \<longleftrightarrow> s = Sending \<or> closes) \<and>
     (br_result b = None \<longrightarrow> card (reported b) = br_completed b + length (br_errors b) \<and> \<not> br_reset b \<and>
        (\<forall>s err. cp_stage (br_copier b s) = CopyReported err \<longrightarrow> \<not> acceptable kind err \<longrightarrow> err \<in> set (br_errors b))) \<and>
     (br_result b = Some BridgeOK \<longrightarrow> \<not> br_reset b \<and> (\<forall>s. \<exists>err. cp_stage (br_copier b s) = CopyReported err \<and> acceptable kind err))"

lemma bridge_invI:
  assumes "br_kind b = kind" and "br_outputCloses b = closes"
    and "\<And>s. within (chunks s) (br_copier b s)"
    and "\<And>s. \<not> br_reset b \<Longrightarrow> copier_ok (chunks s) (ends s) (br_copier b s)"
    and "\<And>s. s \<in> reported b \<Longrightarrow> cp_halfClosed (br_copier b s) \<longleftrightarrow> s = Sending \<or> closes"
    and "br_result b = None \<Longrightarrow> card (reported b) = br_completed b + length (br_errors b) \<and> \<not> br_reset b"
    and "\<And>s err. br_result b = None \<Longrightarrow> cp_stage (br_copier b s) = CopyReported err \<Longrightarrow> \<not> acceptable kind err \<Longrightarrow> err \<in> set (br_errors b)"
    and "br_result b = Some BridgeOK \<Longrightarrow> \<not> br_reset b"
    and "\<And>s. br_result b = Some BridgeOK \<Longrightarrow> \<exists>err. cp_stage (br_copier b s) = CopyReported err \<and> acceptable kind err"
  shows "bridge_inv kind closes chunks ends b"
  unfolding bridge_inv_def using assms by blast

lemma bridge_invD:
  assumes "bridge_inv kind closes chunks ends b"
  shows "br_kind b = kind" and "br_outputCloses b = closes"
    and "within (chunks s) (br_copier b s)"
    and "\<not> br_reset b \<Longrightarrow> copier_ok (chunks s) (ends s) (br_copier b s)"
    and "s \<in> reported b \<Longrightarrow> cp_halfClosed (br_copier b s) \<longleftrightarrow> s = Sending \<or> closes"
    and "br_result b = None \<Longrightarrow> card (reported b) = br_completed b + length (br_errors b) \<and> \<not> br_reset b"
    and "br_result b = None \<Longrightarrow> cp_stage (br_copier b s) = CopyReported err \<Longrightarrow> \<not> acceptable kind err \<Longrightarrow> err \<in> set (br_errors b)"
    and "br_result b = Some BridgeOK \<Longrightarrow> \<not> br_reset b"
    and "br_result b = Some BridgeOK \<Longrightarrow> \<exists>err. cp_stage (br_copier b s) = CopyReported err \<and> acceptable kind err"
  using assms unfolding bridge_inv_def by blast+

lemma side_UNIV: "(UNIV :: side set) = {Sending, Receiving}"
  using side.exhaust by blast

lemma finite_UNIV_side [simp]: "finite (UNIV :: side set)"
  by (simp add: side_UNIV)

lemma finite_sides [simp]: "finite (S :: side set)"
  by (rule finite_subset [OF subset_UNIV finite_UNIV_side])

lemma card_UNIV_side: "card (UNIV :: side set) = 2"
  by (simp add: side_UNIV)

lemma card_sides: "card (S :: side set) \<le> 2"
  using card_mono [OF finite_UNIV_side subset_UNIV, of S] by (simp only: card_UNIV_side)

lemma two_sides: "2 \<le> card (S :: side set) \<Longrightarrow> S = UNIV"
  by (rule card_subset_eq) (use card_sides [of S] in \<open>simp_all only: card_UNIV_side finite_UNIV_side subset_UNIV\<close>)

lemma copier_round:
  assumes ok: "copier_ok chunks e c" and stage: "cp_stage c = Copying"
  shows "copier_ok chunks e (copy_round n err c)"
proof (cases "cp_source c")
  case Nil
  with ok stage show ?thesis by (auto simp: copier_ok_def copy_round_def copy_return_def)
next
  case (Cons chunk rest)
  with ok stage show ?thesis
    by (auto simp: copier_ok_def copy_round_def Let_def split: option.splits)
qed

lemma within_round:
  assumes ok: "within chunks c" and stage: "cp_stage c = Copying"
  shows "within chunks (copy_round n err c)"
proof (cases "cp_source c")
  case Nil
  with ok stage show ?thesis by (simp add: within_def copy_round_def)
next
  case (Cons chunk rest)
  have all: "prefix (cp_written c @ chunk @ concat rest) (concat chunks)" using ok stage Cons by (simp add: within_def)
  have "prefix (cp_written c @ take n chunk) (cp_written c @ chunk @ concat rest)" by (simp add: take_is_prefix prefix_prefix)
  then have "prefix (cp_written c @ take n chunk) (concat chunks)" using all by (rule prefix_order.trans)
  with all Cons stage show ?thesis
    by (auto simp: within_def copy_round_def Let_def split: option.splits)
qed

lemma copy_round_not_reported: "cp_stage c = Copying \<Longrightarrow> cp_stage (copy_round n err c) \<noteq> CopyReported r"
  by (simp add: copy_round_def Let_def split: list.split option.split)

lemma bridge_inv_start: "bridge_inv kind closes chunks ends (bridge_start kind closes i chunks ends)"
  by (rule bridge_invI) (simp_all add: bridge_start_def start_copier_def copier_ok_def within_def reported_def)


lemma bridge_inv_copy:
  assumes inv: "bridge_inv kind closes chunks ends b" and stage: "cp_stage (br_copier b s) = Copying"
  shows "bridge_inv kind closes chunks ends (bridge_copy s n err b)"
proof -
  note D = bridge_invD [OF inv]
  have r: "reported (bridge_copy s n err b) = reported b"
    using stage copy_round_not_reported [OF stage] by (auto simp: reported_def bridge_copy_def)
  show ?thesis
  proof (rule bridge_invI, goal_cases)
    case 1 show ?case using D(1) by (simp add: bridge_copy_def)
  next
    case 2 show ?case using D(2) by (simp add: bridge_copy_def)
  next
    case (3 t) show ?case using D(3) [of t] D(3) [of s] within_round [OF _ stage] by (cases "t = s") (simp_all add: bridge_copy_def)
  next
    case (4 t) then show ?case using D(4) [of t] D(4) [of s] copier_round [OF _ stage] by (cases "t = s") (simp_all add: bridge_copy_def)
  next
    case (5 t)
    then have "t \<in> reported b" "t \<noteq> s" using stage by (auto simp: r) (simp add: reported_def)
    then show ?case using D(5) [of t] by (simp add: bridge_copy_def)
  next
    case 6 then show ?case using D(6) unfolding r by (simp add: bridge_copy_def)
  next
    case (7 t err) then show ?case using D(7) [of t err] copy_round_not_reported [OF stage] by (cases "t = s") (simp_all add: bridge_copy_def)
  next
    case 8 then show ?case using D(8) by (simp add: bridge_copy_def)
  next
    case (9 t) then show ?case using D(9) [of s] stage by (simp add: bridge_copy_def)
  qed
qed

lemma bridge_inv_finish:
  assumes inv: "bridge_inv kind closes chunks ends b" and stage: "cp_stage (br_copier b s) = CopyReturned err"
  shows "bridge_inv kind closes chunks ends (bridge_finish s err closeErr b)"
proof -
  note D = bridge_invD [OF inv]
  have s: "s \<notin> reported b" using stage by (simp add: reported_def)
  have r: "reported (bridge_finish s err closeErr b) = insert s (reported b)"
    by (auto simp: reported_def bridge_finish_def Let_def)
  have none: "report = None \<Longrightarrow> err = None" if "report = (if c then report_error k err closeErr else err)" for report c k
    using that by (simp add: report_error_def split: bridge_kind.splits if_splits)
  show ?thesis
  proof (rule bridge_invI, goal_cases)
    case 1 show ?case using D(1) by (simp add: bridge_finish_def Let_def)
  next
    case 2 show ?case using D(2) by (simp add: bridge_finish_def Let_def)
  next
    case (3 t) show ?case using D(3) [of t] by (cases "t = s") (simp_all add: bridge_finish_def Let_def within_def)
  next
    case (4 t) then show ?case
      using D(4) [of t] stage none [OF refl] by (cases "t = s") (simp_all add: bridge_finish_def Let_def copier_ok_def)
  next
    case (5 t) then show ?case using D(5) [of t] D(2) unfolding r by (cases "t = s") (simp_all add: bridge_finish_def Let_def)
  next
    case 6 then show ?case using D(6) s unfolding r by (simp add: bridge_finish_def Let_def)
  next
    case (7 t e) then show ?case using D(7) [of t e] by (cases "t = s") (auto simp: bridge_finish_def Let_def)
  next
    case 8 then show ?case using D(8) by (simp add: bridge_finish_def Let_def)
  next
    case (9 t) then show ?case using D(9) [of s] stage by (simp add: bridge_finish_def Let_def)
  qed
qed

lemma bridge_collect_fields [simp]:
  "br_copier (bridge_collect err b) = br_copier b" "br_kind (bridge_collect err b) = br_kind b"
  "br_outputCloses (bridge_collect err b) = br_outputCloses b" "reported (bridge_collect err b) = reported b"
  "br_errors (bridge_collect err b) = tl (br_errors b)" "br_completed (bridge_collect err b) = Suc (br_completed b)"
  by (simp_all add: bridge_collect_def Let_def reported_def split: bridge_kind.split option.split)

lemma bridge_collect_result:
  assumes "br_result b = None" and "\<not> br_reset b"
  shows "br_result (bridge_collect err b) =
      (if \<not> acceptable (br_kind b) err then Some (BridgeError (the err)) else if br_completed b = 0 then None else Some BridgeOK)"
    and "br_result (bridge_collect err b) \<in> {None, Some BridgeOK} \<Longrightarrow> \<not> br_reset (bridge_collect err b)"
  using assms by (auto simp: bridge_collect_def Let_def acceptable_def split: bridge_kind.split option.splits if_splits)

lemma bridge_inv_collect:
  assumes inv: "bridge_inv kind closes chunks ends b" and result: "br_result b = None" and errors: "br_errors b = err # rest"
  shows "bridge_inv kind closes chunks ends (bridge_collect err b)"
proof -
  note D = bridge_invD [OF inv]
  have reset: "\<not> br_reset b" using D(6) result by blast
  note R = bridge_collect_result [OF result reset, of err]
  have card: "card (reported b) = Suc (br_completed b + length rest)" using D(6) result errors by simp
  show ?thesis
  proof (rule bridge_invI, goal_cases)
    case 1 show ?case using D(1) by simp
  next
    case 2 show ?case using D(2) by simp
  next
    case (3 t) show ?case using D(3) [of t] by simp
  next
    case (4 t) then show ?case using D(4) [of t] reset by simp
  next
    case (5 t) then show ?case using D(5) [of t] by simp
  next
    case 6 then show ?case using R card errors by simp
  next
    case (7 t e)
    then have "acceptable kind err" using R(1) D(1) by (auto split: if_splits)
    with 7 D(7) [of t e] result errors show ?case by auto
  next
    case 8 then show ?case using R(2) by simp
  next
    case (9 t)
    then have ok: "acceptable kind err" "br_completed b \<noteq> 0" using R(1) D(1) by (auto split: if_splits)
    then have two: "2 \<le> card (reported b)" using card by simp
    then have "t \<in> reported b" using two_sides by blast
    then obtain e where e: "cp_stage (br_copier b t) = CopyReported e" by (auto simp: reported_def)
    have "rest = []" using card card_sides [of "reported b"] ok by (cases rest) auto
    then have "acceptable kind e" using D(7) [OF result e] ok errors by auto
    with e show ?case by simp
  qed
qed

lemma bridge_inv_abort:
  assumes inv: "bridge_inv kind closes chunks ends b" and "result \<noteq> BridgeOK"
  shows "bridge_inv kind closes chunks ends (bridge_abort result b)"
  using bridge_invD(1,2,3,5) [OF inv] assms(2)
  by (intro bridge_invI) (simp_all add: bridge_abort_def reported_def)

lemma bridge_inv_broken:
  assumes inv: "bridge_inv kind closes chunks ends b" and reset: "br_reset b"
  shows "bridge_inv kind closes chunks ends (bridge_broken e b)"
proof -
  note D = bridge_invD [OF inv]
  have r: "reported (bridge_broken e b) = reported b" by (auto simp: reported_def bridge_broken_def)
  have result: "br_result b \<noteq> None" "br_result b \<noteq> Some BridgeOK" using D(6,8) reset by blast+
  show ?thesis
  proof (rule bridge_invI, goal_cases)
    case (3 t) show ?case using D(3) [of t] by (cases "t = Receiving") (simp_all add: bridge_broken_def within_def)
  next
    case (5 t) then show ?case using D(5) [of t] unfolding r by (cases t) (simp_all add: bridge_broken_def)
  qed (use D(1,2) reset result in \<open>simp_all add: bridge_broken_def\<close>)
qed

lemma bridge_inv_step: "bridge_inv kind closes chunks ends b \<Longrightarrow> bridge_step b b' \<Longrightarrow> bridge_inv kind closes chunks ends b'"
  by (erule bridge_step.cases)
     (simp_all add: bridge_inv_copy bridge_inv_finish bridge_inv_collect bridge_inv_abort bridge_inv_broken)


interpretation bridge_system: invariant_system bridge_step "\<lambda>b. b = bridge_start kind closes i chunks ends" "bridge_inv kind closes chunks ends"
  by unfold_locales (simp_all add: bridge_inv_start bridge_inv_step)

section \<open>Progress\<close>

text \<open>Steps in which the writers take what they get, no close fails and nobody aborts.\<close>

inductive quiet_step :: "bridge \<Rightarrow> bridge \<Rightarrow> bool" where
  quiet_copies: "cp_stage (br_copier b s) = Copying \<Longrightarrow> quiet_step b (bridge_copy s (length (concat (cp_source (br_copier b s)))) None b)"
| quiet_finishes: "cp_stage (br_copier b s) = CopyReturned err \<Longrightarrow> quiet_step b (bridge_finish s err None b)"
| quiet_collects: "br_result b = None \<Longrightarrow> br_errors b = err # rest \<Longrightarrow> quiet_step b (bridge_collect err b)"

lemma quiet_is_step: "quiet_step b b' \<Longrightarrow> bridge_step b b'"
  by (erule quiet_step.cases) (auto intro: bridge_step.intros)

text \<open>The work left: chunks, then one step to notice the end, one for the report and one for its receipt.\<close>

fun stage_work :: "copy_stage \<Rightarrow> nat" where
  "stage_work Copying = 3"
| "stage_work (CopyReturned err) = 2"
| "stage_work (CopyReported err) = 0"

definition copier_work :: "copier \<Rightarrow> nat" where
  "copier_work c = length (cp_source c) + stage_work (cp_stage c)"

definition bridge_work :: "bridge \<Rightarrow> nat" where
  "bridge_work b = copier_work (br_copier b Sending) + copier_work (br_copier b Receiving) + length (br_errors b)"

lemma copier_work_round: "cp_stage c = Copying \<Longrightarrow> copier_work (copy_round n err c) < copier_work c"
  by (simp add: copier_work_def copy_round_def Let_def split: list.split option.split)

lemma quiet_step_work: "quiet_step b b' \<Longrightarrow> bridge_work b' < bridge_work b"
proof (induction rule: quiet_step.induct)
  case (quiet_copies b s)
  then show ?case using copier_work_round [OF quiet_copies] by (cases s) (simp_all add: bridge_work_def bridge_copy_def)
next
  case (quiet_finishes b s err)
  then show ?case by (cases s) (simp_all add: bridge_work_def bridge_finish_def Let_def copier_work_def)
next
  case (quiet_collects b err rest)
  then show ?case by (simp add: bridge_work_def)
qed

definition calm :: "bridge \<Rightarrow> bool" where
  "calm b \<longleftrightarrow> (\<forall>s. cp_end (br_copier b s) = EOF \<and> cp_stage (br_copier b s) \<in> {Copying, CopyReturned None, CopyReported None}) \<and>
     set (br_errors b) \<subseteq> {None} \<and> br_result b \<in> {None, Some BridgeOK} \<and> (br_result b = None \<longrightarrow> br_completed b < 2)"

lemma calm_round:
  assumes "cp_end c = EOF" and "cp_stage c = Copying"
  shows "cp_end (copy_round (length (concat (cp_source c))) None c) = EOF"
    and "cp_stage (copy_round (length (concat (cp_source c))) None c) \<in> {Copying, CopyReturned None, CopyReported None}"
  using assms by (simp_all add: copy_round_def copy_return_def Let_def split: list.split)

lemma calm_step: "quiet_step b b' \<Longrightarrow> calm b \<Longrightarrow> calm b'"
proof (induction rule: quiet_step.induct)
  case (quiet_copies b s)
  then show ?case using calm_round [of "br_copier b s"] by (auto simp: calm_def bridge_copy_def)
next
  case (quiet_finishes b s err)
  then have "err = None" unfolding calm_def by (metis copy_stage.distinct(1) copy_stage.distinct(5) copy_stage.inject(1) empty_iff insert_iff)
  with quiet_finishes show ?case
    by (auto simp: calm_def bridge_finish_def Let_def report_error_def split: bridge_kind.split)
next
  case (quiet_collects b err rest)
  then show ?case by (auto simp: calm_def bridge_collect_def Let_def split: bridge_kind.split)
qed

lemma calm_progress:
  assumes calm: "calm b" and inv: "bridge_inv kind closes chunks ends b" and result: "br_result b = None"
  shows "\<exists>b'. quiet_step b b'"
proof (cases "\<exists>s. cp_stage (br_copier b s) \<noteq> CopyReported None")
  case True
  then obtain s where "cp_stage (br_copier b s) \<in> {Copying, CopyReturned None}" using calm unfolding calm_def by blast
  then show ?thesis using quiet_copies quiet_finishes by blast
next
  case False
  then have "reported b = UNIV" by (auto simp: reported_def)
  then have "br_completed b + length (br_errors b) = 2" using bridge_invD(6) [OF inv result] card_UNIV_side by simp
  moreover have "br_completed b < 2" using calm result by (simp add: calm_def)
  ultimately obtain err rest where "br_errors b = err # rest" by (cases "br_errors b") auto
  then show ?thesis using quiet_collects [OF result] by blast
qed

lemma calm_ends:
  assumes "calm b" and "bridge_inv kind closes chunks ends b"
  shows "\<exists>b'. quiet_step\<^sup>*\<^sup>* b b' \<and> br_result b' = Some BridgeOK"
  using assms
proof (induction "bridge_work b" arbitrary: b rule: less_induct)
  case less
  show ?case
  proof (cases "br_result b")
    case None
    then obtain b1 where b1: "quiet_step b b1" using calm_progress [OF less.prems] by blast
    have "calm b1" using calm_step [OF b1] less.prems(1) by simp
    moreover have "bridge_inv kind closes chunks ends b1" using bridge_inv_step [OF less.prems(2)] quiet_is_step [OF b1] .
    ultimately show ?thesis
      using less.hyps [OF quiet_step_work [OF b1]] b1 by (meson converse_rtranclp_into_rtranclp)
  next
    case (Some r)
    then show ?thesis using less.prems(1) by (auto simp: calm_def)
  qed
qed

section \<open>Properties\<close>


text \<open>
  C22: a bridge between sources that end, with writers that take what they get, ends: every step uses up
  work, and no run stops before the bridge has returned without an error.
\<close>

theorem bridge_completes:
  assumes "quiet_step\<^sup>*\<^sup>* (bridge_start kind closes i chunks (\<lambda>s. EOF)) b"
  shows "(\<exists>b'. quiet_step\<^sup>*\<^sup>* b b' \<and> br_result b' = Some BridgeOK) \<and> (\<forall>b'. quiet_step b b' \<longrightarrow> bridge_work b' < bridge_work b)"
proof -
  have "calm (bridge_start kind closes i chunks (\<lambda>s. EOF))" by (simp add: calm_def bridge_start_def start_copier_def)
  with assms have "calm b" by (induction rule: rtranclp_induct) (auto dest: calm_step)
  moreover have "bridge_step\<^sup>*\<^sup>* (bridge_start kind closes i chunks (\<lambda>s. EOF)) b"
    using assms by (rule rtranclp_mono [THEN predicate2D, rotated]) (auto intro: quiet_is_step)
  then have "bridge_inv kind closes chunks (\<lambda>s. EOF) b" using bridge_system.reachable_inv by blast
  ultimately have "\<exists>b'. quiet_step\<^sup>*\<^sup>* b b' \<and> br_result b' = Some BridgeOK" by (rule calm_ends)
  then show ?thesis using quiet_step_work by blast
qed

section \<open>Witnesses\<close>

theorem bridge_completes_witness:
  "\<exists>b. quiet_step\<^sup>*\<^sup>* (bridge_start Plain True False (\<lambda>s. [[1, 2], [3]]) (\<lambda>s. EOF)) b \<and> br_result b = Some BridgeOK"
  using bridge_completes [OF rtranclp.rtrancl_refl] by blast



end
