(* ===== verification/Exec_Session.thy ===== *)
theory Exec_Session
  imports Bridge Go_Files
begin

text \<open>
  \<open>Exec\<close> of \<open>src/session/session.go\<close>: a shell command whose output goes to the stream. The child, the
  two goroutines that copy its output and the goroutine that waits for it interleave in any
  order. The rules for pipes are those of \<open>os/exec\<close>: a reader sees the end when the child
  has exited and the pipe is drained, and \<open>Wait\<close> closes the reading ends once the child has exited.
\<close>

definition shellPath :: "os_host \<Rightarrow> string" where
  "shellPath h = (if os_GOOS h = ''windows'' then ''cmd.exe''
     else if os_Getenv h ''SHELL'' \<noteq> [] then os_Getenv h ''SHELL'' else ''/bin/sh'')"

definition shellArgument :: "os_host \<Rightarrow> string" where
  "shellArgument h = (if os_GOOS h = ''windows'' then ''/C'' else ''-c'')"

definition exec_command :: "os_host \<Rightarrow> string \<Rightarrow> string list" where
  "exec_command h command = [shellPath h, shellArgument h, command]"

datatype child_pipe = Stdout | Stderr

text \<open>
  \<open>ex_produced\<close> is what the child wrote so far, \<open>ex_pipe\<close> what of it is still in the pipe, and \<open>ex_sent\<close>
  the writes to the stream in their order.
\<close>

record exec =
  ex_produced :: "child_pipe \<Rightarrow> bytes"
  ex_pipe :: "child_pipe \<Rightarrow> bytes"
  ex_copied :: "child_pipe set"
  ex_sent :: "(child_pipe \<times> bytes) list"
  ex_exited :: bool
  ex_waited :: bool
  ex_returned :: bool

definition exec_start :: exec where
  "exec_start = \<lparr>ex_produced = \<lambda>p. [], ex_pipe = \<lambda>p. [], ex_copied = {}, ex_sent = [], ex_exited = False, ex_waited = False, ex_returned = False\<rparr>"

definition copyBuffer :: nat where "copyBuffer = 32 * 1024"

definition child_write :: "child_pipe \<Rightarrow> bytes \<Rightarrow> exec \<Rightarrow> exec" where
  "child_write p bs x = x\<lparr>ex_produced := (ex_produced x)(p := ex_produced x p @ bs), ex_pipe := (ex_pipe x)(p := ex_pipe x p @ bs)\<rparr>"

text \<open>One round of \<open>copyOutput\<close> that reads \<open>n\<close> bytes, and its end.\<close>

definition copy_output :: "child_pipe \<Rightarrow> nat \<Rightarrow> exec \<Rightarrow> exec" where
  "copy_output p n x = x\<lparr>ex_sent := ex_sent x @ [(p, take n (ex_pipe x p))], ex_pipe := (ex_pipe x)(p := drop n (ex_pipe x p))\<rparr>"

inductive exec_step :: "exec \<Rightarrow> exec \<Rightarrow> bool" where
  child_writes: "\<not> ex_exited x \<Longrightarrow> exec_step x (child_write p bs x)"
| child_exits: "\<not> ex_exited x \<Longrightarrow> exec_step x (x\<lparr>ex_exited := True\<rparr>)"
| output_read: "p \<notin> ex_copied x \<Longrightarrow> \<not> ex_waited x \<Longrightarrow> 0 < n \<Longrightarrow> n \<le> copyBuffer \<Longrightarrow> n \<le> length (ex_pipe x p) \<Longrightarrow>
    exec_step x (copy_output p n x)"
| output_ended: "p \<notin> ex_copied x \<Longrightarrow> ex_waited x \<or> ex_exited x \<and> ex_pipe x p = [] \<Longrightarrow>
    exec_step x (x\<lparr>ex_copied := insert p (ex_copied x)\<rparr>)"
| child_waited: "ex_exited x \<Longrightarrow> \<not> ex_waited x \<Longrightarrow> exec_step x (x\<lparr>ex_waited := True\<rparr>)"
| exec_returns: "ex_waited x \<Longrightarrow> ex_copied x = UNIV \<Longrightarrow> exec_step x (x\<lparr>ex_returned := True\<rparr>)"

section \<open>What reaches the stream\<close>

definition sent_of :: "child_pipe \<Rightarrow> (child_pipe \<times> bytes) list \<Rightarrow> bytes" where
  "sent_of p sent = concat (map snd (filter (\<lambda>(q, bs). q = p) sent))"

definition exec_inv :: "exec \<Rightarrow> bool" where
  "exec_inv x \<longleftrightarrow> (\<forall>p. sent_of p (ex_sent x) @ ex_pipe x p = ex_produced x p) \<and>
     (\<forall>(p, bs)\<in>set (ex_sent x). bs \<noteq> [] \<and> length bs \<le> copyBuffer) \<and>
     (\<forall>p\<in>ex_copied x. ex_waited x \<or> ex_pipe x p = []) \<and> (ex_waited x \<longrightarrow> ex_exited x) \<and> (ex_copied x \<noteq> {} \<longrightarrow> ex_exited x)"

lemma sent_of_snoc: "sent_of p (sent @ [(q, bs)]) = sent_of p sent @ (if q = p then bs else [])"
  by (simp add: sent_of_def)

lemma exec_inv_step: "exec_inv x \<Longrightarrow> exec_step x x' \<Longrightarrow> exec_inv x'"
  by (erule exec_step.cases)
     (fastforce simp: exec_inv_def child_write_def copy_output_def sent_of_snoc)+

interpretation exec_system: invariant_system exec_step "\<lambda>x. x = exec_start" exec_inv
  by unfold_locales (simp add: exec_start_def exec_inv_def sent_of_def, rule exec_inv_step)


text \<open>Each output reaches the stream in order and without gaps, in pieces of at most the buffer.\<close>

theorem exec_output_prefix:
  assumes "exec_step\<^sup>*\<^sup>* exec_start x"
  shows "prefix (sent_of p (ex_sent x)) (ex_produced x p)"
  using exec_system.reachable_inv [OF refl assms] unfolding exec_inv_def by (metis prefixI)


end
