(* ===== verification/Pty_Session.thy ===== *)
theory Pty_Session
  imports Pty_Frames Go_Files "HOL-Library.Sublist"
begin

text \<open>
  Remote terminals: \<open>src/session/pty.go\<close>. Each goroutine is a function of what it reads; the mutex of the
  writers keeps frames whole, and the first goroutine that ends decides the result. The
  terminal of the server is what was written to it and its size; the escape key of the
  client is Control-E, and Control-E followed by q ends the session.
\<close>

section \<open>The server\<close>


definition pty_shell :: "os_host \<Rightarrow> string list" where
  "pty_shell h = [if os_Getenv h ''SHELL'' = [] then ''/bin/sh'' else os_Getenv h ''SHELL'', ''-l'']"


datatype pty_end = TerminalIO io_error | FrameError pty_error | UnknownFrame byte | Quit

text \<open>The goroutine from the terminal to the stream; \<open>err\<close> is what the terminal returns after its output.\<close>

fun pty_output :: "writer \<Rightarrow> bytes list \<Rightarrow> io_error \<Rightarrow> writer \<times> pty_end" where
  "pty_output w [] err = (w, TerminalIO err)"
| "pty_output w (chunk # chunks) err =
     (if chunk = [] then pty_output w chunks err
      else case WriteFrame w FrameData chunk of
             (w1, Some e) \<Rightarrow> (w1, FrameError e)
           | (w1, None) \<Rightarrow> pty_output w1 chunks err)"

lemma ReadFrame_shrinks: "ReadFrame r = (r', Inr f) \<Longrightarrow> length (avail r') < length (avail r)"
proof -
  assume A: "ReadFrame r = (r', Inr f)"
  then obtain r1 h n v where 1: "ReadFull r 5 = (r1, Inr h)" and 2: "ReadFull r1 n = (r', Inr v)"
    by (auto simp: ReadFrame_def Let_def split: prod.splits sum.splits if_splits)
  show ?thesis using ReadFull_Inr [OF 1] ReadFull_Inr [OF 2] by simp
qed




definition EIO :: io_error where "EIO = IOFailure ''input/output error''"

definition isPTYEnd :: "pty_end \<Rightarrow> bool" where
  "isPTYEnd e \<longleftrightarrow> e \<in> {TerminalIO EOF, FrameError (PtyIO EOF), TerminalIO EIO, FrameError (PtyIO EIO)}"

definition is_EOF :: "pty_end \<Rightarrow> bool" where
  "is_EOF e \<longleftrightarrow> e \<in> {TerminalIO EOF, FrameError (PtyIO EOF)}"

text \<open>The end of \<open>PTYServer\<close>: its result, whether it killed the shell and whether it half-closed the stream.\<close>

datatype server_result = ServerOK | ServerClose io_error | ServerError pty_end | ServerContext

definition server_end :: "bool \<Rightarrow> pty_end \<Rightarrow> io_error option \<Rightarrow> server_result \<times> bool \<times> bool" where
  "server_end fromOutput e closeErr =
     (if fromOutput \<and> isPTYEnd e then (case closeErr of None \<Rightarrow> ServerOK | Some c \<Rightarrow> ServerClose c, False, True)
      else (if is_EOF e then ServerOK else ServerError e, True, False))"

text \<open>What the \<open>select\<close> of \<open>PTYServer\<close> and \<open>PTYClient\<close> receives first.\<close>

datatype pty_event = Cancelled | InputEnded pty_end | OutputEnded pty_end

definition PTYServer :: "pty_event \<Rightarrow> io_error option \<Rightarrow> server_result \<times> bool \<times> bool" where
  "PTYServer event closeErr =
     (case event of
        Cancelled \<Rightarrow> (ServerContext, True, False)
      | InputEnded e \<Rightarrow> server_end False e closeErr
      | OutputEnded e \<Rightarrow> server_end True e closeErr)"

section \<open>The client\<close>

definition escape_key :: byte where "escape_key = 5"
definition quit_key :: byte where "quit_key = 113"

text \<open>The loop over the bytes of one read: the bytes to send, the state of the escape and whether to quit.\<close>

fun scan_keys :: "bool \<Rightarrow> bytes \<Rightarrow> bytes \<Rightarrow> bytes \<times> bool \<times> bool" where
  "scan_keys escape acc [] = (acc, escape, False)"
| "scan_keys escape acc (k # ks) =
     (if escape then if k = quit_key then (acc, False, True) else scan_keys False (acc @ [escape_key, k]) ks
      else if k = escape_key then scan_keys True acc ks
      else scan_keys False (acc @ [k]) ks)"

fun pty_stdin :: "writer \<Rightarrow> bool \<Rightarrow> bytes list \<Rightarrow> io_error \<Rightarrow> writer \<times> pty_end" where
  "pty_stdin w escape [] err = (w, TerminalIO err)"
| "pty_stdin w escape (chunk # chunks) err =
     (case scan_keys escape [] chunk of
        (keys, escape', quit) \<Rightarrow>
          if quit then (w, Quit)
          else if keys = [] then pty_stdin w escape' chunks err
          else case WriteFrame w FrameData keys of
                 (w1, Some e) \<Rightarrow> (w1, FrameError e)
               | (w1, None) \<Rightarrow> pty_stdin w1 escape' chunks err)"

function pty_stdout :: "reader \<Rightarrow> writer \<Rightarrow> reader \<times> writer \<times> pty_end" where
  "pty_stdout r w =
     (case ReadFrame r of
        (r1, Inl e) \<Rightarrow> (r1, w, FrameError e)
      | (r1, Inr f) \<Rightarrow>
          if Type f \<noteq> FrameData then pty_stdout r1 w
          else case writeFull w (Data f) of (w1, Some e) \<Rightarrow> (r1, w1, TerminalIO e) | (w1, None) \<Rightarrow> pty_stdout r1 w1)"
  by pat_completeness auto
termination
  by (relation "measure (\<lambda>(r, w). length (avail r))") (auto dest: sym ReadFrame_shrinks)

declare pty_stdout.simps [simp del]


datatype client_result = ClientOK | ClientError pty_end | ClientNoTTY | ClientRaw | ClientContext

definition client_end :: "pty_end \<Rightarrow> client_result" where
  "client_end e = (if e = Quit \<or> is_EOF e then ClientOK else ClientError e)"

definition PTYClient :: "bool \<Rightarrow> bool \<Rightarrow> pty_event \<Rightarrow> client_result" where
  "PTYClient tty raw event =
     (if \<not> tty then ClientNoTTY
      else if \<not> raw then ClientRaw
      else case event of Cancelled \<Rightarrow> ClientContext | InputEnded e \<Rightarrow> client_end e | OutputEnded e \<Rightarrow> client_end e)"

section \<open>Frames through the goroutines\<close>

definition data_frame :: "bytes \<Rightarrow> pty_frame" where
  "data_frame bs = \<lparr>Type = FrameData, Data = bs\<rparr>"

lemma data_frame_simps [simp]: "Type (data_frame bs) = FrameData" "Data (data_frame bs) = bs" "fits_pty (data_frame bs) \<longleftrightarrow> length bs \<le> MaxFrameLength"
  by (simp_all add: data_frame_def fits_pty_def)

lemma WriteFrame_put: "WriteFrame w FrameData bs = put_frame w (data_frame bs)"
  by (simp add: put_frame_def)

lemma ReadFrame_end:
  assumes "avail r = []" and "rd_end r = EOF"
  shows "\<exists>r'. ReadFrame r = (r', Inl (PtyIO EOF))"
proof -
  obtain r1 where "ReadFull r 5 = (r1, Inl (short_error r))" using ReadFull_short [of r 5] assms(1) by auto
  then show ?thesis using assms by (simp add: ReadFrame_def short_error_def)
qed



definition data_of :: "pty_frame list \<Rightarrow> bytes" where
  "data_of fs = concat (map Data (filter (\<lambda>f. Type f = FrameData) fs))"




lemma pty_stdout_end: "ReadFrame r = (r1, Inl e) \<Longrightarrow> pty_stdout r w = (r1, w, FrameError e)"
  by (subst pty_stdout.simps) simp

lemma pty_stdout_next:
  "ReadFrame r = (r1, Inr f) \<Longrightarrow> writeFull w (Data f) = (w1, None) \<Longrightarrow> pty_stdout r w = pty_stdout r1 (if Type f = FrameData then w1 else w)"
  by (subst pty_stdout.simps) simp


lemma pty_stdout_frames:
  assumes "list_all fits_pty fs" and "avail r = concat (map pty_bytes fs)" and "rd_end r = EOF" and "productive w"
  shows "\<exists>r' w'. pty_stdout r w = (r', w', FrameError (PtyIO EOF)) \<and> wr_sink w' = wr_sink w @ data_of fs"
  using assms
proof (induction fs arbitrary: r w)
  case Nil
  then obtain r' where "ReadFrame r = (r', Inl (PtyIO EOF))" using ReadFrame_end [of r] by auto
  then show ?case by (auto simp: pty_stdout_end data_of_def)
next
  case (Cons f fs)
  have f: "fits_pty f" "list_all fits_pty fs" using Cons.prems(1) by simp_all
  obtain r1 where r1: "ReadFrame r = (r1, Inr f)" "avail r1 = concat (map pty_bytes fs)" "rd_end r1 = EOF"
    using ReadFrame_bytes [OF f(1), of r] Cons.prems(2,3) by auto
  obtain w1 where w1: "writeFull w (Data f) = (w1, None)" "productive w1" using pty_io.wf_productive [OF Cons.prems(4)] by blast
  show ?case
  proof (cases "Type f = FrameData")
    case True
    then show ?thesis using Cons.IH [OF f(2) r1(2,3) w1(2)] pty_io.wf_done [OF w1(1)]
      unfolding pty_stdout_next [OF r1(1) w1(1)] by (auto simp: data_of_def)
  next
    case False
    then show ?thesis using Cons.IH [OF f(2) r1(2,3) Cons.prems(4)]
      unfolding pty_stdout_next [OF r1(1) w1(1)] by (auto simp: data_of_def)
  qed
qed


section \<open>What a sequence of keys means\<close>








definition readBuffer :: nat where "readBuffer = 32 * 1024"






definition output_frames :: "bytes list \<Rightarrow> pty_frame list" where
  "output_frames cs = map data_frame (filter (\<lambda>c. c \<noteq> []) cs)"

lemma output_frames_data: "data_of (output_frames cs) = concat cs"
  by (induction cs) (simp_all add: output_frames_def data_of_def)

lemma pty_output_frames:
  assumes "list_all (\<lambda>c. length c \<le> readBuffer) cs" and "productive w"
  shows "\<exists>w'. pty_output w cs err = (w', TerminalIO err) \<and> wr_sink w' = wr_sink w @ concat (map pty_bytes (output_frames cs)) \<and>
    list_all fits_pty (output_frames cs)"
  using assms
proof (induction cs arbitrary: w)
  case (Cons c cs)
  have c: "fits_pty (data_frame c)" "list_all (\<lambda>c. length c \<le> readBuffer) cs"
    using Cons.prems(1) by (simp_all add: readBuffer_def MaxFrameLength_def)
  obtain w1 where w1: "WriteFrame w FrameData c = (w1, None)" "productive w1" "wr_sink w1 = wr_sink w @ pty_bytes (data_frame c)"
    using put_frame_bytes [OF c(1) Cons.prems(2)] by (auto simp: WriteFrame_put)
  then show ?case using Cons.IH [OF c(2) w1(2)] Cons.IH [OF c(2) Cons.prems(2)] c(1) by (auto simp: output_frames_def)
qed (simp add: output_frames_def)



section \<open>Properties\<close>


text \<open>
  when the shell exits, nothing of its output is lost: the server half-closes the stream without killing the
  shell and succeeds, and the client shows all output, in order, and succeeds as well.
\<close>

theorem pty_logout:
  assumes "list_all (\<lambda>c. length c \<le> readBuffer) out" and "productive w" and "wr_sink w = []" and "productive screen"
  shows "\<exists>w' e. pty_output w out EIO = (w', e) \<and> PTYServer (OutputEnded e) None = (ServerOK, False, True) \<and>
    (\<forall>r. avail r = wr_sink w' \<and> rd_end r = EOF \<longrightarrow>
      (\<exists>r' screen' e'. pty_stdout r screen = (r', screen', e') \<and> wr_sink screen' = wr_sink screen @ concat out \<and>
         PTYClient True True (OutputEnded e') = ClientOK))"
proof -
  obtain w' where w': "pty_output w out EIO = (w', TerminalIO EIO)" "wr_sink w' = concat (map pty_bytes (output_frames out))"
      "list_all fits_pty (output_frames out)"
    using pty_output_frames [OF assms(1,2), of EIO] assms(3) by auto
  have server: "PTYServer (OutputEnded (TerminalIO EIO)) None = (ServerOK, False, True)"
    by (simp add: PTYServer_def server_end_def isPTYEnd_def)
  have client: "PTYClient True True (OutputEnded (FrameError (PtyIO EOF))) = ClientOK"
    by (simp add: PTYClient_def client_end_def is_EOF_def)
  have "\<exists>r' screen' e'. pty_stdout r screen = (r', screen', e') \<and> wr_sink screen' = wr_sink screen @ concat out \<and>
      PTYClient True True (OutputEnded e') = ClientOK" if "avail r = wr_sink w'" "rd_end r = EOF" for r
    using pty_stdout_frames [OF w'(3) _ that(2) assms(4)] that(1) w'(2) client by (auto simp: output_frames_data)
  with w'(1) server show ?thesis by blast
qed

text \<open>
  keys typed before the quit sequence are dropped when the terminal delivers them in the same read: the same
  keys are sent when the read ends before the escape key.
\<close>

theorem pty_quit_drops_keys:
  assumes "escape_key \<notin> set ks" and "ks \<noteq> []" and "length ks \<le> readBuffer" and "productive w"
  shows "pty_stdin w False [ks @ [escape_key, quit_key]] err = (w, Quit) \<and>
    (\<exists>w'. pty_stdin w False [ks, [escape_key, quit_key]] err = (w', Quit) \<and> wr_sink w' = wr_sink w @ pty_bytes (data_frame ks))"
proof -
  have plain: "scan_keys False acc (ks @ rest) = scan_keys False (acc @ ks) rest" for acc rest
    using assms(1) by (induction ks arbitrary: acc) auto
  have quit: "scan_keys False acc [escape_key, quit_key] = (acc, False, True)" for acc by simp
  obtain w1 where "WriteFrame w FrameData ks = (w1, None)" "wr_sink w1 = wr_sink w @ pty_bytes (data_frame ks)"
    using put_frame_bytes [of "data_frame ks", OF _ assms(4)] assms(3) by (auto simp: WriteFrame_put readBuffer_def MaxFrameLength_def)
  then show ?thesis using plain [of "[]" "[]"] plain [of "[]" "[escape_key, quit_key]"] assms(2) quit by simp
qed

section \<open>Witnesses\<close>


theorem pty_logout_witness:
  "\<exists>w' e. pty_output \<lparr>wr_sink = [], wr_plan = [(1, None)]\<rparr> [[98, 121], [101]] EIO = (w', e) \<and> PTYServer (OutputEnded e) None = (ServerOK, False, True) \<and>
    (\<exists>r' screen' e'. pty_stdout \<lparr>rd_chunks = [wr_sink w'], rd_end = EOF\<rparr> \<lparr>wr_sink = [], wr_plan = []\<rparr> = (r', screen', e') \<and>
       wr_sink screen' = [98, 121, 101])"
proof -
  let ?w = "\<lparr>wr_sink = [], wr_plan = [(1, None)]\<rparr>" and ?v = "\<lparr>wr_sink = [], wr_plan = []\<rparr> :: writer"
  have "list_all (\<lambda>c. length c \<le> readBuffer) [[98, 121], [101 :: byte]]" "productive ?w" "productive ?v"
    by (simp_all add: readBuffer_def productive_def)
  then obtain w' e where w': "pty_output ?w [[98, 121], [101]] EIO = (w', e)" "PTYServer (OutputEnded e) None = (ServerOK, False, True)"
    "\<And>r. avail r = wr_sink w' \<and> rd_end r = EOF \<Longrightarrow> \<exists>r' screen' e'. pty_stdout r ?v = (r', screen', e') \<and> wr_sink screen' = [98, 121, 101]"
    using pty_logout [of "[[98, 121], [101]]" ?w ?v] by fastforce
  show ?thesis using w'(1,2) w'(3) [of "\<lparr>rd_chunks = [wr_sink w'], rd_end = EOF\<rparr>"] by (auto simp: avail_def)
qed

theorem pty_quit_drops_keys_witness:
  "pty_stdin \<lparr>wr_sink = [], wr_plan = []\<rparr> False [[108, 115, 13] @ [escape_key, quit_key]] EOF = (\<lparr>wr_sink = [], wr_plan = []\<rparr>, Quit)"
  using pty_quit_drops_keys [of "[108, 115, 13]" "\<lparr>wr_sink = [], wr_plan = []\<rparr>" EOF]
  by (simp add: escape_key_def readBuffer_def productive_def)

end
