(* ===== verification/Go_Json.thy ===== *)
theory Go_Json
  imports Go_Text
begin

text \<open>
  What the program prints with \<open>encoding/json\<close>: values of strings, integers, lists and objects, in the compact form
  of \<open>json.Marshal\<close> with its escapes. The decoder is a parameter of the definitions that use it.
\<close>

datatype json = JNull | JBool bool | JInt int | JString string | JArray "json list" | JObject "(string \<times> json) list"

section \<open>Strings\<close>

text \<open>The length of a well-formed UTF-8 sequence at the start of a text, as \<open>utf8.DecodeRune\<close> accepts it; 0 otherwise.\<close>

definition continuation :: "nat \<Rightarrow> bool" where
  "continuation b \<longleftrightarrow> 0x80 \<le> b \<and> b \<le> 0xBF"

fun rune_length :: "nat list \<Rightarrow> nat" where
  "rune_length [] = 0"
| "rune_length (a # bs) =
     (if a < 0x80 then 1
      else case bs of
             [] \<Rightarrow> 0
           | b # cs \<Rightarrow>
               if 0xC2 \<le> a \<and> a \<le> 0xDF then (if continuation b then 2 else 0)
               else case cs of
                      [] \<Rightarrow> 0
                    | c # ds \<Rightarrow>
                        if 0xE0 \<le> a \<and> a \<le> 0xEF then
                          (if continuation b \<and> continuation c \<and> (a = 0xE0 \<longrightarrow> 0xA0 \<le> b) \<and> (a = 0xED \<longrightarrow> b \<le> 0x9F) then 3 else 0)
                        else case ds of
                               [] \<Rightarrow> 0
                             | d # _ \<Rightarrow>
                                 if 0xF0 \<le> a \<and> a \<le> 0xF4 \<and> continuation b \<and> continuation c \<and> continuation d \<and>
                                   (a = 0xF0 \<longrightarrow> 0x90 \<le> b) \<and> (a = 0xF4 \<longrightarrow> b \<le> 0x8F) then 4 else 0)"

definition backslash :: char where "backslash = CHR 0x5C"
definition quote :: char where "quote = CHR 0x22"

definition unicode_escape :: "nat \<Rightarrow> string" where
  "unicode_escape n = [backslash, CHR ''u'', hex_digit (n div 4096 mod 16), hex_digit (n div 256 mod 16), hex_digit (n div 16 mod 16), hex_digit (n mod 16)]"

definition ascii_escape :: "nat \<Rightarrow> string" where
  "ascii_escape n =
     (if n = 0x22 then [backslash, quote] else if n = 0x5C then [backslash, backslash]
      else if n = 8 then [backslash, CHR ''b''] else if n = 12 then [backslash, CHR ''f'']
      else if n = 10 then [backslash, CHR ''n''] else if n = 13 then [backslash, CHR ''r''] else if n = 9 then [backslash, CHR ''t'']
      else if n < 0x20 \<or> n \<in> {0x3C, 0x3E, 0x26} then unicode_escape n
      else [char_of n])"

function json_escape :: "string \<Rightarrow> string" where
  "json_escape [] = []"
| "json_escape (c # cs) =
     (let n = rune_length (map of_char (c # cs))
      in if n = 0 then unicode_escape 0xFFFD @ json_escape cs
         else if n = 1 then ascii_escape (of_char c) @ json_escape cs
         else if map of_char (take n (c # cs)) = [0xE2, 0x80, 0xA8 :: nat] then unicode_escape 0x2028 @ json_escape (drop n (c # cs))
         else if map of_char (take n (c # cs)) = [0xE2, 0x80, 0xA9 :: nat] then unicode_escape 0x2029 @ json_escape (drop n (c # cs))
         else take n (c # cs) @ json_escape (drop n (c # cs)))"
  by pat_completeness auto
termination
  by (relation "measure length") auto

declare json_escape.simps [simp del]

definition json_string :: "string \<Rightarrow> string" where
  "json_string s = [quote] @ json_escape s @ [quote]"

section \<open>Values\<close>

definition json_int :: "int \<Rightarrow> string" where
  "json_int i = (if i < 0 then ''-'' @ show_nat (nat (- i)) else show_nat (nat i))"

fun join :: "string list \<Rightarrow> string" where
  "join [] = []"
| "join [x] = x"
| "join (x # y # ys) = x @ '','' @ join (y # ys)"

fun json_text :: "json \<Rightarrow> string" where
  "json_text JNull = ''null''"
| "json_text (JBool b) = (if b then ''true'' else ''false'')"
| "json_text (JInt i) = json_int i"
| "json_text (JString s) = json_string s"
| "json_text (JArray vs) = ''['' @ join (map json_text vs) @ '']''"
| "json_text (JObject fs) = ''{'' @ join (map (\<lambda>(k, v). json_string k @ '':'' @ json_text v) fs) @ ''}''"

definition json_Marshal :: "json \<Rightarrow> bytes" where
  "json_Marshal v = string_bytes (json_text v)"

end
