(* ===== verification/Signaling.thy ===== *)
theory Signaling
  imports Wire Pairing Go_Json
begin

text \<open>
  Signals between native WebRTC endpoints: \<open>src/nativewebrtc/signaling.go\<close>. A signal is prepared for publication,
  with its payload sealed under the pairing token when there is one, and opened on arrival.
  The decoder of JSON is a parameter; a candidate is the object of its fields.
\<close>

definition SignalVersion :: int where "SignalVersion = 2"
definition signalTTL :: duration where "signalTTL = 120 * Second"
definition maxCandidateBytes :: nat where "maxCandidateBytes = 64 * 1024"
definition maxEncryptedSignalBytes :: nat where "maxEncryptedSignalBytes = 512 * 1024"
definition maxSignalingMessageBytes :: nat where "maxSignalingMessageBytes = 512 * 1024"

type_synonym candidate = "(string \<times> json) list"

record Signal =
  sg_Version :: int
  sg_Room :: string
  sg_Type :: string
  sg_SessionID :: string
  sg_From :: string
  sg_To :: string
  sg_CreatedAt :: int
  sg_SDP :: string
  sg_Candidate :: "candidate option"
  sg_Encrypted :: string

datatype signal_error =
    RoomRequired
  | TopicError pairing_error
  | PeerIDPattern
  | MissingSDP string
  | MissingCandidate
  | UnsupportedType string
  | SDPTooLarge
  | CandidateTooLarge
  | SessionIDInvalid
  | DestinationInvalid
  | SealError pairing_error
  | SignalRandomness

section \<open>Names\<close>

definition signaling_alphabet :: string where
  "signaling_alphabet = ''0123456789ABCDEFGHIJKLMNOPQRSTUVWXYZabcdefghijklmnopqrstuvwxyz''"

definition CreateSignalingPeerID :: "random_source \<Rightarrow> signal_error + string" where
  "CreateSignalingPeerID rnd =
     (case rnd 20 of None \<Rightarrow> Inl SignalRandomness
      | Some random \<Rightarrow> Inr (map (\<lambda>b. signaling_alphabet ! (unat b mod length signaling_alphabet)) (array_of 20 random)))"

definition CreateSignalingSessionID :: "random_source \<Rightarrow> signal_error + string" where
  "CreateSignalingSessionID rnd =
     (case rnd 16 of None \<Rightarrow> Inl SignalRandomness | Some random \<Rightarrow> Inr (hex_EncodeToString (array_of 16 random)))"

definition SignalingRoomTopic :: "libp2p \<Rightarrow> cryptography \<Rightarrow> string \<Rightarrow> Token option \<Rightarrow> signal_error + string" where
  "SignalingRoomTopic lp cr roomID token =
     (let room = TrimSpace roomID
      in if room = [] then Inl RoomRequired
         else case token of
                Some t \<Rightarrow> (case RendezvousID lp cr t ''signaling'' 0 of Inl e \<Rightarrow> Inl (TopicError e) | Inr topic \<Rightarrow> Inr topic)
              | None \<Rightarrow> Inr (hex_EncodeToString (sum_sha256 cr (string_bytes (''p2p-netcat:native-webrtc:v2:'' @ room)))))"

section \<open>Checks\<close>

definition validateSignalPayloadSizes :: "Signal \<Rightarrow> signal_error option" where
  "validateSignalPayloadSizes s =
     (if maxSDPBytes < length (sg_SDP s) then Some SDPTooLarge
      else case sg_Candidate s of
             None \<Rightarrow> None
           | Some c \<Rightarrow> if maxCandidateBytes < length (json_Marshal (JObject c)) then Some CandidateTooLarge else None)"

text \<open>The \<open>switch\<close> on the type, in both directions.\<close>

definition signal_type_error :: "Signal \<Rightarrow> signal_error option" where
  "signal_type_error s =
     (if sg_Type s \<in> {''offer'', ''answer''} then (if sg_SDP s = [] then Some (MissingSDP (sg_Type s)) else None)
      else if sg_Type s = ''candidate'' then (if sg_Candidate s = None then Some MissingCandidate else None)
      else if sg_Type s = ''bye'' then None
      else Some (UnsupportedType (sg_Type s)))"

definition signalAdditionalData :: "Signal \<Rightarrow> bytes" where
  "signalAdditionalData s =
     json_Marshal (JArray [JInt SignalVersion, JString (sg_Room s), JString (sg_Type s), JString (sg_SessionID s), JString (sg_From s),
       JString (sg_To s), JInt (sg_CreatedAt s)])"

text \<open>The encrypted payload, with the fields that are not empty.\<close>

definition payload_json :: "Signal \<Rightarrow> json" where
  "payload_json s = JObject ((if sg_SDP s = [] then [] else [(''sdp'', JString (sg_SDP s))]) @
     (case sg_Candidate s of None \<Rightarrow> [] | Some c \<Rightarrow> if c = [] then [] else [(''candidate'', JObject c)]))"

definition payload_of :: "json \<Rightarrow> (string \<times> candidate option) option" where
  "payload_of v =
     (case v of
        JObject fs \<Rightarrow>
          (case (map_of fs ''sdp'', map_of fs ''candidate'') of
             (sdp, cand) \<Rightarrow>
               (case (case sdp of None \<Rightarrow> Some [] | Some (JString s) \<Rightarrow> Some s | Some JNull \<Rightarrow> Some [] | _ \<Rightarrow> None) of
                  None \<Rightarrow> None
                | Some s \<Rightarrow>
                    (case cand of None \<Rightarrow> Some (s, None) | Some (JObject c) \<Rightarrow> Some (s, Some c) | Some JNull \<Rightarrow> Some (s, None) | _ \<Rightarrow> None)))
      | JNull \<Rightarrow> Some ([], None)
      | _ \<Rightarrow> None)"

section \<open>Publishing and receiving\<close>

definition signal_metadata :: "Signal \<Rightarrow> Signal" where
  "signal_metadata s = s\<lparr>sg_SDP := [], sg_Candidate := None\<rparr>"

definition stamp_signal :: "string \<Rightarrow> string \<Rightarrow> go_time \<Rightarrow> Signal \<Rightarrow> Signal" where
  "stamp_signal topic peerID now s = s\<lparr>sg_Version := SignalVersion, sg_Room := topic, sg_From := peerID, sg_CreatedAt := unix_millis now\<rparr>"

definition prepareOutgoing ::
  "cryptography \<Rightarrow> cbor \<Rightarrow> random_source \<Rightarrow> Signal \<Rightarrow> string \<Rightarrow> string \<Rightarrow> Token option \<Rightarrow> go_time \<Rightarrow> signal_error + Signal" where
  "prepareOutgoing cr cb rnd signal topic peerID token now =
     (if \<not> clientIDPattern peerID then Inl PeerIDPattern
      else case signal_type_error signal of Some e \<Rightarrow> Inl e | None \<Rightarrow>
      (case validateSignalPayloadSizes signal of Some e \<Rightarrow> Inl e | None \<Rightarrow>
      (if length (sg_SessionID signal) < 8 \<or> 128 < length (sg_SessionID signal) then Inl SessionIDInvalid
       else if sg_To signal \<noteq> [] \<and> \<not> clientIDPattern (sg_To signal) then Inl DestinationInvalid
       else let s = stamp_signal topic peerID now signal
            in case token of
                 None \<Rightarrow> Inr s
               | Some t \<Rightarrow>
                   (case Seal cr cb rnd t ''signaling'' (json_Marshal (payload_json s)) (signalAdditionalData (signal_metadata s)) None of
                      Inl e \<Rightarrow> Inl (SealError e)
                    | Inr sealed \<Rightarrow> Inr ((signal_metadata s)\<lparr>sg_Encrypted := EncodeToString sealed\<rparr>)))))"

definition decrypt_signal :: "cryptography \<Rightarrow> cbor \<Rightarrow> (bytes \<Rightarrow> json option) \<Rightarrow> Token option \<Rightarrow> Signal \<Rightarrow> Signal option" where
  "decrypt_signal cr cb unmarshal token s =
     (case token of
        None \<Rightarrow> Some s
      | Some t \<Rightarrow>
          if sg_Encrypted s = [] then None
          else case DecodeString (sg_Encrypted s) of None \<Rightarrow> None | Some envelope \<Rightarrow>
            (case Open cr cb t ''signaling'' envelope (signalAdditionalData (signal_metadata s)) of Inl e \<Rightarrow> None | Inr plaintext \<Rightarrow>
              (case unmarshal plaintext of None \<Rightarrow> None | Some v \<Rightarrow>
                (case payload_of v of None \<Rightarrow> None | Some (sdp, cand) \<Rightarrow> Some (s\<lparr>sg_SDP := sdp, sg_Candidate := cand\<rparr>)))))"

definition signal_fresh :: "go_time \<Rightarrow> Signal \<Rightarrow> bool" where
  "signal_fresh now s \<longleftrightarrow> \<bar>now - time_of_millis (sg_CreatedAt s)\<bar> \<le> signalTTL"

definition openIncoming ::
  "cryptography \<Rightarrow> cbor \<Rightarrow> (bytes \<Rightarrow> json option) \<Rightarrow> Signal \<Rightarrow> string \<Rightarrow> string \<Rightarrow> Token option \<Rightarrow> go_time \<Rightarrow> Signal option" where
  "openIncoming cr cb unmarshal signal topic peerID token now =
     (if maxEncryptedSignalBytes < length (sg_Encrypted signal) \<or> length (sg_SessionID signal) < 8 \<or> 128 < length (sg_SessionID signal) \<or>
        \<not> clientIDPattern (sg_From signal) \<or> (sg_To signal \<noteq> [] \<and> \<not> clientIDPattern (sg_To signal)) then None
      else case decrypt_signal cr cb unmarshal token signal of None \<Rightarrow> None | Some s \<Rightarrow>
        if sg_Version s \<noteq> SignalVersion \<or> sg_Room s \<noteq> topic \<or> sg_From s = peerID then None
        else if sg_To s \<noteq> [] \<and> sg_To s \<noteq> peerID then None
        else if sg_SessionID s = [] \<or> sg_From s = [] \<or> \<not> signal_fresh now s then None
        else if signal_type_error s \<noteq> None then None
        else if validateSignalPayloadSizes s \<noteq> None then None
        else Some s)"


section \<open>Lemmas\<close>

lemma metadata_simps [simp]:
  "signalAdditionalData (signal_metadata (s\<lparr>sg_Encrypted := x\<rparr>)) = signalAdditionalData s"
  "signalAdditionalData (signal_metadata s) = signalAdditionalData s" "signal_metadata (signal_metadata s) = signal_metadata s"
  "signalAdditionalData (s\<lparr>sg_Encrypted := x\<rparr>) = signalAdditionalData s"
  by (simp_all add: signalAdditionalData_def signal_metadata_def)


lemma stamp_fresh:
  assumes "\<bar>later - now\<bar> + Millisecond \<le> signalTTL"
  shows "signal_fresh later (stamp_signal topic peerID now s)"
proof -
  have "time_of_millis (unix_millis now) = now - now mod Millisecond"
    by (simp add: time_of_millis_def unix_millis_def minus_mod_eq_div_mult)
  moreover have "0 \<le> now mod Millisecond" "now mod Millisecond < Millisecond" by (simp_all add: Millisecond_def)
  ultimately show ?thesis using assms by (simp add: signal_fresh_def stamp_signal_def)
qed

lemma prepareOutgoingE:
  assumes "prepareOutgoing cr cb rnd signal topic peerID token now = Inr wire"
  shows "clientIDPattern peerID" and "signal_type_error signal = None" and "validateSignalPayloadSizes signal = None"
    and "8 \<le> length (sg_SessionID signal)" and "length (sg_SessionID signal) \<le> 128" and "sg_To signal = [] \<or> clientIDPattern (sg_To signal)"
    and "token = None \<Longrightarrow> wire = stamp_signal topic peerID now signal"
    and "token = Some t \<Longrightarrow> \<exists>sealed. wire = (signal_metadata (stamp_signal topic peerID now signal))\<lparr>sg_Encrypted := EncodeToString sealed\<rparr> \<and>
      Seal cr cb rnd t ''signaling'' (json_Marshal (payload_json (stamp_signal topic peerID now signal)))
        (signalAdditionalData (stamp_signal topic peerID now signal)) None = Inr sealed"
  using assms by (auto simp: prepareOutgoing_def Let_def split: if_splits option.splits sum.splits)

lemma stamp_checks [simp]:
  "signal_type_error (stamp_signal topic peerID now s) = signal_type_error s"
  "validateSignalPayloadSizes (stamp_signal topic peerID now s) = validateSignalPayloadSizes s"
  "signal_type_error (s\<lparr>sg_Encrypted := x\<rparr>) = signal_type_error s" "validateSignalPayloadSizes (s\<lparr>sg_Encrypted := x\<rparr>) = validateSignalPayloadSizes s"
  by (simp_all add: signal_type_error_def validateSignalPayloadSizes_def stamp_signal_def)


lemma openIncoming_stamped:
  assumes prepared: "prepareOutgoing cr cb rnd signal topic peerID token now = Inr wire"
    and decrypted: "decrypt_signal cr cb unmarshal token wire = Some ((stamp_signal topic peerID now signal)\<lparr>sg_Encrypted := sg_Encrypted wire\<rparr>)"
    and fields: "sg_SessionID wire = sg_SessionID signal" "sg_From wire = peerID" "sg_To wire = sg_To signal"
    and size: "length (sg_Encrypted wire) \<le> maxEncryptedSignalBytes"
    and other: "other \<noteq> peerID" "sg_To signal \<in> {[], other}" and time: "\<bar>later - now\<bar> + Millisecond \<le> signalTTL"
  shows "openIncoming cr cb unmarshal wire topic other token later = Some ((stamp_signal topic peerID now signal)\<lparr>sg_Encrypted := sg_Encrypted wire\<rparr>)"
proof -
  note P = prepareOutgoingE [OF prepared]
  have "peerID \<noteq> []" using P(1) by (auto simp: clientIDPattern_def)
  moreover have "sg_SessionID signal \<noteq> []" using P(4) by auto
  moreover have "signal_fresh later ((stamp_signal topic peerID now signal)\<lparr>sg_Encrypted := sg_Encrypted wire\<rparr>)"
    using stamp_fresh [OF time, of topic peerID signal] by (simp add: signal_fresh_def)
  moreover have "sg_From ((stamp_signal topic peerID now signal)\<lparr>sg_Encrypted := e\<rparr>) = peerID" for e by (simp add: stamp_signal_def)
  moreover have "sg_Version (stamp_signal topic peerID now signal) = SignalVersion" "sg_Room (stamp_signal topic peerID now signal) = topic"
    "sg_To (stamp_signal topic peerID now signal) = sg_To signal" "sg_SessionID (stamp_signal topic peerID now signal) = sg_SessionID signal"
    by (simp_all add: stamp_signal_def)
  ultimately show ?thesis using P(1-6) size other fields by (auto simp: openIncoming_def decrypted)
qed


lemma decrypt_signal_fields:
  assumes "decrypt_signal cr cb unmarshal token signal = Some s"
  shows "sg_SessionID s = sg_SessionID signal" "sg_From s = sg_From signal" "sg_To s = sg_To signal" "sg_Encrypted s = sg_Encrypted signal"
  using assms by (auto simp: decrypt_signal_def split: if_splits option.splits sum.splits)

lemma decrypt_signalE:
  assumes "decrypt_signal cr cb unmarshal token signal = Some s" and "token = Some t"
  shows "\<exists>envelope plaintext v. DecodeString (sg_Encrypted s) = Some envelope \<and>
       Open cr cb t ''signaling'' envelope (signalAdditionalData s) = Inr plaintext \<and> unmarshal plaintext = Some v \<and>
       payload_of v = Some (sg_SDP s, sg_Candidate s)"
proof -
  obtain envelope plaintext v sdp cand where x: "DecodeString (sg_Encrypted signal) = Some envelope"
    "Open cr cb t ''signaling'' envelope (signalAdditionalData signal) = Inr plaintext" "unmarshal plaintext = Some v"
    "payload_of v = Some (sdp, cand)" "s = signal\<lparr>sg_SDP := sdp, sg_Candidate := cand\<rparr>"
    using assms by (auto simp: decrypt_signal_def split: if_splits option.splits sum.splits)
  have "signalAdditionalData s = signalAdditionalData signal" by (simp only: signalAdditionalData_def x(5)) simp
  with x show ?thesis by (intro exI [of _ envelope] exI [of _ plaintext] exI [of _ v]) simp
qed

lemma openIncomingE:
  assumes "openIncoming cr cb unmarshal signal topic peerID token now = Some s"
  shows "decrypt_signal cr cb unmarshal token signal = Some s"
    and "length (sg_Encrypted signal) \<le> maxEncryptedSignalBytes" "8 \<le> length (sg_SessionID signal)" "length (sg_SessionID signal) \<le> 128"
      "clientIDPattern (sg_From signal)"
    and "sg_Version s = SignalVersion" "sg_Room s = topic" "sg_From s \<noteq> peerID" "sg_To s \<in> {[], peerID}" "signal_fresh now s"
      "signal_type_error s = None" "validateSignalPayloadSizes s = None"
proof -
  let ?g = "maxEncryptedSignalBytes < length (sg_Encrypted signal) \<or> length (sg_SessionID signal) < 8 \<or> 128 < length (sg_SessionID signal) \<or>
        \<not> clientIDPattern (sg_From signal) \<or> (sg_To signal \<noteq> [] \<and> \<not> clientIDPattern (sg_To signal))"
  have g: "\<not> ?g"
  proof
    assume "?g"
    then have "openIncoming cr cb unmarshal signal topic peerID token now = None" unfolding openIncoming_def by (rule if_P)
    with assms show False by simp
  qed
  then show "length (sg_Encrypted signal) \<le> maxEncryptedSignalBytes" "8 \<le> length (sg_SessionID signal)" "length (sg_SessionID signal) \<le> 128"
      "clientIDPattern (sg_From signal)" by linarith+
  from g have e: "openIncoming cr cb unmarshal signal topic peerID token now =
     (case decrypt_signal cr cb unmarshal token signal of None \<Rightarrow> None | Some s \<Rightarrow>
        if sg_Version s \<noteq> SignalVersion \<or> sg_Room s \<noteq> topic \<or> sg_From s = peerID then None
        else if sg_To s \<noteq> [] \<and> sg_To s \<noteq> peerID then None
        else if sg_SessionID s = [] \<or> sg_From s = [] \<or> \<not> signal_fresh now s then None
        else if signal_type_error s \<noteq> None then None
        else if validateSignalPayloadSizes s \<noteq> None then None
        else Some s)" unfolding openIncoming_def by (rule if_not_P)
  obtain s' where d: "decrypt_signal cr cb unmarshal token signal = Some s'" using assms unfolding e by (cases "decrypt_signal cr cb unmarshal token signal") auto
  from assms show "decrypt_signal cr cb unmarshal token signal = Some s" "sg_Version s = SignalVersion" "sg_Room s = topic" "sg_From s \<noteq> peerID"
      "sg_To s \<in> {[], peerID}" "signal_fresh now s" "signal_type_error s = None" "validateSignalPayloadSizes s = None"
    unfolding e d option.case by (auto split: if_split_asm)
qed

section \<open>Properties\<close>


text \<open>
  a signal that an endpoint accepts is of this version and room, not its own, addressed to it or to all, recent,
  of a known type with the payload that the type needs, and within the size limits; with a token its
  payload was sealed under the token together with exactly its metadata.
\<close>

theorem openIncoming_sound:
  assumes "openIncoming cr cb unmarshal signal topic peerID token now = Some s"
  shows "sg_Version s = SignalVersion \<and> sg_Room s = topic \<and> sg_From s \<noteq> peerID \<and> sg_To s \<in> {[], peerID} \<and> clientIDPattern (sg_From s) \<and>
    signal_fresh now s \<and> signal_type_error s = None \<and> validateSignalPayloadSizes s = None \<and>
    8 \<le> length (sg_SessionID s) \<and> length (sg_SessionID s) \<le> 128 \<and> length (sg_Encrypted s) \<le> maxEncryptedSignalBytes \<and>
    (\<forall>t. token = Some t \<longrightarrow> (\<exists>envelope plaintext v. DecodeString (sg_Encrypted s) = Some envelope \<and>
       Open cr cb t ''signaling'' envelope (signalAdditionalData s) = Inr plaintext \<and> unmarshal plaintext = Some v \<and>
       payload_of v = Some (sg_SDP s, sg_Candidate s)))"
proof -
  note O = openIncomingE [OF assms]
  have "\<exists>envelope plaintext v. DecodeString (sg_Encrypted s) = Some envelope \<and>
       Open cr cb t ''signaling'' envelope (signalAdditionalData s) = Inr plaintext \<and> unmarshal plaintext = Some v \<and>
       payload_of v = Some (sg_SDP s, sg_Candidate s)" if "token = Some t" for t
    using O(1) that by (rule decrypt_signalE)
  moreover note decrypt_signal_fields [OF O(1)]
  ultimately show ?thesis using O(2-) by auto
qed

section \<open>Witnesses\<close>

definition sample_signal :: Signal where
  "sample_signal = \<lparr>sg_Version = 0, sg_Room = [], sg_Type = ''offer'', sg_SessionID = ''0123456789abcdef'', sg_From = [], sg_To = [], sg_CreatedAt = 0,
     sg_SDP = ''v=0'', sg_Candidate = None, sg_Encrypted = []\<rparr>"

definition sample_unmarshal :: "bytes \<Rightarrow> json option" where
  "sample_unmarshal bs = (if bs = json_Marshal (payload_json sample_signal) then Some (payload_json sample_signal) else None)"

definition peer_a :: string where "peer_a = replicate 20 CHR ''a''"
definition peer_b :: string where "peer_b = replicate 20 CHR ''b''"

lemma sample_checks:
  "clientIDPattern peer_a" "signal_type_error sample_signal = None" "validateSignalPayloadSizes sample_signal = None"
  "8 \<le> length (sg_SessionID sample_signal)" "length (sg_SessionID sample_signal) \<le> 128" "sg_To sample_signal = []"
  by code_simp (simp_all add: signal_type_error_def validateSignalPayloadSizes_def maxSDPBytes_def sample_signal_def)





definition plain_signal :: Signal where
  "plain_signal = stamp_signal ''room'' peer_a 0 sample_signal"

theorem openIncoming_sound_witness: "signal_type_error plain_signal = None \<and> sg_From plain_signal \<noteq> peer_b \<and> signal_fresh 0 plain_signal"
proof -
  have "openIncoming sample_cryptography sample_cbor sample_unmarshal plain_signal ''room'' peer_b None 0 = Some plain_signal"
  proof -
    have p: "prepareOutgoing sample_cryptography sample_cbor (\<lambda>n. None) sample_signal ''room'' peer_a None 0 = Inr plain_signal"
      using sample_checks by (simp add: prepareOutgoing_def plain_signal_def Let_def)
    have "plain_signal = plain_signal\<lparr>sg_Encrypted := sg_Encrypted plain_signal\<rparr>" by simp
    moreover have "length (sg_Encrypted plain_signal) \<le> maxEncryptedSignalBytes" "sg_SessionID plain_signal = sg_SessionID sample_signal"
        "sg_From plain_signal = peer_a" "sg_To plain_signal = sg_To sample_signal"
      by (simp_all add: plain_signal_def stamp_signal_def sample_signal_def)
    moreover have "peer_b \<noteq> peer_a" by (simp add: peer_a_def peer_b_def)
    moreover have "\<bar>0 - 0\<bar> + Millisecond \<le> signalTTL" by (simp add: signalTTL_def Second_def Millisecond_def)
    ultimately show ?thesis
      using openIncoming_stamped [OF p, of sample_unmarshal peer_b 0] sample_checks(6) by (simp add: decrypt_signal_def plain_signal_def)
  qed
  from openIncoming_sound [OF this] show ?thesis by blast
qed

end
