(* ===== verification/Torrent.thy ===== *)
theory Torrent
  imports Signaling
begin

text \<open>
  Signaling through WebTorrent trackers: \<open>src/nativewebrtc/torrent.go\<close>. A session publishes its offers with every
  announcement and takes what the trackers relay from other peers of the swarm. The state is what the mutex of
  the session guards; messages are what the trackers' JSON carries for the program. The
  decoder of a signal is a parameter, and a socket is the result of writing to it.
\<close>

definition encryptedTrackerPrefix :: string where "encryptedTrackerPrefix = ''pnc-signal-v1:''"

datatype tracker_body = TrackerOffer string | TrackerAnswer string | TrackerOther

record tracker_message =
  tm_peer_id :: string
  tm_offer_id :: string
  tm_body :: tracker_body

record TorrentSession =
  ts_topic :: string
  ts_peerID :: string
  ts_token :: "Token option"
  ts_offers :: "string \<rightharpoonup> Signal"
  ts_offerOrigins :: "string \<rightharpoonup> string"
  ts_seen :: "string \<rightharpoonup> go_time"
  ts_events :: "Signal list"

definition newTorrentSession :: "libp2p \<Rightarrow> cryptography \<Rightarrow> string \<Rightarrow> string \<Rightarrow> Token option \<Rightarrow> signal_error + TorrentSession" where
  "newTorrentSession lp cr roomID peerID token =
     (case SignalingRoomTopic lp cr roomID token of
        Inl e \<Rightarrow> Inl e
      | Inr topic \<Rightarrow>
          if \<not> clientIDPattern peerID then Inl PeerIDPattern
          else Inr \<lparr>ts_topic = topic, ts_peerID = peerID, ts_token = token, ts_offers = Map.empty, ts_offerOrigins = Map.empty,
                 ts_seen = Map.empty, ts_events = []\<rparr>)"

section \<open>Tracker messages\<close>

definition signal_json :: "Signal \<Rightarrow> json" where
  "signal_json s =
     JObject ([(''version'', JInt (sg_Version s)), (''room'', JString (sg_Room s)), (''type'', JString (sg_Type s)),
        (''sessionId'', JString (sg_SessionID s)), (''from'', JString (sg_From s))] @
       (if sg_To s = [] then [] else [(''to'', JString (sg_To s))]) @ [(''createdAt'', JInt (sg_CreatedAt s))] @
       (if sg_SDP s = [] then [] else [(''sdp'', JString (sg_SDP s))]) @
       (case sg_Candidate s of None \<Rightarrow> [] | Some c \<Rightarrow> if c = [] then [] else [(''candidate'', JObject c)]) @
       (if sg_Encrypted s = [] then [] else [(''encrypted'', JString (sg_Encrypted s))]))"

definition trackerSignal :: "Signal \<Rightarrow> string" where
  "trackerSignal s = (if sg_Encrypted s = [] then sg_SDP s else encryptedTrackerPrefix @ EncodeToString (json_Marshal (signal_json s)))"

definition zero_signal :: Signal where
  "zero_signal = \<lparr>sg_Version = 0, sg_Room = [], sg_Type = [], sg_SessionID = [], sg_From = [], sg_To = [], sg_CreatedAt = 0, sg_SDP = [],
     sg_Candidate = None, sg_Encrypted = []\<rparr>"

definition trackerIncoming :: "(bytes \<Rightarrow> Signal option) \<Rightarrow> TorrentSession \<Rightarrow> go_time \<Rightarrow> string \<Rightarrow> string \<Rightarrow> string \<Rightarrow> string \<Rightarrow> Signal" where
  "trackerIncoming unmarshal s now text signalType sessionID from =
     (if \<not> HasPrefix text encryptedTrackerPrefix then
        zero_signal\<lparr>sg_Version := SignalVersion, sg_Room := ts_topic s, sg_Type := signalType, sg_SessionID := sessionID, sg_From := from,
          sg_To := ts_peerID s, sg_SDP := text, sg_CreatedAt := unix_millis now\<rparr>
      else case DecodeString (TrimPrefix text encryptedTrackerPrefix) of
             None \<Rightarrow> zero_signal
           | Some decoded \<Rightarrow>
               (case unmarshal decoded of
                  None \<Rightarrow> zero_signal
                | Some signal \<Rightarrow>
                    if sg_Type signal \<noteq> signalType \<or> sg_SessionID signal \<noteq> sessionID \<or> sg_From signal \<noteq> from \<or> sg_Room signal \<noteq> ts_topic s \<or>
                      sg_To signal \<noteq> [] \<and> sg_To signal \<noteq> ts_peerID s then zero_signal
                    else signal))"

section \<open>Receiving\<close>

text \<open>The libraries that the session uses.\<close>

record signal_libs =
  sl_cryptography :: cryptography
  sl_cbor :: cbor
  sl_json :: "bytes \<Rightarrow> json option"
  sl_signal :: "bytes \<Rightarrow> Signal option"

text \<open>The first part of \<open>receive\<close>: the bookkeeping of offers and answers, and the signal that the message carries.\<close>

definition tracker_signal :: "signal_libs \<Rightarrow> go_time \<Rightarrow> string \<Rightarrow> tracker_message \<Rightarrow> TorrentSession \<Rightarrow> TorrentSession \<times> Signal option" where
  "tracker_signal libs now url m s =
     (let incoming = \<lambda>sdp kind. trackerIncoming (sl_signal libs) s now sdp kind (tm_offer_id m) (tm_peer_id m)
      in if tm_peer_id m = [] \<or> tm_peer_id m = ts_peerID s \<or> tm_offer_id m = [] then (s, None)
         else case tm_body m of
                TrackerOffer sdp \<Rightarrow>
                  if sdp = [] then (s, None)
                  else (s\<lparr>ts_offerOrigins := (ts_offerOrigins s)(tm_offer_id m @ '':'' @ tm_peer_id m \<mapsto> url)\<rparr>, Some (incoming sdp ''offer''))
              | TrackerAnswer sdp \<Rightarrow>
                  (let s1 = s\<lparr>ts_offers := (ts_offers s)(tm_offer_id m := None)\<rparr>
                   in if ts_offers s (tm_offer_id m) = None \<or> sdp = [] then (s1, None) else (s1, Some (incoming sdp ''answer'')))
              | TrackerOther \<Rightarrow> (s, None))"

definition signal_key :: "Signal \<Rightarrow> string" where
  "signal_key s = sg_Type s @ '':'' @ sg_SessionID s @ '':'' @ sg_From s"

text \<open>The second part: the check of the signal, the filter of repetitions and the event.\<close>

definition recently_seen :: "go_time \<Rightarrow> string \<Rightarrow> TorrentSession \<Rightarrow> bool" where
  "recently_seen now k s = (case ts_seen s k of None \<Rightarrow> False | Some t \<Rightarrow> now - t < 5 * Second)"

definition remember :: "go_time \<Rightarrow> string \<Rightarrow> TorrentSession \<Rightarrow> TorrentSession" where
  "remember now k s = s\<lparr>ts_seen := (\<lambda>i. case ((ts_seen s)(k \<mapsto> now)) i of None \<Rightarrow> None | Some t \<Rightarrow> if signalTTL < now - t then None else Some t)\<rparr>"

definition deliver_signal :: "signal_libs \<Rightarrow> go_time \<Rightarrow> Signal \<Rightarrow> TorrentSession \<Rightarrow> TorrentSession" where
  "deliver_signal libs now signal s =
     (case openIncoming (sl_cryptography libs) (sl_cbor libs) (sl_json libs) signal (ts_topic s) (ts_peerID s) (ts_token s) now of
        None \<Rightarrow> s
      | Some opened \<Rightarrow>
          if recently_seen now (signal_key opened) s then s
          else (remember now (signal_key opened) s)\<lparr>ts_events := ts_events s @ [opened]\<rparr>)"

definition torrent_receive :: "signal_libs \<Rightarrow> go_time \<Rightarrow> string \<Rightarrow> tracker_message \<Rightarrow> TorrentSession \<Rightarrow> TorrentSession" where
  "torrent_receive libs now url m s =
     (case tracker_signal libs now url m s of (s1, None) \<Rightarrow> s1 | (s1, Some signal) \<Rightarrow> deliver_signal libs now signal s1)"

section \<open>Publishing\<close>

text \<open>What is written: an answer to one tracker or to all of them, or an announcement with up to three offers.\<close>

datatype tracker_write = WriteAnswer "string option" string string string | WriteAnnounce "(string \<times> string) list"

datatype torrent_error = PrepareError signal_error | TrickleUnsupported

text \<open>\<open>order\<close> is the order in which the loop over the map visits the offers.\<close>

definition announcePayload :: "string list \<Rightarrow> TorrentSession \<Rightarrow> (string \<times> string) list" where
  "announcePayload order s =
     take 3 (List.map_filter (\<lambda>k. map_option (\<lambda>signal. (sg_SessionID signal, trackerSignal signal)) (ts_offers s k)) order)"

definition torrent_Publish ::
  "signal_libs \<Rightarrow> random_source \<Rightarrow> go_time \<Rightarrow> string list \<Rightarrow> Signal \<Rightarrow> TorrentSession \<Rightarrow> TorrentSession \<times> (torrent_error + tracker_write)" where
  "torrent_Publish libs rnd now order value s =
     (case prepareOutgoing (sl_cryptography libs) (sl_cbor libs) rnd value (ts_topic s) (ts_peerID s) (ts_token s) now of
        Inl e \<Rightarrow> (s, Inl (PrepareError e))
      | Inr signal \<Rightarrow>
          if sg_Type signal = ''candidate'' then (s, Inl TrickleUnsupported)
          else let key = sg_SessionID signal @ '':'' @ sg_To signal;
                   s1 = (if sg_Type signal = ''offer'' then s\<lparr>ts_offers := (ts_offers s)(sg_SessionID signal \<mapsto> signal)\<rparr>
                         else if sg_Type signal = ''bye'' then
                           s\<lparr>ts_offers := (ts_offers s)(sg_SessionID signal := None), ts_offerOrigins := (ts_offerOrigins s)(key := None)\<rparr>
                         else s)
               in if sg_Type signal = ''answer''
                  then (s1, Inr (WriteAnswer (ts_offerOrigins s1 key) (sg_SessionID signal) (sg_To signal) (trackerSignal signal)))
                  else (s1, Inr (WriteAnnounce (announcePayload order s1))))"

text \<open>\<open>writeAll\<close> over the results of the sockets: it succeeds when one of them does.\<close>

definition tracker_writeAll :: "io_error option list \<Rightarrow> io_error option" where
  "tracker_writeAll results = (if None \<in> set results then None else case results of [] \<Rightarrow> Some (IOFailure ''no WebTorrent tracker is connected'') | r # _ \<Rightarrow> r)"


section \<open>Lemmas\<close>

lemma deliver_signal_cases:
  obtains (kept) "ts_events (deliver_signal libs now signal s) = ts_events s"
  | (added) opened where "ts_events (deliver_signal libs now signal s) = ts_events s @ [opened]"
      and "openIncoming (sl_cryptography libs) (sl_cbor libs) (sl_json libs) signal (ts_topic s) (ts_peerID s) (ts_token s) now = Some opened"
proof (cases "openIncoming (sl_cryptography libs) (sl_cbor libs) (sl_json libs) signal (ts_topic s) (ts_peerID s) (ts_token s) now")
  case None
  then show ?thesis using kept by (simp add: deliver_signal_def)
next
  case (Some opened)
  then show ?thesis using kept added by (cases "recently_seen now (signal_key opened) s") (simp_all add: deliver_signal_def remember_def)
qed

lemma trackerIncoming_fields:
  assumes "sg_SessionID (trackerIncoming u s now text kind sid from) \<noteq> []"
  shows "sg_SessionID (trackerIncoming u s now text kind sid from) = sid \<and> sg_From (trackerIncoming u s now text kind sid from) = from \<and>
    sg_Type (trackerIncoming u s now text kind sid from) = kind"
  using assms by (auto simp: trackerIncoming_def zero_signal_def split: if_splits option.splits)

lemma tracker_signal_fields:
  assumes "tracker_signal libs now url m s = (s1, x)"
  shows "ts_events s1 = ts_events s" "ts_topic s1 = ts_topic s" "ts_peerID s1 = ts_peerID s" "ts_token s1 = ts_token s"
  using assms by (auto simp: tracker_signal_def Let_def split: if_splits tracker_body.splits)

lemma tracker_signal_Some:
  assumes "tracker_signal libs now url m s = (s1, Some signal)"
  shows "\<exists>sdp kind. signal = trackerIncoming (sl_signal libs) s now sdp kind (tm_offer_id m) (tm_peer_id m) \<and>
    (kind = ''answer'' \<longrightarrow> ts_offers s (tm_offer_id m) \<noteq> None)"
  using assms by (auto simp: tracker_signal_def Let_def split: if_splits tracker_body.splits)

lemma openIncoming_same:
  assumes "openIncoming cr cb u signal topic peerID token now = Some opened"
  shows "sg_SessionID opened = sg_SessionID signal" "sg_From opened = sg_From signal" "sg_Type opened = sg_Type signal" "sg_SessionID signal \<noteq> []"
proof -
  note O = openIncomingE [OF assms]
  show "sg_SessionID opened = sg_SessionID signal" "sg_From opened = sg_From signal" using decrypt_signal_fields [OF O(1)] by simp_all
  show "sg_Type opened = sg_Type signal" using O(1) by (auto simp: decrypt_signal_def split: if_splits option.splits sum.splits)
  show "sg_SessionID signal \<noteq> []" using O(3) by auto
qed

section \<open>Properties\<close>

text \<open>
  C19: a tracker message causes at most one event. The event carries the session and the sender that the message
  names, is for this room, is an answer only to an offer that this side published and has
  not withdrawn, and under a token its payload was sealed with the token.
\<close>

theorem torrent_events_sound:
  "ts_events (torrent_receive libs now url m s) = ts_events s \<or>
   (\<exists>opened. ts_events (torrent_receive libs now url m s) = ts_events s @ [opened] \<and> sg_SessionID opened = tm_offer_id m \<and>
      sg_From opened = tm_peer_id m \<and> sg_Room opened = ts_topic s \<and> (sg_Type opened = ''answer'' \<longrightarrow> ts_offers s (tm_offer_id m) \<noteq> None) \<and>
      (\<forall>t. ts_token s = Some t \<longrightarrow> (\<exists>envelope plaintext. DecodeString (sg_Encrypted opened) = Some envelope \<and>
         Open (sl_cryptography libs) (sl_cbor libs) t ''signaling'' envelope (signalAdditionalData opened) = Inr plaintext)))"
proof (cases "tracker_signal libs now url m s")
  case (Pair s1 x)
  note F = tracker_signal_fields [OF Pair]
  show ?thesis
  proof (cases x)
    case None
    then show ?thesis using F by (simp add: torrent_receive_def Pair)
  next
    case (Some signal)
    then have e: "torrent_receive libs now url m s = deliver_signal libs now signal s1" by (simp add: torrent_receive_def Pair)
    from tracker_signal_Some [OF Pair [unfolded Some]] obtain sdp kind where
      k: "signal = trackerIncoming (sl_signal libs) s now sdp kind (tm_offer_id m) (tm_peer_id m)" "kind = ''answer'' \<longrightarrow> ts_offers s (tm_offer_id m) \<noteq> None"
      by blast
    show ?thesis
    proof (cases rule: deliver_signal_cases [of libs now signal s1])
      case kept
      then show ?thesis using F e by simp
    next
      case (added opened)
      note S = openIncoming_same [OF added(2)] and O = openIncomingE [OF added(2)]
      have t: "sg_SessionID opened = tm_offer_id m" "sg_From opened = tm_peer_id m" "sg_Type opened = kind"
        using trackerIncoming_fields [of "sl_signal libs" s now sdp kind "tm_offer_id m" "tm_peer_id m"] S unfolding k(1) by simp_all
      have "\<exists>envelope plaintext. DecodeString (sg_Encrypted opened) = Some envelope \<and>
         Open (sl_cryptography libs) (sl_cbor libs) t ''signaling'' envelope (signalAdditionalData opened) = Inr plaintext" if "ts_token s = Some t" for t
        using decrypt_signalE [OF O(1), of t] that F(4) by auto
      then show ?thesis using added(1) e F(1,2) t k(2) O(7) by auto
    qed
  qed
qed

text \<open>
  C39: any peer of the swarm can keep an answer away. A message that only claims to answer a published offer, with an
  empty description, withdraws the offer before anything in it is checked, and the real answer,
  whatever it holds and whoever sends it, is then ignored.
\<close>

theorem forged_answer_blocks:
  assumes "tm_peer_id forged \<noteq> []" and "tm_peer_id forged \<noteq> ts_peerID s" and "tm_offer_id forged \<noteq> []" and "tm_body forged = TrackerAnswer []"
    and "tm_offer_id answer = tm_offer_id forged" and "tm_body answer = TrackerAnswer sdp"
  shows "ts_events (torrent_receive libs later url' answer (torrent_receive libs now url forged s)) = ts_events s"
proof -
  have "torrent_receive libs now url forged s = s\<lparr>ts_offers := (ts_offers s)(tm_offer_id forged := None)\<rparr>"
    using assms(1-4) by (simp add: torrent_receive_def tracker_signal_def Let_def)
  then show ?thesis using assms(5,6) by (simp add: torrent_receive_def tracker_signal_def Let_def)
qed

text \<open>The table of origins grows with every offer, also with those that are refused.\<close>

definition junk_offer :: "nat \<Rightarrow> tracker_message" where
  "junk_offer n = \<lparr>tm_peer_id = ''x'', tm_offer_id = replicate (Suc n) CHR ''x'', tm_body = TrackerOffer ''x''\<rparr>"


definition junk_key :: "nat \<Rightarrow> string" where
  "junk_key n = replicate (Suc n) CHR ''x'' @ '':x''"

lemma junk_received:
  assumes "ts_peerID s \<noteq> ''x''"
  shows "ts_events (torrent_receive libs now url (junk_offer n) s) = ts_events s \<and>
    ts_offerOrigins (torrent_receive libs now url (junk_offer n) s) = (ts_offerOrigins s)(junk_key n \<mapsto> url) \<and>
    ts_peerID (torrent_receive libs now url (junk_offer n) s) = ts_peerID s"
proof -
  have "\<not> clientIDPattern ''x''" by (simp add: clientIDPattern_def)
  moreover have "\<not> HasPrefix ''x'' encryptedTrackerPrefix" by (simp add: HasPrefix_def encryptedTrackerPrefix_def)
  ultimately have "openIncoming cr cb u (trackerIncoming v s now ''x'' kind sid ''x'') topic peer token now = None" for cr cb u v kind sid topic peer token
    by (simp add: openIncoming_def trackerIncoming_def)
  then show ?thesis using assms
    by (simp add: torrent_receive_def tracker_signal_def deliver_signal_def junk_offer_def junk_key_def)
qed

theorem offer_origins_unbounded:
  assumes "ts_peerID s \<noteq> ''x''"
  shows "inj junk_key \<and> junk_key ` {..<n} \<subseteq> dom (ts_offerOrigins (fold (\<lambda>i. torrent_receive libs now url (junk_offer i)) [0..<n] s)) \<and>
    ts_events (fold (\<lambda>i. torrent_receive libs now url (junk_offer i)) [0..<n] s) = ts_events s"
proof -
  have "inj junk_key" by (rule injI) (metis junk_key_def append_same_eq length_replicate nat.inject)
  moreover have "ts_peerID (fold (\<lambda>i. torrent_receive libs now url (junk_offer i)) [0..<n] s) = ts_peerID s \<and>
      junk_key ` {..<n} \<subseteq> dom (ts_offerOrigins (fold (\<lambda>i. torrent_receive libs now url (junk_offer i)) [0..<n] s)) \<and>
      ts_events (fold (\<lambda>i. torrent_receive libs now url (junk_offer i)) [0..<n] s) = ts_events s"
  proof (induction n)
    case (Suc n)
    let ?s = "fold (\<lambda>i. torrent_receive libs now url (junk_offer i)) [0..<n] s"
    have "ts_peerID ?s \<noteq> ''x''" using Suc assms by simp
    from junk_received [OF this, of libs now url n] Suc show ?case by (auto simp: lessThan_Suc)
  qed simp
  ultimately show ?thesis by blast
qed

section \<open>Witnesses\<close>

definition sample_libs :: signal_libs where
  "sample_libs = \<lparr>sl_cryptography = sample_cryptography, sl_cbor = sample_cbor, sl_json = sample_unmarshal, sl_signal = \<lambda>bs. None\<rparr>"

definition sample_session :: TorrentSession where
  "sample_session = \<lparr>ts_topic = ''room'', ts_peerID = peer_b, ts_token = None, ts_offers = [''0123456789abcdef'' \<mapsto> sample_signal], ts_offerOrigins = Map.empty,
     ts_seen = Map.empty, ts_events = []\<rparr>"

definition sample_answer :: tracker_message where
  "sample_answer = \<lparr>tm_peer_id = peer_a, tm_offer_id = ''0123456789abcdef'', tm_body = TrackerAnswer ''v=0''\<rparr>"

theorem forged_answer_blocks_witness:
  "ts_events (torrent_receive sample_libs 1 ''u'' sample_answer
     (torrent_receive sample_libs 0 ''u'' (sample_answer\<lparr>tm_body := TrackerAnswer []\<rparr>) sample_session)) = []"
proof -
  have "peer_a \<noteq> []" "peer_a \<noteq> ts_peerID sample_session" by (simp_all add: peer_a_def peer_b_def sample_session_def)
  then have "ts_events (torrent_receive sample_libs 1 ''u'' sample_answer
     (torrent_receive sample_libs 0 ''u'' (sample_answer\<lparr>tm_body := TrackerAnswer []\<rparr>) sample_session)) = ts_events sample_session"
    by (intro forged_answer_blocks [where sdp = "''v=0''"]) (simp_all add: sample_answer_def)
  then show ?thesis by (simp add: sample_session_def)
qed

lemma sample_answer_accepted: "ts_events (torrent_receive sample_libs 0 ''u'' sample_answer sample_session) \<noteq> []"
proof -
  let ?w = "(stamp_signal ''room'' peer_a 0 sample_signal)\<lparr>sg_Type := ''answer'', sg_To := peer_b\<rparr>"
  have p: "prepareOutgoing sample_cryptography sample_cbor (\<lambda>n. None) (sample_signal\<lparr>sg_Type := ''answer'', sg_To := peer_b\<rparr>) ''room'' peer_a None 0 = Inr ?w"
  proof -
    have "clientIDPattern peer_b" by code_simp
    then show ?thesis using sample_checks(1)
      by (simp add: prepareOutgoing_def Let_def signal_type_error_def validateSignalPayloadSizes_def stamp_signal_def sample_signal_def maxSDPBytes_def)
  qed
  have "openIncoming sample_cryptography sample_cbor sample_unmarshal ?w ''room'' peer_b None 0 \<noteq> None"
    using openIncoming_stamped [OF p, of sample_unmarshal peer_b 0]
    by (simp add: decrypt_signal_def stamp_signal_def sample_signal_def peer_a_def peer_b_def signalTTL_def Second_def Millisecond_def)
  moreover have "trackerIncoming (sl_signal sample_libs) sample_session 0 ''v=0'' ''answer'' ''0123456789abcdef'' peer_a = ?w"
    by (simp add: trackerIncoming_def HasPrefix_def encryptedTrackerPrefix_def zero_signal_def sample_session_def stamp_signal_def sample_signal_def)
  moreover have "peer_a \<noteq> []" "peer_a \<noteq> peer_b" by (simp_all add: peer_a_def peer_b_def)
  ultimately show ?thesis
    by (auto simp: torrent_receive_def tracker_signal_def sample_answer_def deliver_signal_def recently_seen_def
        sample_session_def sample_libs_def Let_def split: option.split)
qed

theorem torrent_events_sound_witness:
  "\<exists>opened. ts_events (torrent_receive sample_libs 0 ''u'' sample_answer sample_session) = [opened] \<and> sg_From opened = peer_a \<and> sg_Room opened = ''room''"
proof -
  have "ts_events sample_session = []" "ts_topic sample_session = ''room''" "tm_peer_id sample_answer = peer_a"
    by (simp_all add: sample_session_def sample_answer_def)
  then show ?thesis
    using torrent_events_sound [of sample_libs 0 "''u''" sample_answer sample_session] sample_answer_accepted by auto
qed

end
