(* ===== verification/Peer_Link.thy ===== *)
theory Peer_Link
  imports Wire Go_IO
begin

text \<open>
  The transport under a native stream (\<open>src/nativewebrtc/endpoint.go\<close>): \<open>nativePeer\<close>, a WebRTC connection with its
  data channel and frame queue, and \<open>peerLink\<close>, which rebinds a stream to a replacement peer. The
  callbacks of the WebRTC library are functions on the peer. The last section runs a writer of the
  stream against the end of the reconnection grace, with the mutexes of the code.
\<close>

definition nativeFrameQueueDepth :: nat where "nativeFrameQueueDepth = 128"

section \<open>A WebRTC peer\<close>

record nativePeer =
  np_channel :: "nat option"
  np_frames :: "Frame list"
  np_open :: bool
  np_closed :: bool

definition newNativePeer :: "nat option \<Rightarrow> nativePeer" where
  "newNativePeer channel = \<lparr>np_channel = channel, np_frames = [], np_open = False, np_closed = False\<rparr>"

definition np_Close :: "nativePeer \<Rightarrow> nativePeer" where
  "np_Close p = (if np_closed p then p else p\<lparr>np_closed := True, np_channel := None\<rparr>)"

text \<open>The flag tells whether the offered channel is kept; the others are closed or left to the closed connection.\<close>

definition attach :: "nat \<Rightarrow> nativePeer \<Rightarrow> nativePeer \<times> bool" where
  "attach channel p =
     (if np_closed p then (p, False)
      else if np_channel p \<noteq> None \<and> np_channel p \<noteq> Some channel then (p, False)
      else (p\<lparr>np_channel := Some channel\<rparr>, True))"

definition onOpen :: "nativePeer \<Rightarrow> nativePeer" where
  "onOpen p = p\<lparr>np_open := True\<rparr>"

text \<open>A message; \<open>keep\<close> is the choice of the \<open>select\<close> when the queue has room and the peer is closed.\<close>

definition onMessage :: "bool \<Rightarrow> bytes \<Rightarrow> nativePeer \<Rightarrow> nativePeer" where
  "onMessage keep data p =
     (case DecodeFrame data of
        Inl e \<Rightarrow> np_Close p
      | Inr frame \<Rightarrow>
          if length (np_frames p) < nativeFrameQueueDepth then
            (if np_closed p \<and> \<not> keep then p else p\<lparr>np_frames := np_frames p @ [frame]\<rparr>)
          else if np_closed p then p
          else np_Close p)"

text \<open>\<open>Send\<close>: None while it waits for the channel to open; \<open>send\<close> is the data channel's own result.\<close>

definition np_Send :: "(bytes \<Rightarrow> io_error option) \<Rightarrow> Frame \<Rightarrow> nativePeer \<Rightarrow> (io_error option) option" where
  "np_Send send frame p =
     (if \<not> np_open p \<and> \<not> np_closed p then None
      else if np_channel p = None then Some (Some ErrClosedPipe)
      else Some (send (EncodeFrame (frame_Type frame) (frame_Payload frame))))"

section \<open>The link of a stream\<close>

text \<open>Peers are numbered.\<close>

record peerLink =
  pl_peer :: "nat option"
  pl_closed :: bool

definition newPeerLink :: "nat \<Rightarrow> peerLink" where
  "newPeerLink p = \<lparr>pl_peer = Some p, pl_closed = False\<rparr>"

text \<open>The peer that \<open>Send\<close> uses: it waits when the outer value is None.\<close>

definition link_Send :: "peerLink \<Rightarrow> (io_error + nat) option" where
  "link_Send l = (if pl_closed l then Some (Inl ErrClosedPipe) else case pl_peer l of None \<Rightarrow> None | Some p \<Rightarrow> Some (Inr p))"

definition link_Attach :: "nat \<Rightarrow> peerLink \<Rightarrow> peerLink \<times> bool" where
  "link_Attach p l = (if pl_closed l \<or> pl_peer l \<noteq> None then (l, False) else (l\<lparr>pl_peer := Some p\<rparr>, True))"

definition link_Detach :: "nat \<Rightarrow> peerLink \<Rightarrow> peerLink \<times> bool" where
  "link_Detach p l = (if pl_peer l \<noteq> Some p then (l, False) else (l\<lparr>pl_peer := None\<rparr>, True))"

text \<open>\<open>Close\<close> and \<open>Interrupt\<close> return the peer that they close.\<close>

definition link_Close :: "peerLink \<Rightarrow> peerLink \<times> nat option" where
  "link_Close l = (if pl_closed l then (l, None) else (l\<lparr>pl_closed := True, pl_peer := None\<rparr>, pl_peer l))"

definition link_Interrupt :: "peerLink \<Rightarrow> nat option" where
  "link_Interrupt l = pl_peer l"

section \<open>A writer and the end of the reconnection grace\<close>

text \<open>
  One stream of a listener. \<open>WriteSending\<close> is inside \<open>link.Send\<close> with the stream's write mutex. The goroutine of
  the timer takes the listener's mutex, marks the stream closed in \<open>fail\<close>, which then waits for the
  write mutex (\<open>Failing\<close>), and only afterwards closes the link.
\<close>

datatype thread = Writer | Expirer

datatype writer_stage = WriteStarted | WriteLocked | WriteSending | WriteReturned

datatype expiry_stage = Disarmed | Armed | Fired | Failing | Closing | Expired

record stall =
  st_link :: peerLink
  st_closed :: bool
  st_writeClosed :: bool
  st_writeMu :: "thread option"
  st_mu :: "thread option"
  st_writer :: writer_stage
  st_expiry :: expiry_stage

definition stall_start :: "nat \<Rightarrow> stall" where
  "stall_start p = \<lparr>st_link = newPeerLink p, st_closed = False, st_writeClosed = False, st_writeMu = None, st_mu = None,
     st_writer = WriteReturned, st_expiry = Disarmed\<rparr>"

definition write_check :: "stall \<Rightarrow> stall" where
  "write_check s = (if st_writeClosed s \<or> st_closed s then s\<lparr>st_writer := WriteReturned, st_writeMu := None\<rparr> else s\<lparr>st_writer := WriteSending\<rparr>)"

inductive stall_step :: "stall \<Rightarrow> stall \<Rightarrow> bool" where
  write_called: "st_writer s = WriteReturned \<Longrightarrow> stall_step s (s\<lparr>st_writer := WriteStarted\<rparr>)"
| write_locks: "st_writer s = WriteStarted \<Longrightarrow> st_writeMu s = None \<Longrightarrow> stall_step s (s\<lparr>st_writer := WriteLocked, st_writeMu := Some Writer\<rparr>)"
| write_checks: "st_writer s = WriteLocked \<Longrightarrow> stall_step s (write_check s)"
| write_sends: "st_writer s = WriteSending \<Longrightarrow> link_Send (st_link s) \<noteq> None \<Longrightarrow> stall_step s (s\<lparr>st_writer := WriteReturned, st_writeMu := None\<rparr>)"
| peer_detached: "st_expiry s = Disarmed \<Longrightarrow> st_mu s = None \<Longrightarrow> link_Detach p (st_link s) = (l, True) \<Longrightarrow>
    stall_step s (s\<lparr>st_link := l, st_expiry := Armed\<rparr>)"
| peer_attached: "st_expiry s = Armed \<Longrightarrow> st_mu s = None \<Longrightarrow> link_Attach p (st_link s) = (l, True) \<Longrightarrow>
    stall_step s (s\<lparr>st_link := l, st_expiry := Disarmed\<rparr>)"
| timer_fires: "st_expiry s = Armed \<Longrightarrow> st_mu s = None \<Longrightarrow> stall_step s (s\<lparr>st_expiry := Fired, st_mu := Some Expirer\<rparr>)"
| timer_fails: "st_expiry s = Fired \<Longrightarrow> stall_step s (if st_closed s then s\<lparr>st_expiry := Closing\<rparr> else s\<lparr>st_closed := True, st_expiry := Failing\<rparr>)"
| timer_locks: "st_expiry s = Failing \<Longrightarrow> st_writeMu s = None \<Longrightarrow> stall_step s (s\<lparr>st_writeClosed := True, st_expiry := Closing\<rparr>)"
| timer_closes: "st_expiry s = Closing \<Longrightarrow> stall_step s (s\<lparr>st_link := fst (link_Close (st_link s)), st_mu := None, st_expiry := Expired\<rparr>)"

inductive_cases stall_stepE: "stall_step s s'"

definition stall_inv :: "stall \<Rightarrow> bool" where
  "stall_inv s \<longleftrightarrow>
     (pl_closed (st_link s) \<longrightarrow> pl_peer (st_link s) = None) \<and>
     (st_writeMu s = None \<longleftrightarrow> st_writer s \<in> {WriteStarted, WriteReturned}) \<and>
     (st_mu s = (if st_expiry s \<in> {Fired, Failing, Closing} then Some Expirer else None)) \<and>
     (st_expiry s \<in> {Armed, Fired, Failing, Closing} \<longrightarrow> link_Send (st_link s) = None)"

lemma stall_inv_step: "stall_inv s \<Longrightarrow> stall_step s s' \<Longrightarrow> stall_inv s'"
  by (erule stall_stepE)
     (auto simp: stall_inv_def write_check_def link_Send_def link_Detach_def link_Attach_def link_Close_def split: if_splits option.splits)

interpretation stall_system: invariant_system stall_step "\<lambda>s. s = stall_start p" stall_inv
  by unfold_locales (simp add: stall_inv_def stall_start_def newPeerLink_def, rule stall_inv_step)

lemma stall_stuck:
  assumes inv: "stall_inv s" and f: "st_expiry s = Failing"
  shows "(\<forall>s'. \<not> stall_step s s') \<longleftrightarrow> st_writer s = WriteSending"
proof
  assume w: "st_writer s = WriteSending"
  show "\<forall>s'. \<not> stall_step s s'" using inv f w by (auto elim!: stall_stepE simp: stall_inv_def)
next
  assume stuck: "\<forall>s'. \<not> stall_step s s'"
  have "st_writeMu s \<noteq> None" using timer_locks [OF f] stuck by blast
  moreover have "st_writer s \<noteq> WriteLocked" using write_checks stuck by blast
  ultimately show "st_writer s = WriteSending" using inv by (cases "st_writer s") (auto simp: stall_inv_def)
qed

definition stalled :: "nat \<Rightarrow> stall" where
  "stalled p = \<lparr>st_link = \<lparr>pl_peer = None, pl_closed = False\<rparr>, st_closed = True, st_writeClosed = False, st_writeMu = Some Writer, st_mu = Some Expirer,
     st_writer = WriteSending, st_expiry = Failing\<rparr>"

lemma stalled_reachable: "stall_step\<^sup>*\<^sup>* (stall_start p) (stalled p)"
proof -
  let ?s1 = "(stall_start p)\<lparr>st_link := \<lparr>pl_peer = None, pl_closed = False\<rparr>, st_expiry := Armed\<rparr>"
  let ?s2 = "?s1\<lparr>st_writer := WriteStarted\<rparr>"
  let ?s3 = "?s2\<lparr>st_writer := WriteLocked, st_writeMu := Some Writer\<rparr>"
  let ?s4 = "?s3\<lparr>st_writer := WriteSending\<rparr>"
  let ?s5 = "?s4\<lparr>st_expiry := Fired, st_mu := Some Expirer\<rparr>"
  have 1: "stall_step (stall_start p) ?s1" by (rule peer_detached [where p = p]) (simp_all add: stall_start_def newPeerLink_def link_Detach_def)
  have 2: "stall_step ?s1 ?s2" by (rule write_called) (simp add: stall_start_def)
  have 3: "stall_step ?s2 ?s3" by (rule write_locks) (simp_all add: stall_start_def)
  have 4: "stall_step ?s3 ?s4" using write_checks [of ?s3] by (simp add: write_check_def stall_start_def)
  have 5: "stall_step ?s4 ?s5" by (rule timer_fires) (simp_all add: stall_start_def)
  have 6: "stall_step ?s5 (stalled p)" using timer_fails [of ?s5] by (simp add: stall_start_def stalled_def)
  show ?thesis using 1 2 3 4 5 6 by (meson converse_rtranclp_into_rtranclp rtranclp.rtrancl_refl)
qed

section \<open>Properties\<close>

text \<open>
  C37: when the grace to reconnect ends while a write waits for a new peer, the listener is stuck for ever: the
  timer holds the listener's mutex and waits for the write mutex, the write holds that and waits
  for a peer or for the link to be closed, which the timer does only afterwards. No other step
  is possible then, and it is the only way in which this end of a stream gets stuck.
\<close>

theorem expiry_deadlock:
  "stall_step\<^sup>*\<^sup>* (stall_start p) (stalled p) \<and> st_mu (stalled p) = Some Expirer \<and> st_writer (stalled p) = WriteSending \<and>
   (\<forall>s. stall_step\<^sup>*\<^sup>* (stall_start p) s \<longrightarrow> st_expiry s = Failing \<longrightarrow> ((\<forall>s'. \<not> stall_step s s') \<longleftrightarrow> st_writer s = WriteSending))"
proof -
  have "(\<forall>s'. \<not> stall_step s s') \<longleftrightarrow> st_writer s = WriteSending" if "stall_step\<^sup>*\<^sup>* (stall_start p) s" "st_expiry s = Failing" for s
    using stall_stuck [OF stall_system.reachable_inv [OF refl that(1)] that(2)] .
  then show ?thesis using stalled_reachable by (simp add: stalled_def)
qed

theorem expiry_deadlock_witness: "\<forall>s'. \<not> stall_step (stalled 0) s'"
proof -
  have "st_expiry (stalled 0) = Failing" by (simp add: stalled_def)
  then show ?thesis using expiry_deadlock [of 0] by blast
qed

end
