(* ===== verification/Native_Listener.thy ===== *)
theory Native_Listener
  imports Peer_Link
begin

text \<open>
  The listener for native WebRTC streams (\<open>src/nativewebrtc/endpoint.go\<close>, from \<open>Listener\<close> on). Its goroutines meet in
  critical sections under two mutexes; each section is a function on the state and the sections
  interleave in any order. Streams and peers are numbered; the link of a stream outlives its entry in the map.
\<close>

definition maxConcurrentHandshakes :: int where "maxConcurrentHandshakes = 32"
definition maxConcurrentHandshakesPeer :: int where "maxConcurrentHandshakesPeer = 2"

record listenerStream =
  le_stream :: nat
  le_peer :: "nat option"
  le_timer :: bool

text \<open>
  \<open>li_running\<close> lists the remotes of the handshake goroutines, \<open>li_resuming\<close> and \<open>li_watching\<close> the goroutines after
  \<open>activate\<close>, \<open>li_live\<close> the peers that are not closed. \<open>li_orphans\<close> are peers that \<open>watch\<close> detached without their being closed.
\<close>

record Listener =
  li_closed :: bool
  li_streams :: "string \<rightharpoonup> listenerStream"
  li_links :: "nat \<Rightarrow> peerLink"
  li_handshakes :: int
  li_peerHandshakes :: "string \<rightharpoonup> int"
  li_running :: "string list"
  li_resuming :: "(string \<times> nat \<times> nat) set"
  li_watching :: "(string \<times> nat \<times> nat) set"
  li_live :: "nat set"
  li_orphans :: "nat set"
  li_next :: nat
  li_delivered :: "(nat \<times> string) list"


section \<open>Handshakes\<close>

definition peer_count :: "string \<Rightarrow> Listener \<Rightarrow> int" where
  "peer_count remote l = (case li_peerHandshakes l remote of None \<Rightarrow> 0 | Some n \<Rightarrow> n)"



section \<open>Streams\<close>

definition close_peer :: "nat option \<Rightarrow> Listener \<Rightarrow> Listener" where
  "close_peer p l = (case p of None \<Rightarrow> l | Some p \<Rightarrow> l\<lparr>li_live := li_live l - {p}\<rparr>)"

definition close_link :: "nat \<Rightarrow> Listener \<Rightarrow> Listener" where
  "close_link s l = (case link_Close (li_links l s) of (k, p) \<Rightarrow> close_peer p (l\<lparr>li_links := (li_links l)(s := k)\<rparr>))"

text \<open>The critical section of \<open>activate\<close> with what follows it for a new stream.\<close>

definition activate :: "string \<Rightarrow> nat \<Rightarrow> Listener \<Rightarrow> Listener" where
  "activate remote p l =
     (if li_closed l then close_peer (Some p) l
      else case li_streams l remote of
             None \<Rightarrow>
               (let s = li_next l
                in l\<lparr>li_streams := (li_streams l)(remote \<mapsto> \<lparr>le_stream = s, le_peer = Some p, le_timer = False\<rparr>),
                     li_links := (li_links l)(s := newPeerLink p), li_next := Suc s,
                     li_watching := insert (remote, s, p) (li_watching l), li_delivered := li_delivered l @ [(s, remote)]\<rparr>)
           | Some entry \<Rightarrow>
               (let s = le_stream entry
                in case link_Attach p (li_links l s) of (k, attached) \<Rightarrow>
                     if le_peer entry \<noteq> None \<or> \<not> attached then close_peer (Some p) l
                     else l\<lparr>li_streams := (li_streams l)(remote \<mapsto> entry\<lparr>le_peer := Some p, le_timer := False\<rparr>),
                            li_links := (li_links l)(s := k), li_resuming := insert (remote, s, p) (li_resuming l)\<rparr>))"

text \<open>The function that closes a stream's peer, called by \<open>Close\<close> and \<open>Reset\<close> of the stream.\<close>

definition stream_closePeer :: "string \<Rightarrow> nat \<Rightarrow> Listener \<Rightarrow> Listener" where
  "stream_closePeer remote s l =
     (let l1 = (case li_streams l remote of
                  Some current \<Rightarrow> if le_stream current = s then l\<lparr>li_streams := (li_streams l)(remote := None)\<rparr> else l
                | None \<Rightarrow> l)
      in close_link s l1)"

definition watch_ended :: "string \<Rightarrow> nat \<Rightarrow> nat \<Rightarrow> Listener \<Rightarrow> Listener" where
  "watch_ended remote s p l =
     (let l1 = l\<lparr>li_watching := li_watching l - {(remote, s, p)}\<rparr>
      in case li_streams l remote of
           None \<Rightarrow> l1
         | Some entry \<Rightarrow>
             if le_stream entry \<noteq> s \<or> le_peer entry \<noteq> Some p then l1
             else l1\<lparr>li_links := (li_links l)(s := fst (link_Detach p (li_links l s))),
                     li_streams := (li_streams l)(remote \<mapsto> entry\<lparr>le_peer := None, le_timer := True\<rparr>),
                     li_orphans := (if p \<in> li_live l then insert p (li_orphans l) else li_orphans l)\<rparr>)"

definition grace_ended :: "string \<Rightarrow> nat \<Rightarrow> Listener \<Rightarrow> Listener" where
  "grace_ended remote s l =
     (case li_streams l remote of
        None \<Rightarrow> l
      | Some entry \<Rightarrow>
          if le_stream entry = s \<and> le_peer entry = None then close_link s (l\<lparr>li_streams := (li_streams l)(remote := None)\<rparr>) else l)"



section \<open>Interleavings\<close>




section \<open>The counters\<close>

definition handshake_inv :: "Listener \<Rightarrow> bool" where
  "handshake_inv l \<longleftrightarrow> li_handshakes l = int (length (li_running l)) \<and> int (length (li_running l)) \<le> maxConcurrentHandshakes \<and>
     (\<forall>r. peer_count r l = int (count_list (li_running l) r) \<and> int (count_list (li_running l) r) \<le> maxConcurrentHandshakesPeer) \<and>
     (\<forall>r. li_peerHandshakes l r \<noteq> Some 0)"

lemma handshake_inv_cong:
  "handshake_inv l \<Longrightarrow> li_handshakes l' = li_handshakes l \<Longrightarrow> li_peerHandshakes l' = li_peerHandshakes l \<Longrightarrow> li_running l' = li_running l \<Longrightarrow>
   handshake_inv l'"
  by (simp add: handshake_inv_def peer_count_def)





section \<open>The streams\<close>






lemma close_link_fields [simp]:
  "li_streams (close_link s l) = li_streams l" "li_delivered (close_link s l) = li_delivered l" "li_orphans (close_link s l) = li_orphans l"
  "li_closed (close_link s l) = li_closed l" "li_next (close_link s l) = li_next l" "li_resuming (close_link s l) = li_resuming l"
  "li_links (close_link s l) = (li_links l)(s := fst (link_Close (li_links l s)))"
  "li_handshakes (close_link s l) = li_handshakes l" "li_peerHandshakes (close_link s l) = li_peerHandshakes l" "li_running (close_link s l) = li_running l"
  by (simp_all add: close_link_def close_peer_def split: prod.split option.split)
















lemma close_peer_handshake: "handshake_inv l \<Longrightarrow> handshake_inv (close_peer p l)"
  by (erule handshake_inv_cong) (simp_all add: close_peer_def split: option.split)

lemma handshake_fields [simp]:
  "li_handshakes (activate r p l) = li_handshakes l" "li_peerHandshakes (activate r p l) = li_peerHandshakes l" "li_running (activate r p l) = li_running l"
  "li_handshakes (stream_closePeer r s l) = li_handshakes l" "li_peerHandshakes (stream_closePeer r s l) = li_peerHandshakes l"
  "li_running (stream_closePeer r s l) = li_running l"
  "li_handshakes (watch_ended r s p l) = li_handshakes l" "li_peerHandshakes (watch_ended r s p l) = li_peerHandshakes l"
  "li_running (watch_ended r s p l) = li_running l"
  "li_handshakes (grace_ended r s l) = li_handshakes l" "li_peerHandshakes (grace_ended r s l) = li_peerHandshakes l"
  "li_running (grace_ended r s l) = li_running l"
  by (simp_all add: activate_def close_peer_def stream_closePeer_def watch_ended_def grace_ended_def Let_def
      split: option.split prod.split)





section \<open>Properties\<close>











end
