(* ===== verification/Native_Dial.thy ===== *)
theory Native_Dial
  imports Signaling
begin

text \<open>
  Establishing an authenticated WebRTC peer (\<open>src/nativewebrtc/endpoint.go\<close>): the dialling side, the answering side and the
  race of the signaling adapters. The WebRTC library, the adapters and the clock are what the environment
  of a run gives: the descriptions, the results of calls and the events in their order. When the
  events of a run are used up, its context ends.
\<close>

section \<open>Dialling\<close>

datatype dial_event = SignalArrived Signal | SignalsEnded

datatype channel_event = ChannelOpened | ChannelClosed | ChannelTimeout

record dial_env =
  de_peerID :: string
  de_newPeer :: bool
  de_offerSDP :: "string option"
  de_publish :: "Signal \<Rightarrow> bool"
  de_signals :: "dial_event list"
  de_acceptAnswer :: "Signal \<Rightarrow> bool"
  de_channel :: channel_event
  de_send :: "Frame \<Rightarrow> bool"
  de_frame :: "Frame option"

datatype dial_error =
    DialSessionID signal_error
  | DialNewPeer
  | DialOffer
  | DialSignalingClosed
  | DialContext
  | DialAnswer
  | DialChannelClosed
  | DialChallenge
  | DialSend
  | DialFrame byte
  | DialResponse wire_error
  | DialRefused

record authenticated =
  au_transcript :: AuthTranscript
  au_challenge :: bytes
  au_response :: bytes

fun await_answer :: "string \<Rightarrow> string \<Rightarrow> (Signal \<Rightarrow> bool) \<Rightarrow> dial_event list \<Rightarrow> dial_error + Signal" where
  "await_answer sessionID peerID accept [] = Inl DialContext"
| "await_answer sessionID peerID accept (SignalsEnded # events) = Inl DialSignalingClosed"
| "await_answer sessionID peerID accept (SignalArrived s # events) =
     (if sg_SessionID s \<noteq> sessionID \<or> sg_To s \<noteq> peerID \<or> sg_Type s \<noteq> ''answer'' then await_answer sessionID peerID accept events
      else if accept s then Inr s else Inl DialAnswer)"

definition offer_signal :: "string \<Rightarrow> string \<Rightarrow> Signal" where
  "offer_signal sessionID sdp = \<lparr>sg_Version = 0, sg_Room = [], sg_Type = ''offer'', sg_SessionID = sessionID, sg_From = [], sg_To = [], sg_CreatedAt = 0,
     sg_SDP = sdp, sg_Candidate = None, sg_Encrypted = []\<rparr>"

text \<open>From the open channel to the ready frame.\<close>

definition authenticate_peer ::
  "libp2p \<Rightarrow> cryptography \<Rightarrow> key_ops \<Rightarrow> random_source \<Rightarrow> peer_id \<Rightarrow> u16 \<Rightarrow> dial_env \<Rightarrow> AuthTranscript \<Rightarrow> dial_error + authenticated" where
  "authenticate_peer lp cr ko rnd expected service env transcript =
     (case de_channel env of ChannelClosed \<Rightarrow> Inl DialChannelClosed | ChannelTimeout \<Rightarrow> Inl DialContext | ChannelOpened \<Rightarrow>
     (case rnd 32 of None \<Rightarrow> Inl DialChallenge | Some random \<Rightarrow>
     (let challenge = array_of 32 random
      in if \<not> de_send env \<lparr>frame_Type = FrameAuthChallenge, frame_Payload = challenge\<rparr> then Inl DialSend
         else case de_frame env of None \<Rightarrow> Inl DialContext | Some frame \<Rightarrow>
           if frame_Type frame \<noteq> FrameAuthResponse then Inl (DialFrame (frame_Type frame))
           else case VerifyAuthResponseV2 lp cr ko (frame_Payload frame) expected service challenge transcript of
                  Inl e \<Rightarrow> Inl (DialResponse e)
                | Inr False \<Rightarrow> Inl DialRefused
                | Inr True \<Rightarrow>
                    if \<not> de_send env \<lparr>frame_Type = FrameAuthReady, frame_Payload = []\<rparr> then Inl DialSend
                    else Inr \<lparr>au_transcript = transcript, au_challenge = challenge, au_response = frame_Payload frame\<rparr>)))"

text \<open>The result of a call and, when a peer was created, whether it was closed.\<close>

definition dialAuthenticatedPeer ::
  "libp2p \<Rightarrow> cryptography \<Rightarrow> key_ops \<Rightarrow> random_source \<Rightarrow> peer_id \<Rightarrow> u16 \<Rightarrow> dial_env \<Rightarrow> bool option \<times> (dial_error + authenticated)" where
  "dialAuthenticatedPeer lp cr ko rnd expected service env =
     (case CreateSignalingSessionID rnd of Inl e \<Rightarrow> (None, Inl (DialSessionID e)) | Inr sessionID \<Rightarrow>
      if \<not> de_newPeer env then (None, Inl DialNewPeer)
      else case de_offerSDP env of None \<Rightarrow> (Some True, Inl DialOffer) | Some offerSDP \<Rightarrow>
        if \<not> de_publish env (offer_signal sessionID offerSDP) then (Some True, Inl DialOffer)
        else case await_answer sessionID (de_peerID env) (de_acceptAnswer env) (de_signals env) of Inl e \<Rightarrow> (Some True, Inl e) | Inr answer \<Rightarrow>
          (case authenticate_peer lp cr ko rnd expected service env
              \<lparr>tr_SessionID = sessionID, tr_OfferSDP = offerSDP, tr_AnswerSDP = sg_SDP answer\<rparr> of
             Inl e \<Rightarrow> (Some True, Inl e)
           | Inr a \<Rightarrow> (Some False, Inr a)))"

section \<open>Answering\<close>









section \<open>Lemmas\<close>



lemma await_answer_Inr:
  "await_answer sessionID peerID accept events = Inr s \<Longrightarrow> sg_SessionID s = sessionID \<and> sg_To s = peerID \<and> SignalArrived s \<in> set events"
  by (induction sessionID peerID accept events rule: await_answer.induct) (auto split: if_splits)


lemma dial_failure_closes: "dialAuthenticatedPeer lp cr ko rnd expected service env = (c, Inl e) \<Longrightarrow> c \<noteq> Some False"
  by (auto simp: dialAuthenticatedPeer_def split: sum.splits if_splits option.splits)



section \<open>Properties\<close>


section \<open>Witnesses\<close>

















end
