(* ===== verification/Native_Connect.thy ===== *)
theory Native_Connect
  imports Signaling
begin

text \<open>
  Connecting through several signaling adapters at once: \<open>ConnectWithSignalingSessions\<close> of
  \<open>src/nativewebrtc/endpoint.go\<close>. The checks of the arguments are a function; the attempts of the adapters
  and the loop that waits for the first winner interleave in any order.
\<close>

datatype connect_error = ExpectedRequired | ConnectPort | SessionsRequired | SessionNil

text \<open>The adapters are their names; None is a nil adapter.\<close>

definition connect_check :: "peer_id \<Rightarrow> u16 \<Rightarrow> string option list \<Rightarrow> connect_error option" where
  "connect_check expected service sessions =
     (if expected = [] then Some ExpectedRequired
      else if service = 0 then Some ConnectPort
      else if sessions = [] then Some SessionsRequired
      else if None \<in> set sessions then Some SessionNil
      else None)"











section \<open>The invariant\<close>











section \<open>Properties\<close>




end
