(* ===== verification/Spec2Isabelle.thy ===== *)
theory Spec2Isabelle
  imports Native_Stream Route_Record Cli_Tokens Service Relay_Server Opener Stream_Race Cli_Client Socks Udp_Forward Exec_Session Pty_Session
    Torrent Native_Listener Native_Dial Native_Connect
begin

text \<open>
  A verification library for p2p-netcat, a netcat over libp2p and WebRTC written in Go.

  \<^bold>\<open>The program.\<close> A listener offers a service (a bridge to its standard streams, a TCP or UDP forward, a SOCKS
  proxy, a terminal or a command) under a logical port of its libp2p identity; a client reaches it directly, through a
  relay, or over a WebRTC data channel whose ends find each other through trackers. A pairing token shared
  by both ends names the listener and the port and authenticates each stream. The single-tunnel command line
  (\<open>internal/cli\<close>) and the daemon (\<open>internal/daemon\<close>) start nodes (\<open>p2p\<close>, \<open>nativewebrtc\<close>, \<open>relay\<close>), which hand
  streams to sessions (\<open>session\<close>); the wire formats are the packages under \<open>protocol\<close>.

  \<^bold>\<open>Foundations.\<close> \<open>Prelude\<close> has the types of the model, byte encodings of words (locale \<open>fixed_codec\<close>) and the
  invariants of step relations (locale \<open>invariant_system\<close>, interpreted for every relation below). \<open>Go_Text\<close>, \<open>Go_Time\<close>,
  \<open>Go_IO\<close>, \<open>Go_Net\<close>, \<open>Go_IP\<close>, \<open>Go_Paths\<close>, \<open>Go_Files\<close>, \<open>Go_Json\<close> and \<open>Base64\<close> model what the program uses of the Go
  standard library: a reader is the list of chunks it will deliver, a writer accepts any part of what it is given, and a
  file system is a map whose calls may fail as a parameter says. \<open>Libraries\<close> collects the packages that
  are not part of the sources (libp2p, cryptography, CBOR, keys) as records of functions, with what is documented of
  them as predicates; \<open>Sample_Libraries\<close> has concrete functions that satisfy the predicates, for the witnesses.

  \<^bold>\<open>Protocols.\<close> \<open>Datagram\<close> and \<open>Pty_Frames\<close> (\<open>protocol/datagram\<close>, \<open>protocol/pty\<close>) are codecs over streams with arbitrary
  chunking (locales \<open>full_write\<close>, \<open>frame_codec\<close>). \<open>Pairing\<close> (\<open>protocol/pairing\<close>): tokens, their text form, keys and
  sealed envelopes; decoding accepts canonical encodings only. \<open>Token_File\<close> (\<open>protocol/tokenfile\<close>): tokens under a
  password. \<open>Admission\<close> (\<open>protocol/admission\<close>): both sides of the handshake, with soundness and completion.
  \<open>Route_Record\<close> (\<open>protocol/routerecord\<close>): signed records.

  \<^bold>\<open>Native WebRTC\<close> (\<open>nativewebrtc\<close>). \<open>Wire\<close>: frames and identity proofs, which bind the whole exchange. \<open>Native_Stream\<close>:
  every method of \<open>Stream\<close>, with a writer that waits for the window as part of the state; two streams and the
  channels between them form the relation \<open>link_step\<close>, over which delivery is exact and does not deadlock.
  \<open>Peer_Link\<close>: the data channel and the link under a stream, and the interleaving of a blocked writer with the end of the
  grace period. \<open>Native_Listener\<close>: handshake limits and the table of streams. \<open>Signaling\<close> and \<open>Torrent\<close>: signals
  and the session with the trackers. \<open>Native_Dial\<close>: both sides of the authenticated handshake; a dial ends with the
  transcript that the listener signed. \<open>Native_Connect\<close>: the race of the signaling adapters.

  \<^bold>\<open>Files and configuration.\<close> \<open>App_Dir\<close>, \<open>Identity\<close>, \<open>Token_Store\<close>, \<open>Listener_Lock\<close> and \<open>Tunnel_Config\<close> (the packages
  \<open>appdir\<close>, \<open>identity\<close>, \<open>secretfile\<close>, \<open>listenerlock\<close> and \<open>tunnelconfig\<close> under \<open>internal\<close>, and \<open>cli/token_files.go\<close>): the
  folder of the program, the persistent key, tokens on disk, one listener per port (locale \<open>port_locks\<close>, through
  which the daemon uses the locks), and the validation of a configuration against a declarative predicate.

  \<^bold>\<open>Nodes and daemon.\<close> \<open>Node\<close> (\<open>p2p/node.go\<close>): options, dial order and advertising of a node. \<open>Relay_Server\<close> (\<open>relay\<close>).
  \<open>Daemon\<close>: start, stop, reload and the dispatch of streams; \<open>Daemon_Resources\<close>: each lock, handler and local listener
  belongs to one running tunnel; \<open>Daemon_Lifecycle\<close>: all or nothing at the start, reloads, and authentication
  before every privileged session after any history.

  \<^bold>\<open>Command line.\<close> \<open>Cli_Options\<close>, \<open>Cli_Listener\<close>, \<open>Cli_Client\<close>, \<open>Cli_Tokens\<close> (\<open>internal/cli\<close>): options, the goroutines of
  a listener, the client up to its authenticated stream, the token commands. \<open>Stream_Race\<close> and \<open>Opener\<close>: the race of
  both kinds of connection and the opener that hands out its first stream once (locale \<open>one_shot_opener\<close>). \<open>App_Run\<close>
  (\<open>internal/app\<close>, \<open>cli/run_command.go\<close>): the entry point, the restart under torsocks and the watched configuration.
  \<open>Service\<close> (\<open>internal/service\<close>): the systemd unit.

  \<^bold>\<open>Sessions\<close> (\<open>session\<close>). \<open>Bridge\<close>: both copying goroutines; what is delivered and that it ends. \<open>Socks\<close>, \<open>Udp_Forward\<close>,
  \<open>Exec_Session\<close>, \<open>Pty_Session\<close>: the proxies, the associations of the UDP forward, commands and remote terminals.

  \<^bold>\<open>How the model reads.\<close> A struct is a record and an operation a function from the state to the new state and a result;
  errors are values. Goroutines that meet in a mutex or a channel are inductive step relations whose steps are
  the critical sections, so that a theorem over the reachable states covers every interleaving. Bytes and ports are
  words of their width; Go's \<open>int\<close> is unbounded where the code bounds it first, and instants are integers of
  nanoseconds. Loops are structural or have a termination proof, so that no definition uses fuel; a loop that waits for
  its environment is a function of the finite list of events it meets. Only \<open>LoadOrCreate\<close>, which starts again when
  another process creates the key first, may run for ever against such a process; it returns None then.

  \<^bold>\<open>Defects.\<close> Some theorems show behaviour the code does not intend: a failed reload that cannot be undone by
  reloading the reported configuration, \<open>Close\<close> waiting for a writer, output of commands lost, a listener blocked by an
  expiring stream, peers and connections that are never closed, and a forged tracker answer that shuts out the real one.

  \<^bold>\<open>Not modelled.\<close> The libraries themselves (libp2p, pion WebRTC, WebSockets, Nostr, cryptography, CBOR, YAML), discovery
  by publish-subscribe, the Windows files, printing and logging, the loop that reconnects a client
  (\<open>superviseClientConnection\<close>), the reconnection of tracker sockets, the soak test, and the JavaScript packages, the web
  client and the shell scripts. Timers appear as steps that may happen at any time.
\<close>

end
